(* ===== verification/Vela_Prelude.thy ===== *)
theory Vela_Prelude
  imports Main "HOL-Library.Word" "HOL-Library.Monad_Syntax" "HOL-Library.Code_Target_Nat"
begin

unbundle bit_operations_syntax

section \<open>Prelude: bytes, machine integers, results and prefix codes\<close>

text \<open>
  What the components share.

  \<^item> Machine integers are words: \<open>u8\<close>, \<open>u16\<close>, \<open>u32\<close>, \<open>u64\<close>, \<open>u128\<close>. \<open>usize\<close> lengths are
    \<open>nat\<close>.
  \<^item> A fixed array \<open>[u8; n]\<close> is a word of \<open>8 * n\<close> bits, read and written through its
    big-endian bytes (\<open>to_be\<close>, \<open>of_be\<close>). \<open>of_be_to_be\<close> and \<open>to_be_of_be\<close> say that this is a
    bijection with the byte lists of that length, and \<open>lexordp_of_be\<close> that Rust's derived
    (lexicographic) order of such arrays is the order of the words.
  \<^item> A growable \<open>Vec<u8>\<close> or \<open>Bytes\<close> is a byte list; a \<open>String\<close> is the list of its UTF-8
    bytes as characters.
  \<^item> \<open>Result<T, E>\<close> is \<open>'e + 'a\<close> with \<open>Inl\<close> for \<open>Err\<close>.
  \<^item> An expression of the source that can panic (indexing, slicing) has type \<open>'a option\<close>,
    \<open>None\<close> being the panic: \<open>index\<close> and \<open>slice\<close>.
  \<^item> The locale \<open>prefix_code\<close> is the contract of every encoder that appends a
    self-delimiting representation to an output buffer.
\<close>

type_synonym u8 = "8 word"
type_synonym u16 = "16 word"
type_synonym u32 = "32 word"
type_synonym u64 = "64 word"
type_synonym u128 = "128 word"
type_synonym bytes = "8 word list"

named_theorems be_simps \<open>lengths and decodings of big-endian fields\<close>

subsection \<open>Big-endian numbers\<close>

primrec be_nat :: "nat \<Rightarrow> nat \<Rightarrow> bytes" where
  "be_nat 0 x = []"
| "be_nat (Suc n) x = be_nat n (x div 256) @ [word_of_nat x]"

definition of_be :: "bytes \<Rightarrow> nat" where
  "of_be bs = foldl (\<lambda>a b. a * 256 + unat b) 0 bs"

definition to_be :: "nat \<Rightarrow> 'a::len word \<Rightarrow> bytes" where
  "to_be n w = be_nat n (unat w)"

definition word_be :: "bytes \<Rightarrow> 'a::len word" where
  "word_be bs = word_of_nat (of_be bs)"

lemma be_nat_numeral [simp]:
  "be_nat (numeral k) x = be_nat (pred_numeral k) (x div 256) @ [word_of_nat x]"
  using be_nat.simps(2) [of "pred_numeral k" x] by (simp only: numeral_eq_Suc [symmetric])

lemma length_be_nat [simp]: "length (be_nat n x) = n"
  by (induction n arbitrary: x) simp_all

lemma length_to_be [simp, be_simps]: "length (to_be n w) = n"
  by (simp add: to_be_def)

lemma of_be_Nil [simp]: "of_be [] = 0"
  by (simp add: of_be_def)

lemma of_be_snoc [simp]: "of_be (bs @ [b]) = of_be bs * 256 + unat b"
  by (simp add: of_be_def)

lemma unat_byte_of_nat [simp]: "unat (word_of_nat x :: u8) = x mod 256"
  by (simp add: unat_of_nat)

lemma unat_byte_less [simp]: "unat (b :: u8) < 256"
  using unsigned_less [where 'a = nat, of b] by simp

lemma of_be_be_nat [simp]: "of_be (be_nat n x) = x mod 256 ^ n"
proof (induction n arbitrary: x)
  case 0
  then show ?case by simp
next
  case (Suc n)
  have "of_be (be_nat (Suc n) x) = (x div 256 mod 256 ^ n) * 256 + x mod 256"
    using Suc.IH by simp
  also have "\<dots> = x mod (256 * 256 ^ n)"
    by (simp only: mod_mult2_eq mult.commute)
  finally show ?case by simp
qed

lemma of_be_less: "of_be bs < 256 ^ length bs"
proof (induction bs rule: rev_induct)
  case Nil
  then show ?case by simp
next
  case (snoc b bs)
  have "of_be bs * 256 + unat b < (of_be bs + 1) * 256"
    by simp
  also have "\<dots> \<le> 256 ^ length bs * 256"
    using snoc.IH by (intro mult_right_mono) simp_all
  finally show ?case by (simp add: mult.commute)
qed

lemma be_nat_of_be [simp]: "n = length bs \<Longrightarrow> be_nat n (of_be bs) = bs"
proof (induction bs arbitrary: n rule: rev_induct)
  case Nil
  then show ?case by simp
next
  case (snoc b bs)
  have "(word_of_nat (of_be bs * 256 + unat b) :: u8) = b"
    by (simp only: word_unat_eq_iff unat_byte_of_nat) simp
  moreover have "(of_be bs * 256 + unat b) div 256 = of_be bs"
    by simp
  ultimately show ?case using snoc by simp
qed

lemma of_be_to_be [simp]:
  "LENGTH('a::len) = 8 * n \<Longrightarrow> word_be (to_be n (w :: 'a word)) = w"
  using unsigned_less [where 'a = nat, of w] by (simp add: to_be_def word_be_def power_mult)

lemma to_be_of_be [simp]:
  "LENGTH('a::len) = 8 * n \<Longrightarrow> length bs = n \<Longrightarrow> to_be n (word_be bs :: 'a word) = bs"
  using of_be_less [of bs] by (simp add: to_be_def word_be_def unat_of_nat power_mult)

lemma to_be_inject:
  "LENGTH('a::len) = 8 * n \<Longrightarrow> to_be n (v :: 'a word) = to_be n w \<longleftrightarrow> v = w"
  by (metis of_be_to_be)

text \<open>The lexicographic order of arrays of one length is the order of the numbers.\<close>

lemma of_be_Cons: "of_be (b # bs) = unat b * 256 ^ length bs + of_be bs"
proof (induction bs rule: rev_induct)
  case Nil
  then show ?case by (simp add: of_be_def)
next
  case (snoc c cs)
  have "of_be (b # cs @ [c]) = of_be (b # cs) * 256 + unat c"
    using of_be_snoc [of "b # cs" c] by simp
  then show ?case using snoc.IH by (simp add: algebra_simps)
qed

lemma of_be_lex_step:
  assumes "length xs = length ys"
  shows "of_be (x # xs) < of_be (y # ys) \<longleftrightarrow> x < y \<or> (x = y \<and> of_be xs < of_be ys)"
proof -
  let ?B = "256 ^ length ys :: nat"
  have xs: "of_be xs < ?B" and ys: "of_be ys < ?B"
    using of_be_less [of xs] of_be_less [of ys] assms by simp_all
  have up: "a * ?B + of_be us < b * ?B + of_be vs"
    if "a < b" "of_be us < ?B" for a b :: nat and us vs
  proof -
    have "a * ?B + of_be us < (a + 1) * ?B" using that(2) by simp
    also have "\<dots> \<le> b * ?B" using that(1) by (intro mult_right_mono) simp_all
    finally show ?thesis by simp
  qed
  consider "x < y" | "y < x" | "x = y" by (rule linorder_cases)
  then show ?thesis
  proof cases
    case 1
    then have "unat x < unat y" by (simp add: word_less_nat_alt)
    with 1 up [OF this xs, of ys] show ?thesis by (simp add: of_be_Cons assms word_less_nat_alt)
  next
    case 2
    then have "unat y < unat x" by (simp add: word_less_nat_alt)
    with 2 up [OF this ys, of xs] show ?thesis
      by (auto simp: of_be_Cons assms word_less_nat_alt)
  next
    case 3
    then show ?thesis by (simp add: of_be_Cons assms)
  qed
qed

lemma lexordp_of_be:
  "length xs = length ys \<Longrightarrow> ord_class.lexordp xs ys \<longleftrightarrow> of_be xs < of_be ys"
proof (induction xs ys rule: list_induct2)
  case Nil
  then show ?case by simp
next
  case (Cons x xs y ys)
  then show ?case by (auto simp: of_be_lex_step)
qed

subsection \<open>Indexing and slicing that can panic\<close>

definition index :: "'a list \<Rightarrow> nat \<Rightarrow> 'a option" where
  "index xs i = (if i < length xs then Some (xs ! i) else None)"

definition slice :: "'a list \<Rightarrow> nat \<Rightarrow> nat \<Rightarrow> 'a list option" where
  "slice xs a b = (if a \<le> b \<and> b \<le> length xs then Some (take (b - a) (drop a xs)) else None)"

lemma index_Some [simp]: "i < length xs \<Longrightarrow> index xs i = Some (xs ! i)"
  by (simp add: index_def)

lemma slice_Some [simp]:
  "a \<le> b \<Longrightarrow> b \<le> length xs \<Longrightarrow> slice xs a b = Some (take (b - a) (drop a xs))"
  by (simp add: slice_def)

lemma slice_length: "slice xs a b = Some ys \<Longrightarrow> length ys = b - a"
  by (auto simp: slice_def split: if_splits)

text \<open>Two bytes as a big-endian \<open>u16\<close>.\<close>

definition u16_be :: "u8 \<Rightarrow> u8 \<Rightarrow> u16" where
  "u16_be a b = word_be [a, b]"

lemma unat_u16_be: "unat (u16_be a b) = unat a * 256 + unat b"
proof -
  have "of_be [a, b] = unat a * 256 + unat b"
    by (simp add: of_be_def)
  moreover have "of_be [a, b] < 2 ^ 16"
    using of_be_less [of "[a, b]"] by simp
  ultimately show ?thesis by (simp only: u16_be_def word_be_def unat_of_nat) simp
qed

text \<open>\<open>u16::from_be_bytes([input[i], input[i + 1]])\<close>, which panics out of range.\<close>

definition read_u16 :: "bytes \<Rightarrow> nat \<Rightarrow> u16 option" where
  "read_u16 input i = do { a \<leftarrow> index input i; b \<leftarrow> index input (i + 1); Some (u16_be a b) }"

lemma read_u16_Some [simp]:
  "i + 2 \<le> length input \<Longrightarrow> read_u16 input i = Some (u16_be (input ! i) (input ! (i + 1)))"
  by (simp add: read_u16_def)

text \<open>\<open>Iterator::position\<close>.\<close>

fun position :: "('a \<Rightarrow> bool) \<Rightarrow> 'a list \<Rightarrow> nat option" where
  "position P [] = None"
| "position P (x # xs) = (if P x then Some 0 else map_option Suc (position P xs))"

lemma position_None: "position P xs = None \<longleftrightarrow> (\<forall>x \<in> set xs. \<not> P x)"
  by (induction xs) auto

lemma position_Some:
  "position P xs = Some i \<Longrightarrow> i < length xs \<and> P (xs ! i) \<and> filter P (take i xs) = []"
  by (induction xs arbitrary: i) (auto split: if_splits)

subsection \<open>Saturating and checked arithmetic\<close>

definition saturating_add :: "'a::len word \<Rightarrow> 'a word \<Rightarrow> 'a word" where
  "saturating_add a b = (if unat a + unat b < 2 ^ LENGTH('a) then a + b else - 1)"

definition saturating_sub :: "'a::len word \<Rightarrow> 'a word \<Rightarrow> 'a word" where
  "saturating_sub a b = (if b \<le> a then a - b else 0)"

definition abs_diff :: "'a::len word \<Rightarrow> 'a word \<Rightarrow> 'a word" where
  "abs_diff a b = (if b \<le> a then a - b else b - a)"

lemma unat_saturating_add:
  "unat (saturating_add a (b :: 'a::len word)) = min (unat a + unat b) (2 ^ LENGTH('a) - 1)"
  by (auto simp: saturating_add_def unat_add_lem [THEN iffD1] unsigned_minus_1_eq_mask
      mask_eq_exp_minus_1)

lemma unat_saturating_sub: "unat (saturating_sub a b) = unat a - unat b"
  by (auto simp: saturating_sub_def unat_sub word_le_nat_alt)

lemma unat_abs_diff:
  "unat (abs_diff a b) = (if unat b \<le> unat a then unat a - unat b else unat b - unat a)"
  by (auto simp: abs_diff_def unat_sub word_le_nat_alt)

subsection \<open>Strings\<close>

text \<open>The bytes of a string and back: \<open>str::as_bytes\<close>.\<close>

definition as_bytes :: "string \<Rightarrow> bytes" where
  "as_bytes s = map (\<lambda>c. word_of_nat (of_char c)) s"

lemma length_as_bytes [simp, be_simps]: "length (as_bytes s) = length s"
  by (simp add: as_bytes_def)

lemma as_bytes_inject [simp]: "as_bytes s = as_bytes t \<longleftrightarrow> s = t"
proof -
  have "inj (\<lambda>c. word_of_nat (of_char c) :: u8)"
  proof (rule injI)
    fix c d :: char
    assume "(word_of_nat (of_char c) :: u8) = word_of_nat (of_char d)"
    then have "unat (word_of_nat (of_char c) :: u8) = unat (word_of_nat (of_char d) :: u8)"
      by simp
    then have "(of_char c :: nat) mod 256 = of_char d mod 256" by simp
    then show "c = d" by (simp only: of_char_mod_256 of_char_eq_iff)
  qed
  then show ?thesis by (simp add: as_bytes_def inj_map_eq_map)
qed

text \<open>The decimal text of a number, as \<open>format!("{}")\<close> writes it.\<close>

fun decimal :: "nat \<Rightarrow> string" where
  "decimal n = (if n < 10 then [char_of (48 + n)] else decimal (n div 10) @ [char_of (48 + n mod 10)])"

declare decimal.simps [simp del]

subsection \<open>Prefix codes\<close>

text \<open>
  An encoder appends \<open>enc x\<close> to its output. The contract a reader of the concatenation
  needs: two encodings followed by anything are equal only if the values agree in
  everything the encoder writes (\<open>view\<close>) and the rests are equal. \<open>valid\<close> bounds what the
  length fields can count. Sequences of such encodings, bare or counted by a \<open>u32\<close>, have the
  same property; it is proved here once.
\<close>

definition len_be :: "nat \<Rightarrow> bytes" where
  "len_be n = to_be 4 (word_of_nat n :: u32)"

text \<open>A sequence preceded by its length, as the encoders write it.\<close>

definition counted :: "('a \<Rightarrow> bytes) \<Rightarrow> 'a list \<Rightarrow> bytes" where
  "counted enc xs = len_be (length xs) @ concat (map enc xs)"

definition counted_bytes :: "bytes \<Rightarrow> bytes" where
  "counted_bytes xs = len_be (length xs) @ xs"

lemma length_len_be [simp]: "length (len_be n) = 4"
  by (simp add: len_be_def)

lemma len_be_inject: "m < 2 ^ 32 \<Longrightarrow> n < 2 ^ 32 \<Longrightarrow> len_be m = len_be n \<longleftrightarrow> m = n"
  by (simp add: len_be_def to_be_inject word_unat_eq_iff unat_of_nat)

lemma to_be_cancel:
  "LENGTH('a::len) = 8 * n \<Longrightarrow> to_be n (v :: 'a word) @ r = to_be n w @ s \<longleftrightarrow> v = w \<and> r = s"
  by (simp add: to_be_inject)

lemma len_be_cancel:
  "m < 2 ^ 32 \<Longrightarrow> n < 2 ^ 32 \<Longrightarrow> len_be m @ r = len_be n @ s \<longleftrightarrow> m = n \<and> r = s"
  by (simp add: len_be_inject)

locale prefix_code =
  fixes valid :: "'a \<Rightarrow> bool"
    and enc :: "'a \<Rightarrow> bytes"
    and view :: "'a \<Rightarrow> 'v"
  assumes cancel: "valid x \<Longrightarrow> valid y \<Longrightarrow> enc x @ r = enc y @ s \<Longrightarrow> view x = view y \<and> r = s"
begin

lemma concat_cancel:
  "length xs = length ys \<Longrightarrow> list_all valid xs \<Longrightarrow> list_all valid ys \<Longrightarrow>
   concat (map enc xs) @ r = concat (map enc ys) @ s \<Longrightarrow> map view xs = map view ys \<and> r = s"
proof (induction xs ys rule: list_induct2)
  case Nil
  then show ?case by simp
next
  case (Cons x xs y ys)
  from Cons.prems have "enc x @ (concat (map enc xs) @ r) = enc y @ (concat (map enc ys) @ s)"
    by simp
  with Cons.prems have "view x = view y" and "concat (map enc xs) @ r = concat (map enc ys) @ s"
    using cancel by auto
  with Cons show ?case by simp
qed

lemma counted_cancel:
  assumes "length xs < 2 ^ 32" "length ys < 2 ^ 32" "list_all valid xs" "list_all valid ys"
    and eq: "len_be (length xs) @ concat (map enc xs) @ r =
      len_be (length ys) @ concat (map enc ys) @ s"
  shows "map view xs = map view ys \<and> r = s"
proof -
  from eq have "length xs = length ys" and "concat (map enc xs) @ r = concat (map enc ys) @ s"
    using len_be_cancel assms(1,2) by blast+
  then show ?thesis using concat_cancel assms(3,4) by blast
qed

end

text \<open>Prefix codes compose: fields one after the other, images, counted sequences.\<close>

lemma prefix_code_append:
  "prefix_code v e1 w1 \<Longrightarrow> prefix_code v e2 w2 \<Longrightarrow>
   prefix_code v (\<lambda>x. e1 x @ e2 x) (\<lambda>x. (w1 x, w2 x))"
  unfolding prefix_code_def by (simp only: append_assoc prod.inject) blast

lemma prefix_code_comp:
  "prefix_code v e w \<Longrightarrow> (\<And>x. u x \<Longrightarrow> v (f x)) \<Longrightarrow> prefix_code u (\<lambda>x. e (f x)) (\<lambda>x. w (f x))"
  unfolding prefix_code_def by blast

lemma prefix_code_view:
  "prefix_code v e w \<Longrightarrow> (\<And>x y. w x = w y \<Longrightarrow> u x = u y) \<Longrightarrow> prefix_code v e u"
  unfolding prefix_code_def by blast

lemma prefix_code_cong:
  "prefix_code v e w \<Longrightarrow> (\<And>x. v x \<Longrightarrow> e' x = e x) \<Longrightarrow> prefix_code v e' w"
  unfolding prefix_code_def by metis

lemma prefix_code_be:
  "LENGTH('a::len) = 8 * n \<Longrightarrow> prefix_code (\<lambda>_. True) (to_be n :: 'a word \<Rightarrow> bytes) (\<lambda>w. w)"
  by (simp add: prefix_code_def to_be_inject)

lemma prefix_code_counted:
  "prefix_code v e w \<Longrightarrow>
   prefix_code (\<lambda>xs. length xs < 2 ^ 32 \<and> list_all v xs) (counted e) (map w)"
  unfolding prefix_code_def [of "\<lambda>xs. length xs < 2 ^ 32 \<and> list_all v xs"] append_assoc counted_def
  using prefix_code.counted_cancel by blast

lemma prefix_code_counted_bytes:
  "prefix_code (\<lambda>xs. length xs < 2 ^ 32) counted_bytes (\<lambda>xs. xs)"
  by (auto simp: prefix_code_def counted_bytes_def len_be_inject)

end
