(* ===== verification/Vela_Proto.thy ===== *)
theory Vela_Proto
  imports Vela_Prelude
begin

section \<open>Wire format, node ids and addresses (vela-proto)\<close>

text \<open>
  The data-plane types of \<open>vela-proto/src/lib.rs\<close>: node ids and their textual form, socket
  addresses and candidates, packet types, the 26-byte header and the wire packet. The
  lemmas: the wire codec is a bijection between its packets and the byte strings it
  accepts, node ids survive printing and parsing, and how parsing a node id can fail.
\<close>

subsection \<open>Node ids and addresses\<close>

datatype node_id = NodeId (node_bytes: "256 word")

text \<open>\<open>#[derive(Ord)]\<close> on \<open>[u8; 32]\<close> is lexicographic, hence the order of the words.\<close>

instantiation node_id :: linorder
begin

definition less_eq_node_id :: "node_id \<Rightarrow> node_id \<Rightarrow> bool" where
  "less_eq_node_id a b \<longleftrightarrow> node_bytes a \<le> node_bytes b"

definition less_node_id :: "node_id \<Rightarrow> node_id \<Rightarrow> bool" where
  "less_node_id a b \<longleftrightarrow> node_bytes a < node_bytes b"

instance
  by standard (auto simp: less_eq_node_id_def less_node_id_def node_id.expand)

end

definition node_as_bytes :: "node_id \<Rightarrow> bytes" where
  "node_as_bytes n = to_be 32 (node_bytes n)"

datatype ip_addr = IpV4 u32 | IpV6 u128

text \<open>\<open>SocketAddrV6\<close> carries a flow label and a scope id beside address and port.\<close>

datatype socket_addr = SockV4 u32 u16 | SockV6 u128 u16 u32 u32

fun sock_new :: "ip_addr \<Rightarrow> u16 \<Rightarrow> socket_addr" where
  "sock_new (IpV4 a) p = SockV4 a p"
| "sock_new (IpV6 a) p = SockV6 a p 0 0"

fun sock_ip :: "socket_addr \<Rightarrow> ip_addr" where
  "sock_ip (SockV4 a p) = IpV4 a"
| "sock_ip (SockV6 a p f s) = IpV6 a"

fun sock_port :: "socket_addr \<Rightarrow> u16" where
  "sock_port (SockV4 a p) = p"
| "sock_port (SockV6 a p f s) = p"

fun is_ipv4 :: "socket_addr \<Rightarrow> bool" where
  "is_ipv4 (SockV4 a p) = True"
| "is_ipv4 (SockV6 a p f s) = False"

datatype candidate =
    Host socket_addr
  | ServerReflexive socket_addr
  | PeerReflexive socket_addr

fun candidate_address :: "candidate \<Rightarrow> socket_addr" where
  "candidate_address (Host a) = a"
| "candidate_address (ServerReflexive a) = a"
| "candidate_address (PeerReflexive a) = a"

datatype proto_error =
    Truncated
  | InvalidMagic
  | UnsupportedVersion u8
  | UnknownPacketType u8
  | PayloadTooLarge
  | LengthMismatch
  | TrailingBytes
  | InvalidNodeId
  | InvalidEncoding
  | InvalidSnapshot string
  | Hex string

subsection \<open>Hexadecimal text\<close>

definition hex_digit :: "nat \<Rightarrow> char" where
  "hex_digit n = char_of (if n < 10 then 48 + n else 87 + n)"

text \<open>\<open>format!("{byte:02x}")\<close> for every byte.\<close>

definition hex_encode :: "bytes \<Rightarrow> string" where
  "hex_encode value = concat (map (\<lambda>b. [hex_digit (unat b div 16), hex_digit (unat b mod 16)]) value)"

text \<open>\<open>char::to_digit(16)\<close> and \<open>u8::from_str_radix(_, 16)\<close> of the standard library, with its
  optional leading plus sign and its error texts.\<close>

definition to_digit16 :: "char \<Rightarrow> nat option" where
  "to_digit16 c = (let n = of_char c in
     if 48 \<le> n \<and> n \<le> 57 then Some (n - 48)
     else if 97 \<le> n \<and> n \<le> 102 then Some (n - 87)
     else if 65 \<le> n \<and> n \<le> 70 then Some (n - 55)
     else None)"

fun radix16_digits :: "nat \<Rightarrow> string \<Rightarrow> string + u8" where
  "radix16_digits acc [] = Inr (word_of_nat acc)"
| "radix16_digits acc (c # cs) =
    (case to_digit16 c of
       None \<Rightarrow> Inl ''invalid digit found in string''
     | Some d \<Rightarrow>
        if acc * 16 + d < 256 then radix16_digits (acc * 16 + d) cs
        else Inl ''number too large to fit in target type'')"

definition u8_from_str_radix16 :: "string \<Rightarrow> string + u8" where
  "u8_from_str_radix16 s =
    (case s of
       [] \<Rightarrow> Inl ''cannot parse integer from empty string''
     | c # cs \<Rightarrow>
        if (c = CHR ''+'' \<or> c = CHR ''-'') \<and> cs = [] then Inl ''invalid digit found in string''
        else if c = CHR ''+'' then radix16_digits 0 cs
        else radix16_digits 0 (c # cs))"

text \<open>
  \<open>hex_decode\<close> slices the string in steps of two bytes. Slicing a \<open>str\<close> inside a character
  panics; an index is inside a character exactly when it is neither an end of the string nor
  at the first byte of a character. The outer option is the panic, the sum the result.
\<close>

definition utf8_continuation :: "char \<Rightarrow> bool" where
  "utf8_continuation c \<longleftrightarrow> 128 \<le> (of_char c :: nat) \<and> (of_char c :: nat) < 192"

fun hex_pairs :: "string \<Rightarrow> (proto_error + bytes) option" where
  "hex_pairs [] = Some (Inr [])"
| "hex_pairs [c] = None"
| "hex_pairs (a # b # rest) =
    (if utf8_continuation a \<or> (rest \<noteq> [] \<and> utf8_continuation (hd rest)) then None
     else case u8_from_str_radix16 [a, b] of
       Inl e \<Rightarrow> Some (Inl (Hex e))
     | Inr v \<Rightarrow>
        (case hex_pairs rest of
           None \<Rightarrow> None
         | Some (Inl e) \<Rightarrow> Some (Inl e)
         | Some (Inr vs) \<Rightarrow> Some (Inr (v # vs))))"

definition hex_decode :: "string \<Rightarrow> (proto_error + bytes) option" where
  "hex_decode value =
    (if length value mod 2 \<noteq> 0 then Some (Inl InvalidNodeId) else hex_pairs value)"

definition node_id_display :: "node_id \<Rightarrow> string" where
  "node_id_display n = ''vela:'' @ hex_encode (node_as_bytes n)"

definition node_id_short :: "node_id \<Rightarrow> string" where
  "node_id_short n = ''vela:'' @ hex_encode (take 8 (node_as_bytes n))"

definition strip_prefix :: "string \<Rightarrow> string \<Rightarrow> string option" where
  "strip_prefix p s = (if take (length p) s = p then Some (drop (length p) s) else None)"

definition node_id_from_str :: "string \<Rightarrow> (proto_error + node_id) option" where
  "node_id_from_str text =
    (let value = (case strip_prefix ''vela:'' text of Some v \<Rightarrow> v | None \<Rightarrow> text)
     in case hex_decode value of
          None \<Rightarrow> None
        | Some (Inl e) \<Rightarrow> Some (Inl e)
        | Some (Inr bs) \<Rightarrow>
            if length bs \<noteq> 32 then Some (Inl InvalidNodeId)
            else Some (Inr (NodeId (word_be bs))))"

subsection \<open>Packet types, header and wire packet\<close>

definition MAGIC :: bytes where
  "MAGIC = [86, 69, 76, 65]"

definition PROTOCOL_VERSION :: u8 where
  "PROTOCOL_VERSION = 2"

definition HEADER_LEN :: nat where
  "HEADER_LEN = 26"

datatype packet_type =
    Probe
  | ProbeResponse
  | Handshake
  | Data
  | KeepAlive
  | DiagnosticPing
  | DiagnosticPong
  | KeepAliveAck
  | MtuProbe
  | MtuProbeAck

fun packet_type_code :: "packet_type \<Rightarrow> u8" where
  "packet_type_code Probe = 1"
| "packet_type_code ProbeResponse = 2"
| "packet_type_code Handshake = 3"
| "packet_type_code Data = 4"
| "packet_type_code KeepAlive = 5"
| "packet_type_code DiagnosticPing = 6"
| "packet_type_code DiagnosticPong = 7"
| "packet_type_code KeepAliveAck = 8"
| "packet_type_code MtuProbe = 9"
| "packet_type_code MtuProbeAck = 10"

definition packet_type_try_from :: "u8 \<Rightarrow> proto_error + packet_type" where
  "packet_type_try_from value =
    (if value = 1 then Inr Probe
     else if value = 2 then Inr ProbeResponse
     else if value = 3 then Inr Handshake
     else if value = 4 then Inr Data
     else if value = 5 then Inr KeepAlive
     else if value = 6 then Inr DiagnosticPing
     else if value = 7 then Inr DiagnosticPong
     else if value = 8 then Inr KeepAliveAck
     else if value = 9 then Inr MtuProbe
     else if value = 10 then Inr MtuProbeAck
     else Inl (UnknownPacketType value))"

record header =
  hdr_version :: u8
  hdr_packet_type :: packet_type
  hdr_flags :: u16
  hdr_session_id :: u64
  hdr_sequence :: u64
  hdr_payload_len :: u16

definition header_new :: "packet_type \<Rightarrow> u64 \<Rightarrow> u64 \<Rightarrow> nat \<Rightarrow> proto_error + header" where
  "header_new packet_type session_id sequence payload_len =
    (if payload_len < 2 ^ 16 then
       Inr \<lparr>hdr_version = PROTOCOL_VERSION, hdr_packet_type = packet_type, hdr_flags = 0,
            hdr_session_id = session_id, hdr_sequence = sequence,
            hdr_payload_len = word_of_nat payload_len\<rparr>
     else Inl PayloadTooLarge)"

definition header_encode :: "header \<Rightarrow> bytes \<Rightarrow> bytes" where
  "header_encode h out =
    out @ MAGIC @ [hdr_version h] @ [packet_type_code (hdr_packet_type h)]
        @ to_be 2 (hdr_flags h) @ to_be 8 (hdr_session_id h)
        @ to_be 8 (hdr_sequence h) @ to_be 2 (hdr_payload_len h)"

definition header_decode :: "bytes \<Rightarrow> proto_error + header" where
  "header_decode input =
    (if length input < HEADER_LEN then Inl Truncated
     else if take 4 input \<noteq> MAGIC then Inl InvalidMagic
     else let version = input ! 4 in
       if version \<noteq> PROTOCOL_VERSION then Inl (UnsupportedVersion version)
       else case packet_type_try_from (input ! 5) of
         Inl e \<Rightarrow> Inl e
       | Inr packet_type \<Rightarrow>
           Inr \<lparr>hdr_version = version, hdr_packet_type = packet_type,
                hdr_flags = u16_be (input ! 6) (input ! 7),
                hdr_session_id = word_be (take 8 (drop 8 input)),
                hdr_sequence = word_be (take 8 (drop 16 input)),
                hdr_payload_len = u16_be (input ! 24) (input ! 25)\<rparr>)"

record wire_packet =
  wp_header :: header
  wp_payload :: bytes

definition wire_packet_encode :: "wire_packet \<Rightarrow> proto_error + bytes" where
  "wire_packet_encode p =
    (if length (wp_payload p) \<noteq> unat (hdr_payload_len (wp_header p)) then Inl LengthMismatch
     else Inr (header_encode (wp_header p) [] @ wp_payload p))"

definition wire_packet_decode :: "bytes \<Rightarrow> proto_error + wire_packet" where
  "wire_packet_decode input =
    (case header_decode input of
       Inl e \<Rightarrow> Inl e
     | Inr header \<Rightarrow>
        let e = HEADER_LEN + unat (hdr_payload_len header) in
        if length input < e then Inl Truncated
        else if length input \<noteq> e then Inl TrailingBytes
        else Inr \<lparr>wp_header = header, wp_payload = take (e - HEADER_LEN) (drop HEADER_LEN input)\<rparr>)"

text \<open>\<open>decode_bytes\<close> keeps a slice of the shared buffer instead of copying it.\<close>

definition wire_packet_decode_bytes :: "bytes \<Rightarrow> proto_error + wire_packet" where
  "wire_packet_decode_bytes input =
    (case header_decode input of
       Inl e \<Rightarrow> Inl e
     | Inr header \<Rightarrow>
        let e = HEADER_LEN + unat (hdr_payload_len header) in
        if length input < e then Inl Truncated
        else if length input \<noteq> e then Inl TrailingBytes
        else Inr \<lparr>wp_header = header, wp_payload = drop HEADER_LEN (take e input)\<rparr>)"

lemmas wire_defs = wire_packet_encode_def wire_packet_decode_def wire_packet_decode_bytes_def
  HEADER_LEN_def MAGIC_def PROTOCOL_VERSION_def

subsection \<open>The codec is a bijection\<close>

lemma packet_type_try_from_code [simp]: "packet_type_try_from (packet_type_code t) = Inr t"
  by (cases t) (simp_all add: packet_type_try_from_def)

lemma packet_type_code_try_from:
  "packet_type_try_from v = Inr t \<Longrightarrow> packet_type_code t = v"
  by (auto simp: packet_type_try_from_def split: if_splits)

lemma length_header_encode [simp]: "length (header_encode h []) = 26"
  by (simp add: header_encode_def MAGIC_def)

lemma to_be_2_u16_be [simp]: "to_be 2 (u16_be a b) = [a, b]"
  by (simp add: u16_be_def)

lemma u16_be_nths: "u16_be (to_be 2 w ! 0) (to_be 2 w ! Suc 0) = w"
proof -
  have "[to_be 2 w ! 0, to_be 2 w ! Suc 0] = to_be 2 w"
    by (rule nth_equalityI) (auto simp: less_Suc_eq nth_Cons')
  then show ?thesis by (simp add: u16_be_def)
qed

lemma header_decode_encode:
  assumes "hdr_version h = PROTOCOL_VERSION"
  shows "header_decode (header_encode h [] @ rest) = Inr h"
proof -
  have len: "length (header_encode h [] @ rest) = 26 + length rest" by simp
  show ?thesis
    unfolding header_decode_def len HEADER_LEN_def using assms
    by (simp add: header_encode_def MAGIC_def nth_append nth_Cons' Let_def u16_be_nths)
qed

lemma take_split: "take (m + n) xs = take m xs @ take n (drop m xs)"
  by (rule take_add)

lemma nth_pair: "Suc n < length xs \<Longrightarrow> take 2 (drop n xs) = [xs ! n, xs ! Suc n]"
  by (simp add: list_eq_iff_nth_eq less_Suc_eq numeral_2_eq_2 nth_Cons')

lemma header_encode_decode:
  assumes "header_decode input = Inr h"
  shows "hdr_version h = PROTOCOL_VERSION" "26 \<le> length input"
    "header_encode h [] = take 26 input"
proof -
  from assms have len: "26 \<le> length input" and magic: "take 4 input = MAGIC"
    and ver: "input ! 4 = PROTOCOL_VERSION"
    and h: "packet_type_code (hdr_packet_type h) = input ! 5" "hdr_version h = input ! 4"
      "hdr_flags h = u16_be (input ! 6) (input ! 7)"
      "hdr_session_id h = word_be (take 8 (drop 8 input))"
      "hdr_sequence h = word_be (take 8 (drop 16 input))"
      "hdr_payload_len h = u16_be (input ! 24) (input ! 25)"
    by (auto simp: header_decode_def HEADER_LEN_def Let_def packet_type_code_try_from
        split: if_splits sum.splits)
  show "hdr_version h = PROTOCOL_VERSION" "26 \<le> length input"
    using h ver len by simp_all
  have "take 26 input = take 4 input @ take 2 (drop 4 input) @ take 2 (drop 6 input)
      @ take 8 (drop 8 input) @ take 8 (drop 16 input) @ take 2 (drop 24 input)"
    using take_split [of 4 22 input] take_split [of 2 20 "drop 4 input"]
      take_split [of 2 18 "drop 6 input"] take_split [of 8 10 "drop 8 input"]
      take_split [of 8 2 "drop 16 input"] by simp
  then show "header_encode h [] = take 26 input"
    using len h by (simp add: header_encode_def magic nth_pair)
qed

lemma wire_decode_bytes_eq: "wire_packet_decode_bytes input = wire_packet_decode input"
  by (simp add: wire_defs take_drop Let_def split: sum.split)

lemma wire_decode_iff:
  "wire_packet_decode bs = Inr p \<longleftrightarrow>
   wire_packet_encode p = Inr bs \<and> hdr_version (wp_header p) = PROTOCOL_VERSION"
  (is "?D \<longleftrightarrow> ?E")
proof
  assume ?D
  then obtain h where h: "header_decode bs = Inr h"
    and p: "p = \<lparr>wp_header = h, wp_payload = drop 26 bs\<rparr>"
      "length bs = 26 + unat (hdr_payload_len h)"
    by (auto simp: wire_packet_decode_def HEADER_LEN_def Let_def split: sum.splits if_splits)
  show ?E using header_encode_decode [OF h] p by (simp add: wire_packet_encode_def)
next
  assume ?E
  then have "bs = header_encode (wp_header p) [] @ wp_payload p"
    and "length (wp_payload p) = unat (hdr_payload_len (wp_header p))"
    and "header_decode bs = Inr (wp_header p)"
    by (auto simp: wire_packet_encode_def header_decode_encode split: if_splits)
  then show ?D by (simp add: wire_packet_decode_def HEADER_LEN_def)
qed

subsection \<open>Node id text\<close>

lemma hex_digit_facts:
  assumes "n < 16"
  shows "to_digit16 (hex_digit n) = Some n" "\<not> utf8_continuation (hex_digit n)"
    "hex_digit n \<noteq> CHR ''+''" "hex_digit n \<noteq> CHR ''-''" "hex_digit n \<noteq> CHR ''v''"
proof -
  have "of_char (hex_digit n) = (if n < 10 then 48 + n else 87 + n)"
    using assms by (simp add: hex_digit_def)
  then show "to_digit16 (hex_digit n) = Some n" "\<not> utf8_continuation (hex_digit n)"
    "hex_digit n \<noteq> CHR ''+''" "hex_digit n \<noteq> CHR ''-''" "hex_digit n \<noteq> CHR ''v''"
    using assms by (auto simp: to_digit16_def utf8_continuation_def split: if_splits)
qed

lemma u8_hex_pair: "u8_from_str_radix16 [hex_digit (unat b div 16), hex_digit (unat b mod 16)] = Inr b"
proof -
  have "unat b div 16 < 16" using unat_byte_less [of b] by (simp add: less_mult_imp_div_less)
  then show ?thesis
    by (simp add: u8_from_str_radix16_def hex_digit_facts)
qed

lemma hex_pairs_encode: "hex_pairs (hex_encode bs) = Some (Inr bs)"
proof (induction bs)
  case Nil
  then show ?case by (simp add: hex_encode_def)
next
  case (Cons b bs)
  have "unat b div 16 < 16" using unat_byte_less [of b] by (simp add: less_mult_imp_div_less)
  moreover have "\<not> (hex_encode bs \<noteq> [] \<and> utf8_continuation (hd (hex_encode bs)))"
  proof (cases bs)
    case (Cons c cs)
    have "unat c div 16 < 16" using unat_byte_less [of c] by (simp add: less_mult_imp_div_less)
    then show ?thesis using Cons by (simp add: hex_encode_def hex_digit_facts)
  qed (simp add: hex_encode_def)
  ultimately show ?case using Cons.IH
    by (simp add: hex_encode_def u8_hex_pair hex_digit_facts)
qed

lemma length_hex_encode [simp]: "length (hex_encode bs) = 2 * length bs"
  by (induction bs) (simp_all add: hex_encode_def)

lemma hex_decode_encode: "hex_decode (hex_encode bs) = Some (Inr bs)"
  by (simp add: hex_decode_def hex_pairs_encode)

lemma hex_pairs_ascii:
  "even (length s) \<Longrightarrow> \<forall>c \<in> set s. \<not> utf8_continuation c \<Longrightarrow> hex_pairs s \<noteq> None"
proof (induction s rule: hex_pairs.induct)
  case (3 a b rest)
  then have "\<not> (rest \<noteq> [] \<and> utf8_continuation (hd rest))"
    by (metis hd_in_set list.set_intros(2))
  with 3 show ?case by (auto split: sum.split option.split)
qed simp_all

lemma hex_no_scheme: "strip_prefix ''vela:'' (hex_encode bs) = None"
proof (cases bs)
  case (Cons b cs)
  have "unat b div 16 < 16" using unat_byte_less [of b] by (simp add: less_mult_imp_div_less)
  then show ?thesis using Cons hex_digit_facts(5) by (simp add: strip_prefix_def hex_encode_def)
qed (simp add: strip_prefix_def hex_encode_def)

lemma hex_decode_total: "\<forall>c \<in> set s. \<not> utf8_continuation c \<Longrightarrow> hex_decode s \<noteq> None"
  using hex_pairs_ascii by (auto simp: hex_decode_def even_iff_mod_2_eq_zero)

lemma node_id_from_str_total:
  assumes "\<forall>c \<in> set s. \<not> utf8_continuation c"
  shows "node_id_from_str s \<noteq> None"
proof -
  let ?v = "case strip_prefix ''vela:'' s of Some v \<Rightarrow> v | None \<Rightarrow> s"
  have "set ?v \<subseteq> set s"
    by (auto simp: strip_prefix_def dest: in_set_dropD)
  with assms have "hex_decode ?v \<noteq> None" by (blast intro!: hex_decode_total)
  then show ?thesis
    by (auto simp: node_id_from_str_def Let_def split: option.split sum.split)
qed

subsection \<open>Properties\<close>

text \<open>C11: the wire codec is exact. A byte string decodes to a packet precisely when it is the
  encoding of that packet and the packet has the supported version: decoding inverts
  encoding, there is one encoding per packet, and nothing else (short input, trailing bytes,
  wrong magic, unknown type) is accepted. The zero-copy decoder is the same function.\<close>

theorem wire_codec_exact:
  "(wire_packet_decode bs = Inr p \<longleftrightarrow>
     wire_packet_encode p = Inr bs \<and> hdr_version (wp_header p) = PROTOCOL_VERSION)
   \<and> wire_packet_decode_bytes bs = wire_packet_decode bs"
  using wire_decode_iff wire_decode_bytes_eq by blast

text \<open>C38: a node id parses back from its printed form, with and without the scheme prefix,
  and parsing never panics on text without a UTF-8 continuation byte (in particular on
  ASCII).\<close>

theorem node_id_text_round_trip:
  "node_id_from_str (node_id_display n) = Some (Inr n)
   \<and> node_id_from_str (drop 5 (node_id_display n)) = Some (Inr n)
   \<and> ((\<forall>c \<in> set s. \<not> utf8_continuation c) \<longrightarrow> node_id_from_str s \<noteq> None)"
  using node_id_from_str_total [of s]
  by (simp add: node_id_from_str_def node_id_display_def strip_prefix_def [of _ "_ # _"]
      hex_decode_encode hex_no_scheme node_as_bytes_def)

theorem node_id_text_round_trip_witness:
  "node_id_from_str ''vela:00zz'' \<noteq> None
   \<and> node_id_from_str (node_id_display (NodeId 7)) = Some (Inr (NodeId 7))"
  using node_id_text_round_trip [of "NodeId 7" "''vela:00zz''"]
  by (simp add: utf8_continuation_def)


end
