(* ===== verification/Vela_Snapshot.thy ===== *)
theory Vela_Snapshot
  imports Vela_Proto
begin

section \<open>Peers, network snapshots and control messages (vela-proto)\<close>

text \<open>
  The control-plane types of \<open>vela-proto/src/lib.rs\<close>: the serde representations, peers,
  the signed network snapshot with its validation and its signing bytes, and the messages
  between a node and the coordinator. The lemmas: validation is equivalent to a declarative
  specification, prefix membership is what its name says, the serde representations round
  trip, and which snapshots the signing bytes distinguish.

  Base64 and BLAKE3 are third-party code and parameters: \<open>b64_encode\<close>, \<open>b64_decode\<close> (with
  the error text) and \<open>blake3\<close>.
\<close>

subsection \<open>Serde representations\<close>

type_synonym b64_enc = "bytes \<Rightarrow> string"
type_synonym b64_dec = "string \<Rightarrow> string + bytes"
type_synonym hash_fn = "bytes \<Rightarrow> 256 word"

definition node_id_serialize :: "b64_enc \<Rightarrow> node_id \<Rightarrow> string" where
  "node_id_serialize b64_encode n = b64_encode (node_as_bytes n)"

definition node_id_deserialize :: "b64_dec \<Rightarrow> string \<Rightarrow> string + node_id" where
  "node_id_deserialize b64_decode value =
    (case b64_decode value of
       Inl e \<Rightarrow> Inl e
     | Inr bytes \<Rightarrow>
        if length bytes = 32 then Inr (NodeId (word_be bytes)) else Inl ''NodeId must be 32 bytes'')"

datatype representation = Base64 string | Legacy bytes

fun decode_base64_or_legacy :: "b64_dec \<Rightarrow> representation \<Rightarrow> string + bytes" where
  "decode_base64_or_legacy b64_decode (Base64 value) = b64_decode value"
| "decode_base64_or_legacy b64_decode (Legacy value) = Inr value"

definition base64_16_serialize :: "b64_enc \<Rightarrow> 128 word \<Rightarrow> representation" where
  "base64_16_serialize b64_encode value = Base64 (b64_encode (to_be 16 value))"

definition base64_16_deserialize :: "b64_dec \<Rightarrow> representation \<Rightarrow> string + 128 word" where
  "base64_16_deserialize b64_decode r =
    (case decode_base64_or_legacy b64_decode r of
       Inl e \<Rightarrow> Inl e
     | Inr value \<Rightarrow>
        if length value = 16 then Inr (word_be value)
        else Inl (''expected 16 bytes, got '' @ decimal (length value)))"

definition base64_32_serialize :: "b64_enc \<Rightarrow> 256 word \<Rightarrow> representation" where
  "base64_32_serialize b64_encode value = Base64 (b64_encode (to_be 32 value))"

definition base64_32_deserialize :: "b64_dec \<Rightarrow> representation \<Rightarrow> string + 256 word" where
  "base64_32_deserialize b64_decode r =
    (case decode_base64_or_legacy b64_decode r of
       Inl e \<Rightarrow> Inl e
     | Inr value \<Rightarrow>
        if length value = 32 then Inr (word_be value)
        else Inl (''expected 32 bytes, got '' @ decimal (length value)))"

definition base64_bytes_serialize :: "b64_enc \<Rightarrow> bytes \<Rightarrow> representation" where
  "base64_bytes_serialize b64_encode value = Base64 (b64_encode value)"

definition base64_bytes_deserialize :: "b64_dec \<Rightarrow> representation \<Rightarrow> string + bytes" where
  "base64_bytes_deserialize b64_decode r = decode_base64_or_legacy b64_decode r"

subsection \<open>Peers and snapshots\<close>

datatype peer_capability = CapDiagnosticPing

fun peer_capability_code :: "peer_capability \<Rightarrow> u8" where
  "peer_capability_code CapDiagnosticPing = 0"

record public_peer_info =
  pp_node_id :: node_id
  pp_incarnation :: u64
  pp_signing_public :: string
  pp_noise_public :: string
  pp_candidates :: "candidate list"
  pp_virtual_ipv4 :: "u32 option"
  pp_virtual_ipv6 :: "u128 option"
  pp_credential :: string
  pp_capabilities :: "peer_capability list"

record peer_summary =
  ps_node_id :: node_id
  ps_name :: string
  ps_online :: bool
  ps_last_seen :: "u64 option"
  ps_virtual_ipv4 :: "u32 option"
  ps_virtual_ipv6 :: "u128 option"
  ps_capabilities :: "peer_capability list"

record peer_info =
  pi_node_id :: node_id
  pi_incarnation :: u64
  pi_signing_public :: "256 word"
  pi_noise_public :: "256 word"
  pi_candidates :: "candidate list"
  pi_virtual_ipv4 :: "u32 option"
  pi_virtual_ipv6 :: "u128 option"
  pi_credential :: bytes
  pi_capabilities :: "peer_capability list"

definition peer_info_try_from :: "b64_dec \<Rightarrow> public_peer_info \<Rightarrow> proto_error + peer_info" where
  "peer_info_try_from b64_decode value =
    (case b64_decode (pp_signing_public value) of
       Inl _ \<Rightarrow> Inl InvalidEncoding
     | Inr signing_public \<Rightarrow>
    (case b64_decode (pp_noise_public value) of
       Inl _ \<Rightarrow> Inl InvalidEncoding
     | Inr noise_public \<Rightarrow>
    (case b64_decode (pp_credential value) of
       Inl _ \<Rightarrow> Inl InvalidEncoding
     | Inr credential \<Rightarrow>
        if length signing_public \<noteq> 32 then Inl InvalidEncoding
        else if length noise_public \<noteq> 32 then Inl InvalidEncoding
        else Inr \<lparr>pi_node_id = pp_node_id value, pi_incarnation = pp_incarnation value,
              pi_signing_public = word_be signing_public,
              pi_noise_public = word_be noise_public,
              pi_candidates = pp_candidates value,
              pi_virtual_ipv4 = pp_virtual_ipv4 value,
              pi_virtual_ipv6 = pp_virtual_ipv6 value,
              pi_credential = credential,
              pi_capabilities = pp_capabilities value\<rparr>)))"

record ipv4_cidr =
  c4_address :: u32
  c4_prefix_len :: u8

record ipv6_cidr =
  c6_address :: u128
  c6_prefix_len :: u8

record network_snapshot =
  sn_network_id :: "128 word"
  sn_generation :: u64
  sn_virtual_ipv4 :: "ipv4_cidr option"
  sn_virtual_ipv6 :: "ipv6_cidr option"
  sn_doh_servers :: "string list"
  sn_stun_servers :: "string list"
  sn_peers :: "peer_info list"
  sn_online_peers :: "node_id list"
  sn_expires_at :: u64
  sn_signature :: bytes

text \<open>The shift amount is a \<open>u8\<close> difference; a shift of a \<open>u32\<close> uses its low five bits. Every
  caller has checked \<open>prefix_len \<le> 32\<close>, for which neither reduction happens.\<close>

definition ipv4_in_network :: "u32 \<Rightarrow> u32 \<Rightarrow> u8 \<Rightarrow> bool" where
  "ipv4_in_network network address prefix_len =
    (let mask = (if prefix_len = 0 then 0 else push_bit (unat (32 - prefix_len) mod 32) (- 1))
     in network AND mask = address AND mask \<and> network AND mask = network)"

definition ipv6_in_network :: "u128 \<Rightarrow> u128 \<Rightarrow> u8 \<Rightarrow> bool" where
  "ipv6_in_network network address prefix_len =
    (let mask = (if prefix_len = 0 then 0 else push_bit (unat (128 - prefix_len) mod 128) (- 1))
     in network AND mask = address AND mask \<and> network AND mask = network)"

text \<open>The loop over the peers, with its three hash sets, and the loop over the online ids.\<close>

fun validate_peers ::
  "hash_fn \<Rightarrow> ipv4_cidr option \<Rightarrow> ipv6_cidr option \<Rightarrow> node_id set \<Rightarrow> u32 set \<Rightarrow> u128 set \<Rightarrow>
   peer_info list \<Rightarrow> proto_error + unit" where
  "validate_peers blake3 n4 n6 node_ids ipv4 ipv6 [] = Inr ()"
| "validate_peers blake3 n4 n6 node_ids ipv4 ipv6 (peer # peers) =
    (if pi_node_id peer \<in> node_ids
        \<or> pi_node_id peer \<noteq> NodeId (blake3 (to_be 32 (pi_signing_public peer)))
     then Inl (InvalidSnapshot ''invalid or duplicate peer identity'')
     else if (case pi_virtual_ipv4 peer of
         None \<Rightarrow> False
       | Some address \<Rightarrow> address \<in> ipv4 \<or>
           \<not> (case n4 of None \<Rightarrow> False
              | Some cidr \<Rightarrow> ipv4_in_network (c4_address cidr) address (c4_prefix_len cidr)))
     then Inl (InvalidSnapshot ''invalid or duplicate virtual IPv4'')
     else if (case pi_virtual_ipv6 peer of
         None \<Rightarrow> False
       | Some address \<Rightarrow> address \<in> ipv6 \<or>
           \<not> (case n6 of None \<Rightarrow> False
              | Some cidr \<Rightarrow> ipv6_in_network (c6_address cidr) address (c6_prefix_len cidr)))
     then Inl (InvalidSnapshot ''invalid or duplicate virtual IPv6'')
     else validate_peers blake3 n4 n6 (insert (pi_node_id peer) node_ids)
       (set_option (pi_virtual_ipv4 peer) \<union> ipv4) (set_option (pi_virtual_ipv6 peer) \<union> ipv6) peers)"

fun validate_online :: "node_id set \<Rightarrow> node_id set \<Rightarrow> node_id list \<Rightarrow> proto_error + unit" where
  "validate_online peer_ids online_ids [] = Inr ()"
| "validate_online peer_ids online_ids (node_id # rest) =
    (if node_id \<notin> peer_ids \<or> node_id \<in> online_ids
     then Inl (InvalidSnapshot ''invalid or duplicate online peer'')
     else validate_online peer_ids (insert node_id online_ids) rest)"

definition validate_cidr4 :: "ipv4_cidr option \<Rightarrow> proto_error + unit" where
  "validate_cidr4 n4 =
    (case n4 of
       None \<Rightarrow> Inr ()
     | Some cidr \<Rightarrow>
        if c4_prefix_len cidr > 32 then Inl (InvalidSnapshot ''invalid IPv4 prefix length'')
        else if \<not> ipv4_in_network (c4_address cidr) (c4_address cidr) (c4_prefix_len cidr)
        then Inl (InvalidSnapshot ''IPv4 network address is not canonical'')
        else Inr ())"

definition validate_cidr6 :: "ipv6_cidr option \<Rightarrow> proto_error + unit" where
  "validate_cidr6 n6 =
    (case n6 of
       None \<Rightarrow> Inr ()
     | Some cidr \<Rightarrow>
        if c6_prefix_len cidr > 128 then Inl (InvalidSnapshot ''invalid IPv6 prefix length'')
        else if \<not> ipv6_in_network (c6_address cidr) (c6_address cidr) (c6_prefix_len cidr)
        then Inl (InvalidSnapshot ''IPv6 network address is not canonical'')
        else Inr ())"

definition snapshot_validate :: "hash_fn \<Rightarrow> network_snapshot \<Rightarrow> proto_error + unit" where
  "snapshot_validate blake3 s =
    (if sn_generation s = 0 then Inl (InvalidSnapshot ''generation must be non-zero'')
     else case validate_cidr4 (sn_virtual_ipv4 s) of
       Inl e \<Rightarrow> Inl e
     | Inr _ \<Rightarrow>
    (case validate_cidr6 (sn_virtual_ipv6 s) of
       Inl e \<Rightarrow> Inl e
     | Inr _ \<Rightarrow>
    (case validate_peers blake3 (sn_virtual_ipv4 s) (sn_virtual_ipv6 s) {} {} {} (sn_peers s) of
       Inl e \<Rightarrow> Inl e
     | Inr _ \<Rightarrow> validate_online (set (map pi_node_id (sn_peers s))) {} (sn_online_peers s))))"

subsection \<open>Signing bytes\<close>

definition encode_ipv4_cidr :: "ipv4_cidr option \<Rightarrow> bytes" where
  "encode_ipv4_cidr cidr =
    (case cidr of Some c \<Rightarrow> [1] @ to_be 4 (c4_address c) @ [c4_prefix_len c] | None \<Rightarrow> [0])"

definition encode_ipv6_cidr :: "ipv6_cidr option \<Rightarrow> bytes" where
  "encode_ipv6_cidr cidr =
    (case cidr of Some c \<Rightarrow> [1] @ to_be 16 (c6_address c) @ [c6_prefix_len c] | None \<Rightarrow> [0])"

definition encode_string :: "string \<Rightarrow> bytes" where
  "encode_string value = counted_bytes (as_bytes value)"

definition encode_socket_address :: "socket_addr \<Rightarrow> bytes" where
  "encode_socket_address address =
    (case sock_ip address of
       IpV4 ip \<Rightarrow> [4] @ to_be 4 ip
     | IpV6 ip \<Rightarrow> [6] @ to_be 16 ip) @ to_be 2 (sock_port address)"

fun encode_candidate :: "candidate \<Rightarrow> bytes" where
  "encode_candidate (Host address) = [0] @ encode_socket_address address"
| "encode_candidate (ServerReflexive address) = [1] @ encode_socket_address address"
| "encode_candidate (PeerReflexive address) = [2] @ encode_socket_address address"

definition encode_optional_v4 :: "u32 option \<Rightarrow> bytes" where
  "encode_optional_v4 v = (case v of Some address \<Rightarrow> [1] @ to_be 4 address | None \<Rightarrow> [0])"

definition encode_optional_v6 :: "u128 option \<Rightarrow> bytes" where
  "encode_optional_v6 v = (case v of Some address \<Rightarrow> [1] @ to_be 16 address | None \<Rightarrow> [0])"

definition encode_peer :: "peer_info \<Rightarrow> bytes" where
  "encode_peer peer =
    node_as_bytes (pi_node_id peer)
    @ to_be 8 (pi_incarnation peer)
    @ to_be 32 (pi_signing_public peer)
    @ to_be 32 (pi_noise_public peer)
    @ encode_optional_v4 (pi_virtual_ipv4 peer)
    @ encode_optional_v6 (pi_virtual_ipv6 peer)
    @ counted encode_candidate (pi_candidates peer)
    @ counted_bytes (pi_credential peer)
    @ counted (\<lambda>c. [peer_capability_code c]) (pi_capabilities peer)"

text \<open>A server list is written only when it is not empty, without a tag.\<close>

definition encode_servers :: "string list \<Rightarrow> bytes" where
  "encode_servers servers =
    (if servers \<noteq> [] then counted encode_string servers else [])"

definition unsigned_bytes :: "network_snapshot \<Rightarrow> bytes" where
  "unsigned_bytes s =
    as_bytes ''VELA-NETWORK-SNAPSHOT-v4''
    @ to_be 16 (sn_network_id s)
    @ to_be 8 (sn_generation s)
    @ encode_ipv4_cidr (sn_virtual_ipv4 s)
    @ encode_ipv6_cidr (sn_virtual_ipv6 s)
    @ encode_servers (sn_doh_servers s)
    @ encode_servers (sn_stun_servers s)
    @ counted encode_peer (sort_key pi_node_id (sn_peers s))
    @ counted node_as_bytes (sort (sn_online_peers s))
    @ to_be 8 (sn_expires_at s)"

subsection \<open>Control messages\<close>

datatype control_message =
    Register node_id u64 string string string "string option" "candidate list" "peer_capability list"
  | RegisterOk string "public_peer_info list" network_snapshot
  | UpdateCandidates "candidate list"
  | RuntimeStatus u16
  | RequestSnapshot
  | LookupPeer node_id
  | PeerInfo public_peer_info
  | ListPeers
  | ListPeersOk "peer_summary list"
  | ConnectSignal public_peer_info node_id
  | Revoke node_id
  | Snapshot network_snapshot
  | SnapshotResponse network_snapshot
  | ControlError string string
  | Ping u64
  | Pong u64

subsection \<open>Specification of a valid snapshot\<close>

text \<open>The addresses the peers of a snapshot claim, in order.\<close>

definition addresses4 :: "peer_info list \<Rightarrow> u32 list" where
  "addresses4 peers = List.map_filter pi_virtual_ipv4 peers"

definition addresses6 :: "peer_info list \<Rightarrow> u128 list" where
  "addresses6 peers = List.map_filter pi_virtual_ipv6 peers"

definition in_cidr4 :: "ipv4_cidr option \<Rightarrow> u32 \<Rightarrow> bool" where
  "in_cidr4 n4 a = (case n4 of None \<Rightarrow> False | Some c \<Rightarrow> ipv4_in_network (c4_address c) a (c4_prefix_len c))"

definition in_cidr6 :: "ipv6_cidr option \<Rightarrow> u128 \<Rightarrow> bool" where
  "in_cidr6 n6 a = (case n6 of None \<Rightarrow> False | Some c \<Rightarrow> ipv6_in_network (c6_address c) a (c6_prefix_len c))"

text \<open>A network is canonical when its host part is zero; it contains the addresses that agree
  with it in the first \<open>prefix_len\<close> bits.\<close>

definition cidr4_canonical :: "ipv4_cidr \<Rightarrow> bool" where
  "cidr4_canonical c \<longleftrightarrow> unat (c4_prefix_len c) \<le> 32
     \<and> 2 ^ (32 - unat (c4_prefix_len c)) dvd unat (c4_address c)"

definition cidr4_contains :: "ipv4_cidr \<Rightarrow> u32 \<Rightarrow> bool" where
  "cidr4_contains c a \<longleftrightarrow>
     unat a div 2 ^ (32 - unat (c4_prefix_len c)) = unat (c4_address c) div 2 ^ (32 - unat (c4_prefix_len c))"

definition cidr6_canonical :: "ipv6_cidr \<Rightarrow> bool" where
  "cidr6_canonical c \<longleftrightarrow> unat (c6_prefix_len c) \<le> 128
     \<and> 2 ^ (128 - unat (c6_prefix_len c)) dvd unat (c6_address c)"

definition cidr6_contains :: "ipv6_cidr \<Rightarrow> u128 \<Rightarrow> bool" where
  "cidr6_contains c a \<longleftrightarrow>
     unat a div 2 ^ (128 - unat (c6_prefix_len c)) = unat (c6_address c) div 2 ^ (128 - unat (c6_prefix_len c))"

definition snapshot_ok :: "hash_fn \<Rightarrow> network_snapshot \<Rightarrow> bool" where
  "snapshot_ok blake3 s \<longleftrightarrow>
     sn_generation s \<noteq> 0
   \<and> pred_option cidr4_canonical (sn_virtual_ipv4 s)
   \<and> pred_option cidr6_canonical (sn_virtual_ipv6 s)
   \<and> distinct (map pi_node_id (sn_peers s))
   \<and> (\<forall>p \<in> set (sn_peers s). pi_node_id p = NodeId (blake3 (to_be 32 (pi_signing_public p))))
   \<and> distinct (addresses4 (sn_peers s))
   \<and> (\<forall>a \<in> set (addresses4 (sn_peers s)). \<exists>c. sn_virtual_ipv4 s = Some c \<and> cidr4_contains c a)
   \<and> distinct (addresses6 (sn_peers s))
   \<and> (\<forall>a \<in> set (addresses6 (sn_peers s)). \<exists>c. sn_virtual_ipv6 s = Some c \<and> cidr6_contains c a)
   \<and> distinct (sn_online_peers s)
   \<and> set (sn_online_peers s) \<subseteq> pi_node_id ` set (sn_peers s)"

text \<open>What the signing bytes contain of a candidate and of a peer, and the sizes their
  length fields can count.\<close>

definition erase_scope :: "candidate \<Rightarrow> candidate" where
  "erase_scope c =
    (let e = (\<lambda>a. sock_new (sock_ip a) (sock_port a)) in
     case c of Host a \<Rightarrow> Host (e a) | ServerReflexive a \<Rightarrow> ServerReflexive (e a)
     | PeerReflexive a \<Rightarrow> PeerReflexive (e a))"

definition peer_view :: "peer_info \<Rightarrow> peer_info" where
  "peer_view p = p\<lparr>pi_candidates := map erase_scope (pi_candidates p)\<rparr>"

definition peer_sized :: "peer_info \<Rightarrow> bool" where
  "peer_sized p \<longleftrightarrow> length (pi_candidates p) < 2 ^ 32 \<and> length (pi_credential p) < 2 ^ 32
     \<and> length (pi_capabilities p) < 2 ^ 32"

definition snapshot_sized :: "network_snapshot \<Rightarrow> bool" where
  "snapshot_sized s \<longleftrightarrow> length (sn_peers s) < 2 ^ 32 \<and> list_all peer_sized (sn_peers s)
     \<and> length (sn_online_peers s) < 2 ^ 32
     \<and> length (sn_doh_servers s) < 2 ^ 32 \<and> list_all (\<lambda>x. length x < 2 ^ 32) (sn_doh_servers s)
     \<and> length (sn_stun_servers s) < 2 ^ 32 \<and> list_all (\<lambda>x. length x < 2 ^ 32) (sn_stun_servers s)"

text \<open>A snapshot with one peer, for the witnesses.\<close>

definition sample_peer :: peer_info where
  "sample_peer = \<lparr>pi_node_id = NodeId 9, pi_incarnation = 1, pi_signing_public = 9,
     pi_noise_public = 5, pi_candidates = [Host (SockV4 1 2)], pi_virtual_ipv4 = Some 0x0A000002,
     pi_virtual_ipv6 = None, pi_credential = [1, 2], pi_capabilities = [CapDiagnosticPing]\<rparr>"

definition sample_snapshot :: "node_id list \<Rightarrow> network_snapshot" where
  "sample_snapshot online = \<lparr>sn_network_id = 3, sn_generation = 1,
     sn_virtual_ipv4 = Some \<lparr>c4_address = 0x0A000000, c4_prefix_len = 24\<rparr>,
     sn_virtual_ipv6 = None, sn_doh_servers = [''a''], sn_stun_servers = [],
     sn_peers = [sample_peer], sn_online_peers = online, sn_expires_at = 100,
     sn_signature = []\<rparr>"

subsection \<open>Validation\<close>

lemma and_high_mask: "(w :: 'a::len word) AND push_bit k (- 1) = push_bit k (drop_bit k w)"
  by (rule bit_word_eqI) (auto simp: bit_simps)

lemma unat_high_bits: "k \<le> LENGTH('a) \<Longrightarrow> unat (push_bit k (drop_bit k (w :: 'a::len word))) = unat w div 2 ^ k * 2 ^ k"
proof -
  assume "k \<le> LENGTH('a)"
  have "unat w div 2 ^ k * 2 ^ k < 2 ^ LENGTH('a)"
    using unsigned_less [where 'a = nat, of w] by (meson div_times_less_eq_dividend le_less_trans)
  then show ?thesis 
    unfolding unsigned_push_bit_eq unsigned_drop_bit_eq
    by (simp add: push_bit_eq_mult drop_bit_eq_div take_bit_nat_eq_self)
qed

lemma in_prefix:
  fixes n a :: "'a::len word"
  assumes "k \<le> LENGTH('a)"
  shows "n AND push_bit k (- 1) = a AND push_bit k (- 1) \<and> n AND push_bit k (- 1) = n \<longleftrightarrow>
    2 ^ k dvd unat n \<and> unat a div 2 ^ k = unat n div 2 ^ k"
  unfolding and_high_mask word_unat_eq_iff unat_high_bits [OF assms]
  by (metis dvd_div_mult_self dvd_triv_right mult_right_cancel nonzero_mult_div_cancel_right power_not_zero zero_neq_numeral)

lemma pow_full: "push_bit LENGTH('a) (- 1) = (0 :: 'a::len word)"
  by (rule bit_word_eqI) (auto simp: bit_simps)

lemma ipv4_in_network_iff:
  assumes "p \<le> 32"
  shows "ipv4_in_network n a p \<longleftrightarrow>
    2 ^ (32 - unat p) dvd unat n \<and> unat a div 2 ^ (32 - unat p) = unat n div 2 ^ (32 - unat p)"
proof -
  have k: "(if p = 0 then 0 else push_bit (unat (32 - p) mod 32) (- 1)) = (push_bit (32 - unat p) (- 1) :: u32)"
  proof (cases "p = 0")
    case True
    then show ?thesis using pow_full [where 'a = 32] by simp
  next
    case False
    then have "0 < unat p" by (simp add: unat_gt_0)
    moreover have "unat (32 - p) = 32 - unat p" using assms by (simp add: unat_sub)
    ultimately show ?thesis using False by simp
  qed
  show ?thesis
    unfolding ipv4_in_network_def Let_def k by (rule in_prefix) simp
qed

lemma ipv6_in_network_iff:
  assumes "p \<le> 128"
  shows "ipv6_in_network n a p \<longleftrightarrow>
    2 ^ (128 - unat p) dvd unat n \<and> unat a div 2 ^ (128 - unat p) = unat n div 2 ^ (128 - unat p)"
proof -
  have k: "(if p = 0 then 0 else push_bit (unat (128 - p) mod 128) (- 1)) = (push_bit (128 - unat p) (- 1) :: u128)"
  proof (cases "p = 0")
    case True
    then show ?thesis using pow_full [where 'a = 128] by simp
  next
    case False
    then have "0 < unat p" by (simp add: unat_gt_0)
    moreover have "unat (128 - p) = 128 - unat p" using assms by (simp add: unat_sub)
    ultimately show ?thesis using False by simp
  qed
  show ?thesis
    unfolding ipv6_in_network_def Let_def k by (rule in_prefix) simp
qed

lemma addresses_simps [simp]:
  "addresses4 [] = []" "addresses6 [] = []"
  "addresses4 (p # ps) = (case pi_virtual_ipv4 p of None \<Rightarrow> addresses4 ps | Some a \<Rightarrow> a # addresses4 ps)"
  "addresses6 (p # ps) = (case pi_virtual_ipv6 p of None \<Rightarrow> addresses6 ps | Some a \<Rightarrow> a # addresses6 ps)"
  by (simp_all add: addresses4_def addresses6_def map_filter_simps split: option.split)

lemma validate_peers_iff:
  "validate_peers blake3 n4 n6 ids v4 v6 peers = Inr () \<longleftrightarrow>
     distinct (map pi_node_id peers) \<and> ids \<inter> pi_node_id ` set peers = {}
   \<and> (\<forall>p \<in> set peers. pi_node_id p = NodeId (blake3 (to_be 32 (pi_signing_public p))))
   \<and> distinct (addresses4 peers) \<and> v4 \<inter> set (addresses4 peers) = {}
   \<and> (\<forall>a \<in> set (addresses4 peers). in_cidr4 n4 a)
   \<and> distinct (addresses6 peers) \<and> v6 \<inter> set (addresses6 peers) = {}
   \<and> (\<forall>a \<in> set (addresses6 peers). in_cidr6 n6 a)"
proof (induction peers arbitrary: ids v4 v6)
  case Nil
  then show ?case by simp
next
  case (Cons p ps)
  let ?id = "pi_node_id p \<notin> ids \<and> pi_node_id p = NodeId (blake3 (to_be 32 (pi_signing_public p)))"
  let ?v4 = "\<forall>a. pi_virtual_ipv4 p = Some a \<longrightarrow> a \<notin> v4 \<and> in_cidr4 n4 a"
  let ?v6 = "\<forall>a. pi_virtual_ipv6 p = Some a \<longrightarrow> a \<notin> v6 \<and> in_cidr6 n6 a"
  have step: "validate_peers blake3 n4 n6 ids v4 v6 (p # ps) = Inr () \<longleftrightarrow>
    ?id \<and> ?v4 \<and> ?v6 \<and> validate_peers blake3 n4 n6 (insert (pi_node_id p) ids)
       (set_option (pi_virtual_ipv4 p) \<union> v4) (set_option (pi_virtual_ipv6 p) \<union> v6) ps = Inr ()"
    by (auto simp: in_cidr4_def in_cidr6_def split: option.splits)
  show ?case unfolding step Cons.IH
    by (cases "pi_virtual_ipv4 p"; cases "pi_virtual_ipv6 p") auto
qed

lemma validate_online_iff:
  "validate_online ids seen os = Inr () \<longleftrightarrow> set os \<subseteq> ids \<and> distinct os \<and> seen \<inter> set os = {}"
  by (induction os arbitrary: seen) auto

interpretation string_code: prefix_code "\<lambda>s. length s < 2 ^ 32" encode_string "\<lambda>s. s"
  by unfold_locales (auto simp: encode_string_def counted_bytes_def len_be_inject)

lemma socket_cancel:
  "encode_socket_address a @ r = encode_socket_address b @ s \<Longrightarrow>
   sock_ip a = sock_ip b \<and> sock_port a = sock_port b \<and> r = s"
  by (cases a; cases b) (auto simp: encode_socket_address_def to_be_inject)

interpretation candidate_code: prefix_code "\<lambda>_. True" encode_candidate erase_scope
proof
  fix x y r s
  assume "encode_candidate x @ r = encode_candidate y @ s"
  then show "erase_scope x = erase_scope y \<and> r = s"
    by (cases x; cases y) (auto simp: erase_scope_def dest: socket_cancel)
qed

interpretation node_id_code: prefix_code "\<lambda>_. True" node_as_bytes "\<lambda>n. n"
  by unfold_locales (auto simp: node_as_bytes_def to_be_inject node_id.expand)

interpretation capability_code: prefix_code "\<lambda>_. True" "\<lambda>c. [peer_capability_code c]" "\<lambda>c. c"
  by unfold_locales (metis (full_types) peer_capability.exhaust append_Cons append_Nil list.inject)

interpretation optional_v4_code: prefix_code "\<lambda>_. True" encode_optional_v4 "\<lambda>a. a"
  by unfold_locales (auto simp: encode_optional_v4_def to_be_inject split: option.splits)

interpretation optional_v6_code: prefix_code "\<lambda>_. True" encode_optional_v6 "\<lambda>a. a"
  by unfold_locales (auto simp: encode_optional_v6_def to_be_inject split: option.splits)

interpretation cidr4_code: prefix_code "\<lambda>_. True" encode_ipv4_cidr "\<lambda>c. c"
  by unfold_locales (auto simp: encode_ipv4_cidr_def to_be_inject split: option.splits)

interpretation cidr6_code: prefix_code "\<lambda>_. True" encode_ipv6_cidr "\<lambda>c. c"
  by unfold_locales (auto simp: encode_ipv6_cidr_def to_be_inject split: option.splits)

interpretation peer_code: prefix_code peer_sized encode_peer peer_view
proof -
  have "prefix_code peer_sized encode_peer
    (\<lambda>p. (pi_node_id p, pi_incarnation p, pi_signing_public p, pi_noise_public p,
      pi_virtual_ipv4 p, pi_virtual_ipv6 p, map erase_scope (pi_candidates p),
      pi_credential p, map (\<lambda>c. c) (pi_capabilities p)))"
    unfolding encode_peer_def
    by (intro prefix_code_append
        prefix_code_comp [OF node_id_code.prefix_code_axioms]
        prefix_code_comp [OF prefix_code_be]
        prefix_code_comp [OF optional_v4_code.prefix_code_axioms]
        prefix_code_comp [OF optional_v6_code.prefix_code_axioms]
        prefix_code_comp [OF prefix_code_counted [OF candidate_code.prefix_code_axioms]]
        prefix_code_comp [OF prefix_code_counted_bytes]
        prefix_code_comp [OF prefix_code_counted [OF capability_code.prefix_code_axioms]])
      (simp_all add: peer_sized_def list_all_iff)
  then show "prefix_code peer_sized encode_peer peer_view"
    by (rule prefix_code_view) (simp add: peer_view_def)
qed

lemma servers_code:
  "prefix_code (\<lambda>xs. (xs = []) = b \<and> length xs < 2 ^ 32 \<and> list_all (\<lambda>x. length x < 2 ^ 32) xs)
     encode_servers (map (\<lambda>x. x))"
proof (cases b)
  case True
  then show ?thesis by (simp add: prefix_code_def encode_servers_def)
next
  case False
  let ?v = "\<lambda>xs. length xs < 2 ^ 32 \<and> list_all (\<lambda>x. length x < 2 ^ 32) xs"
  have "prefix_code ?v (counted encode_string) (map (\<lambda>x. x))"
    by (rule prefix_code_counted [OF string_code.prefix_code_axioms])
  then have "prefix_code (\<lambda>xs. (xs = []) = b \<and> ?v xs) (counted encode_string) (map (\<lambda>x. x))"
    by (rule prefix_code_comp) simp
  then show ?thesis
    by (rule prefix_code_cong) (simp add: encode_servers_def False)
qed

lemma unsigned_bytes_code:
  "prefix_code (\<lambda>s. snapshot_sized s \<and> (sn_doh_servers s = []) = a \<and> (sn_stun_servers s = []) = b)
    unsigned_bytes
    (\<lambda>s. ((), sn_network_id s, sn_generation s, sn_virtual_ipv4 s, sn_virtual_ipv6 s,
      map (\<lambda>x. x) (sn_doh_servers s), map (\<lambda>x. x) (sn_stun_servers s),
      map peer_view (sort_key pi_node_id (sn_peers s)),
      map (\<lambda>x. x) (sort (sn_online_peers s)), sn_expires_at s))"
proof -
  have tag: "prefix_code v (\<lambda>_. t) (\<lambda>_. ())" for v :: "network_snapshot \<Rightarrow> bool" and t
    by (simp add: prefix_code_def)
  show ?thesis
    unfolding unsigned_bytes_def
    by (intro prefix_code_append tag
        prefix_code_comp [OF prefix_code_be]
        prefix_code_comp [OF cidr4_code.prefix_code_axioms]
        prefix_code_comp [OF cidr6_code.prefix_code_axioms]
        prefix_code_comp [OF servers_code [where b = a], where f = sn_doh_servers]
        prefix_code_comp [OF servers_code [where b = b], where f = sn_stun_servers]
        prefix_code_comp [OF prefix_code_counted [OF peer_code.prefix_code_axioms]]
        prefix_code_comp [OF prefix_code_counted [OF node_id_code.prefix_code_axioms]])
      (simp_all add: snapshot_sized_def list_all_iff)
qed

lemma unsigned_bytes_inject:
  assumes "unsigned_bytes s = unsigned_bytes t" "snapshot_sized s" "snapshot_sized t"
    and "(sn_doh_servers s = []) = (sn_doh_servers t = [])"
    and "(sn_stun_servers s = []) = (sn_stun_servers t = [])"
  shows "sn_network_id s = sn_network_id t" "sn_generation s = sn_generation t"
    "sn_virtual_ipv4 s = sn_virtual_ipv4 t" "sn_virtual_ipv6 s = sn_virtual_ipv6 t"
    "sn_doh_servers s = sn_doh_servers t" "sn_stun_servers s = sn_stun_servers t"
    "map peer_view (sort_key pi_node_id (sn_peers s)) = map peer_view (sort_key pi_node_id (sn_peers t))"
    "sort (sn_online_peers s) = sort (sn_online_peers t)"
    "sn_expires_at s = sn_expires_at t"
proof -
  note cancel = prefix_code.cancel [OF unsigned_bytes_code
      [of "sn_doh_servers t = []" "sn_stun_servers t = []"], of s t "[]" "[]"]
  from assms have "unsigned_bytes s @ [] = unsigned_bytes t @ []"
    and "snapshot_sized s \<and> (sn_doh_servers s = []) = (sn_doh_servers t = []) \<and>
      (sn_stun_servers s = []) = (sn_stun_servers t = [])"
    and "snapshot_sized t \<and> (sn_doh_servers t = []) = (sn_doh_servers t = []) \<and>
      (sn_stun_servers t = []) = (sn_stun_servers t = [])"
    by blast+
  from cancel [OF this(2,3,1)]
  show "sn_network_id s = sn_network_id t" "sn_generation s = sn_generation t"
    "sn_virtual_ipv4 s = sn_virtual_ipv4 t" "sn_virtual_ipv6 s = sn_virtual_ipv6 t"
    "sn_doh_servers s = sn_doh_servers t" "sn_stun_servers s = sn_stun_servers t"
    "map peer_view (sort_key pi_node_id (sn_peers s)) = map peer_view (sort_key pi_node_id (sn_peers t))"
    "sort (sn_online_peers s) = sort (sn_online_peers t)"
    "sn_expires_at s = sn_expires_at t"
    by (simp_all only: prod.inject list.map_ident simp_thms)
qed

lemma validate_cidr4_iff: "validate_cidr4 n = Inr () \<longleftrightarrow> pred_option cidr4_canonical n"
  by (cases n) (auto simp: validate_cidr4_def cidr4_canonical_def ipv4_in_network_iff word_le_nat_alt
      word_less_nat_alt not_less)

lemma validate_cidr6_iff: "validate_cidr6 n = Inr () \<longleftrightarrow> pred_option cidr6_canonical n"
  by (cases n) (auto simp: validate_cidr6_def cidr6_canonical_def ipv6_in_network_iff word_le_nat_alt
      word_less_nat_alt not_less)

lemma in_cidr4_iff:
  "pred_option cidr4_canonical n \<Longrightarrow> in_cidr4 n a \<longleftrightarrow> (\<exists>c. n = Some c \<and> cidr4_contains c a)"
  by (cases n) (auto simp: in_cidr4_def cidr4_canonical_def cidr4_contains_def ipv4_in_network_iff
      word_le_nat_alt)

lemma in_cidr6_iff:
  "pred_option cidr6_canonical n \<Longrightarrow> in_cidr6 n a \<longleftrightarrow> (\<exists>c. n = Some c \<and> cidr6_contains c a)"
  by (cases n) (auto simp: in_cidr6_def cidr6_canonical_def cidr6_contains_def ipv6_in_network_iff
      word_le_nat_alt)

lemma snapshot_validate_iff: "snapshot_validate blake3 s = Inr () \<longleftrightarrow> snapshot_ok blake3 s"
proof (cases "sn_generation s \<noteq> 0 \<and> pred_option cidr4_canonical (sn_virtual_ipv4 s)
    \<and> pred_option cidr6_canonical (sn_virtual_ipv6 s)")
  case True
  then have "snapshot_validate blake3 s = Inr () \<longleftrightarrow>
      validate_peers blake3 (sn_virtual_ipv4 s) (sn_virtual_ipv6 s) {} {} {} (sn_peers s) = Inr ()
    \<and> validate_online (set (map pi_node_id (sn_peers s))) {} (sn_online_peers s) = Inr ()"
    by (auto simp: snapshot_validate_def validate_cidr4_iff [THEN iffD2]
        validate_cidr6_iff [THEN iffD2] split: sum.splits)
  then show ?thesis
    using True by (auto simp: validate_peers_iff validate_online_iff in_cidr4_iff in_cidr6_iff
        snapshot_ok_def)
next
  case False
  then have "\<not> snapshot_ok blake3 s" by (auto simp: snapshot_ok_def)
  moreover have "snapshot_validate blake3 s \<noteq> Inr ()"
    using False validate_cidr4_iff validate_cidr6_iff
    by (auto simp: snapshot_validate_def split: sum.splits)
  ultimately show ?thesis by simp
qed

lemma peer_views_set:
  assumes "map peer_view (sort_key pi_node_id xs) = map peer_view (sort_key pi_node_id ys)"
  shows "peer_view ` set xs = peer_view ` set ys"
  using arg_cong [OF assms, of set] by simp

subsection \<open>Properties\<close>

text \<open>C12: \<open>validate\<close> accepts exactly the well-formed snapshots: non-zero generation,
  canonical networks, every node id the hash of its signing key, node ids and virtual
  addresses without duplicates, every virtual address inside the network, and online peers
  that are distinct members.\<close>

theorem snapshot_validate_correct:
  "(snapshot_validate blake3 s = Inr ()) = snapshot_ok blake3 s"
  by (rule snapshot_validate_iff)

text \<open>C27: the signing bytes bind a snapshot. Two snapshots with the same signing bytes whose
  server lists are empty at the same places agree in every field but the signature, up to
  the order of peers and online ids and to the scope ids of candidate addresses. The size
  bound is what the four-byte length fields can count.\<close>

theorem unsigned_bytes_binding:
  assumes "unsigned_bytes s = unsigned_bytes t" "snapshot_sized s" "snapshot_sized t"
    and "(sn_doh_servers s = []) = (sn_doh_servers t = [])"
    and "(sn_stun_servers s = []) = (sn_stun_servers t = [])"
  shows "sn_network_id s = sn_network_id t \<and> sn_generation s = sn_generation t
    \<and> sn_virtual_ipv4 s = sn_virtual_ipv4 t \<and> sn_virtual_ipv6 s = sn_virtual_ipv6 t
    \<and> sn_doh_servers s = sn_doh_servers t \<and> sn_stun_servers s = sn_stun_servers t
    \<and> peer_view ` set (sn_peers s) = peer_view ` set (sn_peers t)
    \<and> set (sn_online_peers s) = set (sn_online_peers t)
    \<and> sn_expires_at s = sn_expires_at t"
  using unsigned_bytes_inject [OF assms] peer_views_set
  by (metis set_sort)

theorem unsigned_bytes_binding_witness:
  "sn_expires_at (sample_snapshot [NodeId 9]) =
   sn_expires_at (sample_snapshot [NodeId 9]\<lparr>sn_signature := [7]\<rparr>)"
proof -
  have "unsigned_bytes (sample_snapshot [NodeId 9]) =
      unsigned_bytes (sample_snapshot [NodeId 9]\<lparr>sn_signature := [7]\<rparr>)"
    by (simp add: unsigned_bytes_def)
  moreover have "snapshot_sized (sample_snapshot [NodeId 9])"
    and "snapshot_sized (sample_snapshot [NodeId 9]\<lparr>sn_signature := [7]\<rparr>)"
    by (simp_all add: snapshot_sized_def peer_sized_def sample_snapshot_def sample_peer_def)
  ultimately show ?thesis
    using unsigned_bytes_binding [of "sample_snapshot [NodeId 9]"
        "sample_snapshot [NodeId 9]\<lparr>sn_signature := [7]\<rparr>"] by simp
qed

text \<open>C28: an empty server list leaves no trace in the signing bytes, so a snapshot that
  recommends only DNS servers and the one that recommends the same strings as STUN servers
  have the same signing bytes, and a signature of one is a signature of the other.\<close>

theorem unsigned_bytes_confuses_servers:
  "unsigned_bytes (s\<lparr>sn_doh_servers := xs, sn_stun_servers := []\<rparr>) =
   unsigned_bytes (s\<lparr>sn_doh_servers := [], sn_stun_servers := xs\<rparr>)"
  by (simp add: unsigned_bytes_def encode_servers_def)

end
