(* ===== verification/Vela_Crypto.thy ===== *)
theory Vela_Crypto
  imports Vela_Snapshot
begin

section \<open>Identities, credentials, snapshot signatures and datagram encryption (vela-crypto)\<close>

text \<open>
  \<open>vela-crypto/src/lib.rs\<close>. The primitives are third-party crates and are parameters: the
  record \<open>crypto_prims\<close> holds BLAKE3, Ed25519, X25519, HKDF and ChaCha20-Poly1305, the record
  \<open>noise_prims\<close> the Noise state machine of the \<open>snow\<close> crate over an opaque state. What the
  code relies on is written as hypotheses of the properties: a signature made with a key
  verifies under its public key (\<open>signature_law\<close>), and opening inverts sealing under the same
  key, nonce and associated data (\<open>aead_law\<close>).
\<close>

subsection \<open>Primitives\<close>

record crypto_prims =
  cp_blake3 :: hash_fn
  cp_ed_public :: "256 word \<Rightarrow> 256 word"
  cp_ed_sign :: "256 word \<Rightarrow> bytes \<Rightarrow> 512 word"
  cp_ed_key_ok :: "256 word \<Rightarrow> bool"
  cp_ed_verify :: "256 word \<Rightarrow> bytes \<Rightarrow> 512 word \<Rightarrow> bool"
  cp_ed_verify_strict :: "256 word \<Rightarrow> bytes \<Rightarrow> 512 word \<Rightarrow> bool"
  cp_x_public :: "256 word \<Rightarrow> 256 word"
  cp_hkdf_expand :: "bytes \<Rightarrow> bytes \<Rightarrow> bytes \<Rightarrow> 256 word option"
  cp_seal :: "256 word \<Rightarrow> 96 word \<Rightarrow> bytes \<Rightarrow> bytes \<Rightarrow> (bytes \<times> 128 word) option"
  cp_open :: "256 word \<Rightarrow> 96 word \<Rightarrow> bytes \<Rightarrow> bytes \<Rightarrow> 128 word \<Rightarrow> bytes option"

text \<open>Both operations work in place, so lengths do not change, and opening inverts sealing.\<close>

definition aead_law :: "crypto_prims \<Rightarrow> bool" where
  "aead_law cp \<longleftrightarrow> (\<forall>k n ad pt ct tag. cp_seal cp k n ad pt = Some (ct, tag) \<longrightarrow>
     length ct = length pt \<and> cp_open cp k n ad ct tag = Some pt)
   \<and> (\<forall>k n ad ct tag pt. cp_open cp k n ad ct tag = Some pt \<longrightarrow> length pt = length ct)"

definition signature_law :: "crypto_prims \<Rightarrow> bool" where
  "signature_law cp \<longleftrightarrow> (\<forall>k m. cp_ed_key_ok cp (cp_ed_public cp k)
     \<and> cp_ed_verify cp (cp_ed_public cp k) m (cp_ed_sign cp k m)
     \<and> cp_ed_verify_strict cp (cp_ed_public cp k) m (cp_ed_sign cp k m))"

datatype crypto_error =
    CryptoIo
  | CryptoSerialization
  | InvalidKey
  | InvalidSignature
  | CredentialExpired
  | NoiseError
  | Aead
  | InvalidSnapshotSignature

subsection \<open>Identity\<close>

datatype crypto_policy = PreferHybrid | RequireHybrid | ClassicalOnly

record identity =
  id_signing :: "256 word"
  id_noise_static :: "256 word"

record public_identity =
  pid_node_id :: node_id
  pid_signing_public :: "256 word"
  pid_noise_public :: "256 word"

record identity_file =
  if_signing_private :: string
  if_noise_private :: string

definition identity_load :: "b64_dec \<Rightarrow> identity_file \<Rightarrow> crypto_error + identity" where
  "identity_load b64_decode file =
    (case b64_decode (if_signing_private file) of
       Inl _ \<Rightarrow> Inl InvalidKey
     | Inr signing_private \<Rightarrow>
    (case b64_decode (if_noise_private file) of
       Inl _ \<Rightarrow> Inl InvalidKey
     | Inr noise_private \<Rightarrow>
        if length signing_private \<noteq> 32 then Inl InvalidKey
        else if length noise_private \<noteq> 32 then Inl InvalidKey
        else Inr \<lparr>id_signing = word_be signing_private, id_noise_static = word_be noise_private\<rparr>))"

definition identity_save :: "b64_enc \<Rightarrow> identity \<Rightarrow> identity_file" where
  "identity_save b64_encode i =
    \<lparr>if_signing_private = b64_encode (to_be 32 (id_signing i)),
     if_noise_private = b64_encode (to_be 32 (id_noise_static i))\<rparr>"

definition identity_public :: "crypto_prims \<Rightarrow> identity \<Rightarrow> public_identity" where
  "identity_public cp i =
    (let signing_public = cp_ed_public cp (id_signing i);
         node_id = NodeId (cp_blake3 cp (to_be 32 signing_public))
     in \<lparr>pid_node_id = node_id, pid_signing_public = signing_public,
         pid_noise_public = cp_x_public cp (id_noise_static i)\<rparr>)"

definition identity_sign :: "crypto_prims \<Rightarrow> identity \<Rightarrow> bytes \<Rightarrow> 512 word" where
  "identity_sign cp i message = cp_ed_sign cp (id_signing i) message"

subsection \<open>Membership credentials\<close>

record membership_credential =
  mc_node_id :: node_id
  mc_signing_public :: "256 word"
  mc_noise_public :: "256 word"
  mc_tenant :: string
  mc_issued_at :: u64
  mc_expires_at :: u64
  mc_server_key_id :: "256 word"
  mc_signature :: bytes

definition credential_unsigned ::
  "u64 \<Rightarrow> public_identity \<Rightarrow> string \<Rightarrow> u64 \<Rightarrow> 256 word \<Rightarrow> membership_credential" where
  "credential_unsigned unix_time identity tenant expires_at server_key_id =
    \<lparr>mc_node_id = pid_node_id identity, mc_signing_public = pid_signing_public identity,
     mc_noise_public = pid_noise_public identity, mc_tenant = tenant,
     mc_issued_at = unix_time, mc_expires_at = expires_at,
     mc_server_key_id = server_key_id, mc_signature = replicate 64 0\<rparr>"

definition signing_bytes :: "membership_credential \<Rightarrow> bytes" where
  "signing_bytes c =
    node_as_bytes (mc_node_id c)
    @ to_be 32 (mc_signing_public c)
    @ to_be 32 (mc_noise_public c)
    @ counted_bytes (as_bytes (mc_tenant c))
    @ to_be 8 (mc_issued_at c)
    @ to_be 8 (mc_expires_at c)
    @ to_be 32 (mc_server_key_id c)"

text \<open>The server signer is its signing key.\<close>

record server_signer =
  ss_signing :: "256 word"

definition signer_public :: "crypto_prims \<Rightarrow> server_signer \<Rightarrow> 256 word" where
  "signer_public cp server = cp_ed_public cp (ss_signing server)"

definition signer_key_id :: "crypto_prims \<Rightarrow> server_signer \<Rightarrow> 256 word" where
  "signer_key_id cp server = cp_blake3 cp (to_be 32 (signer_public cp server))"

definition signer_sign :: "crypto_prims \<Rightarrow> server_signer \<Rightarrow> bytes \<Rightarrow> 512 word" where
  "signer_sign cp server message = cp_ed_sign cp (ss_signing server) message"

definition credential_sign ::
  "crypto_prims \<Rightarrow> server_signer \<Rightarrow> membership_credential \<Rightarrow> membership_credential" where
  "credential_sign cp server c = c\<lparr>mc_signature := to_be 64 (signer_sign cp server (signing_bytes c))\<rparr>"

definition credential_verify ::
  "crypto_prims \<Rightarrow> membership_credential \<Rightarrow> 256 word \<Rightarrow> u64 \<Rightarrow> crypto_error + unit" where
  "credential_verify cp c server_public now =
    (if mc_expires_at c < mc_issued_at c \<or> mc_expires_at c < now
        \<or> mc_issued_at c > saturating_add now 60
     then Inl CredentialExpired
     else if mc_server_key_id c \<noteq> cp_blake3 cp (to_be 32 server_public) then Inl InvalidSignature
     else if mc_node_id c \<noteq> NodeId (cp_blake3 cp (to_be 32 (mc_signing_public c)))
     then Inl InvalidSignature
     else if \<not> cp_ed_key_ok cp server_public then Inl InvalidKey
     else if length (mc_signature c) \<noteq> 64 then Inl InvalidSignature
     else if cp_ed_verify cp server_public (signing_bytes c) (word_be (mc_signature c)) then Inr ()
     else Inl InvalidSignature)"

definition sign_snapshot :: "crypto_prims \<Rightarrow> server_signer \<Rightarrow> network_snapshot \<Rightarrow> network_snapshot" where
  "sign_snapshot cp server snapshot =
    snapshot\<lparr>sn_signature := to_be 64 (signer_sign cp server (unsigned_bytes snapshot))\<rparr>"

definition verify_snapshot ::
  "crypto_prims \<Rightarrow> network_snapshot \<Rightarrow> 256 word \<Rightarrow> u64 \<Rightarrow> crypto_error + unit" where
  "verify_snapshot cp snapshot server_public now =
    (if sn_expires_at snapshot < now \<or> length (sn_signature snapshot) \<noteq> 64
     then Inl InvalidSnapshotSignature
     else if \<not> cp_ed_key_ok cp server_public then Inl InvalidKey
     else if cp_ed_verify cp server_public (unsigned_bytes snapshot) (word_be (sn_signature snapshot))
     then Inr ()
     else Inl InvalidSnapshotSignature)"

subsection \<open>Noise handshake and sessions\<close>

text \<open>\<open>snow\<close>: the state of a handshake, whose messages are written into and read from buffers of
  a given size; both operations change the state.\<close>

record 'hs noise_prims =
  np_initiator :: "256 word \<Rightarrow> 256 word \<Rightarrow> 'hs option"
  np_responder :: "256 word \<Rightarrow> 'hs option"
  np_write :: "nat \<Rightarrow> 'hs \<Rightarrow> bytes \<Rightarrow> ('hs \<times> bytes) option"
  np_read :: "nat \<Rightarrow> 'hs \<Rightarrow> bytes \<Rightarrow> ('hs \<times> bytes) option"
  np_finished :: "'hs \<Rightarrow> bool"
  np_hash :: "'hs \<Rightarrow> bytes"

definition noise_result :: "'a option \<Rightarrow> crypto_error + 'a" where
  "noise_result r = (case r of None \<Rightarrow> Inl NoiseError | Some v \<Rightarrow> Inr v)"

definition noise_initiator :: "'hs noise_prims \<Rightarrow> identity \<Rightarrow> 256 word \<Rightarrow> crypto_error + 'hs" where
  "noise_initiator np i peer_noise_public =
    noise_result (np_initiator np (id_noise_static i) peer_noise_public)"

definition noise_responder :: "'hs noise_prims \<Rightarrow> identity \<Rightarrow> crypto_error + 'hs" where
  "noise_responder np i = noise_result (np_responder np (id_noise_static i))"

definition write_message :: "'hs noise_prims \<Rightarrow> 'hs \<Rightarrow> bytes \<Rightarrow> crypto_error + ('hs \<times> bytes)" where
  "write_message np hs payload = noise_result (np_write np 2048 hs payload)"

definition read_message :: "'hs noise_prims \<Rightarrow> 'hs \<Rightarrow> bytes \<Rightarrow> crypto_error + ('hs \<times> bytes)" where
  "read_message np hs message = noise_result (np_read np 2048 hs message)"

record session_keys =
  sk_initiator :: "256 word"
  sk_responder :: "256 word"

definition into_session ::
  "crypto_prims \<Rightarrow> 'hs noise_prims \<Rightarrow> 'hs \<Rightarrow> crypto_error + session_keys" where
  "into_session cp np hs =
    (if \<not> np_finished np hs then Inl NoiseError
     else case cp_hkdf_expand cp (as_bytes ''vela datagram session'') (np_hash np hs)
         (as_bytes ''initiator'') of
       None \<Rightarrow> Inl NoiseError
     | Some i \<Rightarrow>
    (case cp_hkdf_expand cp (as_bytes ''vela datagram session'') (np_hash np hs)
         (as_bytes ''responder'') of
       None \<Rightarrow> Inl NoiseError
     | Some r \<Rightarrow> Inr \<lparr>sk_initiator = i, sk_responder = r\<rparr>))"

record session_cipher =
  sc_tx :: "256 word"
  sc_rx :: "256 word"

definition session_cipher_of :: "session_keys \<Rightarrow> bool \<Rightarrow> session_cipher" where
  "session_cipher_of keys initiator =
    (let tx_key = (if initiator then sk_initiator keys else sk_responder keys);
         rx_key = (if initiator then sk_responder keys else sk_initiator keys)
     in \<lparr>sc_tx = tx_key, sc_rx = rx_key\<rparr>)"

text \<open>The nonce: four zero bytes and the sequence number.\<close>

definition nonce :: "u64 \<Rightarrow> 96 word" where
  "nonce sequence = word_be (replicate 4 0 @ to_be 8 sequence)"

definition encrypt_in_place_detached ::
  "crypto_prims \<Rightarrow> session_cipher \<Rightarrow> u64 \<Rightarrow> bytes \<Rightarrow> bytes \<Rightarrow> crypto_error + (bytes \<times> 128 word)" where
  "encrypt_in_place_detached cp c sequence associated_data plaintext =
    (case cp_seal cp (sc_tx c) (nonce sequence) associated_data plaintext of
       None \<Rightarrow> Inl Aead
     | Some r \<Rightarrow> Inr r)"

definition encrypt ::
  "crypto_prims \<Rightarrow> session_cipher \<Rightarrow> u64 \<Rightarrow> bytes \<Rightarrow> bytes \<Rightarrow> crypto_error + bytes" where
  "encrypt cp c sequence associated_data plaintext =
    (case encrypt_in_place_detached cp c sequence associated_data plaintext of
       Inl e \<Rightarrow> Inl e
     | Inr (out, tag) \<Rightarrow> Inr (out @ to_be 16 tag))"

definition decrypt ::
  "crypto_prims \<Rightarrow> session_cipher \<Rightarrow> u64 \<Rightarrow> bytes \<Rightarrow> bytes \<Rightarrow> crypto_error + bytes" where
  "decrypt cp c sequence associated_data ciphertext_and_tag =
    (if length ciphertext_and_tag < 16 then Inl Aead
     else let split = length ciphertext_and_tag - 16 in
       case cp_open cp (sc_rx c) (nonce sequence) associated_data
          (take split ciphertext_and_tag) (word_be (drop split ciphertext_and_tag)) of
         None \<Rightarrow> Inl Aead
       | Some out \<Rightarrow> Inr out)"

text \<open>\<open>decrypt_in_place\<close> decrypts the front of the shared buffer where it lies and then cuts the
  tag off. The result is the buffer after a success; after a failure the callers drop it.\<close>

definition decrypt_in_place ::
  "crypto_prims \<Rightarrow> session_cipher \<Rightarrow> u64 \<Rightarrow> bytes \<Rightarrow> bytes \<Rightarrow> crypto_error + bytes" where
  "decrypt_in_place cp c sequence associated_data buffer =
    (if length buffer < 16 then Inl Aead
     else let split = length buffer - 16;
              tag_bytes = drop split buffer in
       case cp_open cp (sc_rx c) (nonce sequence) associated_data
          (take split buffer) (word_be tag_bytes) of
         None \<Rightarrow> Inl Aead
       | Some front \<Rightarrow> let buffer' = front @ drop split buffer in Inr (take split buffer'))"

text \<open>Concrete primitives for the witnesses: an XOR of the key byte with a keyed tag.\<close>

definition sample_prims :: crypto_prims where
  "sample_prims =
    \<lparr>cp_blake3 = (\<lambda>bs. word_be bs + 1), cp_ed_public = (\<lambda>k. k + 1),
     cp_ed_sign = (\<lambda>k m. ucast k + word_of_nat (length m)),
     cp_ed_key_ok = (\<lambda>k. True),
     cp_ed_verify = (\<lambda>pk m s. s = ucast (pk - 1) + word_of_nat (length m)),
     cp_ed_verify_strict = (\<lambda>pk m s. s = ucast (pk - 1) + word_of_nat (length m)),
     cp_x_public = (\<lambda>k. k + 2),
     cp_hkdf_expand = (\<lambda>salt ikm info. Some (word_be (ikm @ take 2 info))),
     cp_seal = (\<lambda>k n ad pt. if length pt < 65000 then
        Some (map (\<lambda>b. b XOR ucast k) pt, ucast k + ucast n + word_of_nat (length ad)) else None),
     cp_open = (\<lambda>k n ad ct tag. if tag = ucast k + ucast n + word_of_nat (length ad) then
        Some (map (\<lambda>b. b XOR ucast k) ct) else None)\<rparr>"

subsection \<open>Lemmas\<close>

lemma signing_bytes_code:
  "prefix_code (\<lambda>c. length (mc_tenant c) < 2 ^ 32) signing_bytes
    (\<lambda>c. (mc_node_id c, mc_signing_public c, mc_noise_public c, as_bytes (mc_tenant c),
      mc_issued_at c, mc_expires_at c, mc_server_key_id c))"
  unfolding signing_bytes_def
  by (intro prefix_code_append prefix_code_comp [OF node_id_code.prefix_code_axioms]
      prefix_code_comp [OF prefix_code_be] prefix_code_comp [OF prefix_code_counted_bytes])
    simp_all

lemma signing_bytes_inject:
  assumes "signing_bytes c = signing_bytes d" "length (mc_tenant c) < 2 ^ 32" "length (mc_tenant d) < 2 ^ 32"
  shows "c\<lparr>mc_signature := x\<rparr> = d\<lparr>mc_signature := x\<rparr>"
  using prefix_code.cancel [OF signing_bytes_code assms(2,3), of "[]" "[]"] assms(1) by simp

lemma signing_bytes_signature [simp]: "signing_bytes (c\<lparr>mc_signature := x\<rparr>) = signing_bytes c"
  by (simp add: signing_bytes_def)

lemma unsigned_bytes_signature [simp]: "unsigned_bytes (s\<lparr>sn_signature := x\<rparr>) = unsigned_bytes s"
  by (simp add: unsigned_bytes_def)

lemma nonce_inject: "nonce a = nonce b \<longleftrightarrow> a = b"
proof
  have bytes: "to_be 12 (nonce x) = replicate 4 0 @ to_be 8 x" for x
    unfolding nonce_def by (rule to_be_of_be) simp_all
  assume "nonce a = nonce b"
  then have "to_be 12 (nonce a) = to_be 12 (nonce b)" by simp
  then have "to_be 8 a = to_be 8 b" unfolding bytes by (simp only: same_append_eq)
  then show "a = b" by (simp add: to_be_inject)
qed simp

lemma decrypt_in_place_eq:
  assumes "aead_law cp"
  shows "decrypt_in_place cp c sequence ad ct = decrypt cp c sequence ad ct"
proof (cases "length ct < 16")
  case True
  then show ?thesis by (simp add: decrypt_def decrypt_in_place_def)
next
  case False
  let ?r = "cp_open cp (sc_rx c) (nonce sequence) ad (take (length ct - 16) ct)
    (word_be (drop (length ct - 16) ct))"
  have "length pt = length ct - 16" if "?r = Some pt" for pt
    using assms that unfolding aead_law_def by (metis diff_le_self length_take min.absorb2)
  then show ?thesis
    using False by (cases ?r) (simp_all add: decrypt_def decrypt_in_place_def Let_def)
qed

lemma decrypt_encrypt:
  assumes "aead_law cp" "encrypt cp (session_cipher_of keys b) sequence ad pt = Inr ct"
  shows "decrypt cp (session_cipher_of keys (\<not> b)) sequence ad ct = Inr pt"
    and "length ct = length pt + 16"
proof -
  let ?k = "sc_tx (session_cipher_of keys b)"
  from assms(2) obtain out tag where s: "cp_seal cp ?k (nonce sequence) ad pt = Some (out, tag)"
    and ct: "ct = out @ to_be 16 tag"
    by (auto simp: encrypt_def encrypt_in_place_detached_def split: option.splits)
  with assms(1) have "length out = length pt" "cp_open cp ?k (nonce sequence) ad out tag = Some pt"
    unfolding aead_law_def by blast+
  moreover have "sc_rx (session_cipher_of keys (\<not> b)) = ?k"
    by (simp add: session_cipher_of_def)
  ultimately show "decrypt cp (session_cipher_of keys (\<not> b)) sequence ad ct = Inr pt"
    and "length ct = length pt + 16"
    using ct by (simp_all add: decrypt_def)
qed

lemma credential_sign_verifies:
  assumes "signature_law cp" "mc_node_id c = NodeId (cp_blake3 cp (to_be 32 (mc_signing_public c)))"
    and "mc_server_key_id c = signer_key_id cp server"
    and "mc_issued_at c \<le> mc_expires_at c" "now \<le> mc_expires_at c"
      "mc_issued_at c \<le> saturating_add now 60"
  shows "credential_verify cp (credential_sign cp server c) (signer_public cp server) now = Inr ()"
  using assms
  by (simp add: credential_verify_def credential_sign_def signer_key_id_def
      signature_law_def signer_public_def signer_sign_def not_less)

lemma credential_issued_verifies:
  assumes "signature_law cp" "pid_node_id pid = NodeId (cp_blake3 cp (to_be 32 (pid_signing_public pid)))"
    and "issued \<le> expires" "now \<le> expires" "issued \<le> saturating_add now 60"
  shows "credential_verify cp (credential_sign cp server
      (credential_unsigned issued pid tenant expires (signer_key_id cp server)))
    (signer_public cp server) now = Inr ()"
  using assms by (intro credential_sign_verifies) (simp_all add: credential_unsigned_def)

lemma sign_snapshot_verifies:
  assumes "signature_law cp" "now \<le> sn_expires_at s"
  shows "verify_snapshot cp (sign_snapshot cp server s) (signer_public cp server) now = Inr ()"
  using assms
  by (simp add: verify_snapshot_def sign_snapshot_def signature_law_def signer_public_def
      signer_sign_def not_less)

lemma identity_round_trip:
  assumes "\<And>bs. b64_decode (b64_encode bs) = Inr bs"
  shows "identity_load b64_decode (identity_save b64_encode i) = Inr i"
  by (simp add: identity_load_def identity_save_def assms)

lemma sample_signature_law: "signature_law sample_prims"
  by (simp add: signature_law_def sample_prims_def)

lemma sample_aead_law: "aead_law sample_prims"
  unfolding aead_law_def sample_prims_def crypto_prims.simps
  by (simp add: comp_def xor.assoc split: if_split)

subsection \<open>Properties\<close>

text \<open>C16: what one end of a session encrypts, the other end decrypts: with the keys of one
  handshake, the ciphertext the initiator (responder) produces for a sequence number and
  associated data is opened by the responder (initiator) under the same ones, by both
  decryption routines, and it is sixteen bytes longer than the plain text. The in-place
  routine agrees with the copying one on every input, also the rejected ones.\<close>

theorem session_round_trip:
  assumes "aead_law cp" "encrypt cp (session_cipher_of keys b) sequence ad pt = Inr ct"
  shows "decrypt cp (session_cipher_of keys (\<not> b)) sequence ad ct = Inr pt
    \<and> decrypt_in_place cp (session_cipher_of keys (\<not> b)) sequence ad ct = Inr pt
    \<and> length ct = length pt + 16
    \<and> decrypt_in_place cp c sequence' ad' bs = decrypt cp c sequence' ad' bs"
  using decrypt_encrypt [OF assms] decrypt_in_place_eq [OF assms(1)] by simp

theorem session_round_trip_witness:
  "\<exists>ct. encrypt sample_prims (session_cipher_of \<lparr>sk_initiator = 5, sk_responder = 9\<rparr> True) 7 [1, 2] [10, 20] = Inr ct
    \<and> decrypt sample_prims (session_cipher_of \<lparr>sk_initiator = 5, sk_responder = 9\<rparr> False) 7 [1, 2] ct = Inr [10, 20]"
proof -
  obtain ct where ct: "encrypt sample_prims
      (session_cipher_of \<lparr>sk_initiator = 5, sk_responder = 9\<rparr> True) 7 [1, 2] [10, 20] = Inr ct"
    by (simp add: encrypt_def encrypt_in_place_detached_def sample_prims_def)
  then show ?thesis
    using session_round_trip [OF sample_aead_law ct] by auto
qed

text \<open>C22: the credential the coordinator issues to an identity verifies under its public key
  at every time from one minute before the issue to the expiry, and at no later time.\<close>

theorem credential_validity:
  assumes "signature_law cp"
    and "pid_node_id pid = NodeId (cp_blake3 cp (to_be 32 (pid_signing_public pid)))"
    and "issued \<le> expires"
  shows "credential_verify cp (credential_sign cp server
      (credential_unsigned issued pid tenant expires (signer_key_id cp server)))
    (signer_public cp server) now = Inr ()
    \<longleftrightarrow> now \<le> expires \<and> unat issued \<le> unat now + 60"
proof -
  let ?c = "credential_unsigned issued pid tenant expires (signer_key_id cp server)"
  have "issued \<le> saturating_add now 60 \<longleftrightarrow> unat issued \<le> unat now + 60"
    using unsigned_less [where 'a = nat, of issued]
    by (auto simp: word_le_nat_alt unat_saturating_add)
  moreover have "credential_verify cp (credential_sign cp server ?c) (signer_public cp server) now \<noteq> Inr ()"
    if "\<not> (now \<le> expires \<and> issued \<le> saturating_add now 60)"
    using that
    by (auto simp: credential_verify_def credential_sign_def credential_unsigned_def not_le not_less)
  ultimately show ?thesis
    using credential_issued_verifies [OF assms(1-3), where now = now and tenant = tenant and server = server]
    by blast
qed

theorem credential_validity_witness:
  "credential_verify sample_prims (credential_sign sample_prims \<lparr>ss_signing = 3\<rparr>
      (credential_unsigned 100 (identity_public sample_prims \<lparr>id_signing = 8, id_noise_static = 9\<rparr>)
        ''t'' 200 (signer_key_id sample_prims \<lparr>ss_signing = 3\<rparr>)))
    (signer_public sample_prims \<lparr>ss_signing = 3\<rparr>) 50 = Inr ()"
  using credential_validity [OF sample_signature_law,
      of "identity_public sample_prims \<lparr>id_signing = 8, id_noise_static = 9\<rparr>" 100 200
        "\<lparr>ss_signing = 3\<rparr>" "''t''" 50]
  by (simp add: identity_public_def Let_def)

text \<open>C26: the signing bytes of a credential determine every field but the signature (for
  tenants a four-byte length can count), and distinct sequence numbers have distinct AEAD
  nonces.\<close>

theorem signing_bytes_binding:
  "(signing_bytes c = signing_bytes d \<and> length (mc_tenant c) < 2 ^ 32 \<and> length (mc_tenant d) < 2 ^ 32
      \<longrightarrow> c\<lparr>mc_signature := x\<rparr> = d\<lparr>mc_signature := x\<rparr>)
   \<and> (nonce m = nonce n \<longleftrightarrow> m = n)"
  using signing_bytes_inject nonce_inject by blast

theorem signing_bytes_binding_witness:
  "(credential_unsigned 1 (identity_public sample_prims \<lparr>id_signing = 8, id_noise_static = 9\<rparr>) ''t'' 2 3)\<lparr>mc_signature := []\<rparr>
   = (credential_sign sample_prims \<lparr>ss_signing = 3\<rparr>
       (credential_unsigned 1 (identity_public sample_prims \<lparr>id_signing = 8, id_noise_static = 9\<rparr>) ''t'' 2 3))\<lparr>mc_signature := []\<rparr>"
  using signing_bytes_binding [of
      "credential_unsigned 1 (identity_public sample_prims \<lparr>id_signing = 8, id_noise_static = 9\<rparr>) ''t'' 2 3"
      "credential_sign sample_prims \<lparr>ss_signing = 3\<rparr>
       (credential_unsigned 1 (identity_public sample_prims \<lparr>id_signing = 8, id_noise_static = 9\<rparr>) ''t'' 2 3)"
      "[]"]
  by (simp add: credential_sign_def credential_unsigned_def)

end
