(* ===== verification/Vela_Ip.thy ===== *)
theory Vela_Ip
  imports Vela_Proto
begin

section \<open>IP packets and the host-route table (vela-ip)\<close>

text \<open>
  \<open>vela-ip/src/lib.rs\<close>: parsing and validation of IPv4 and IPv6 packets, the header
  checksum, and the route table that maps virtual addresses to peers. Indexing is modelled
  with its panic (\<open>None\<close>); the parser is proved never to panic and to accept exactly the
  packets of its specification. The checksum loop is proved to terminate and to compute the
  ones' complement sum. The route table meets the contract \<open>route_map\<close> that its users in the
  node rely on.
\<close>

subsection \<open>Packets\<close>

datatype ip_version = V4 | V6

record ip_packet =
  ip_bytes :: bytes
  ip_version_of :: ip_version
  ip_source :: ip_addr
  ip_destination :: ip_addr
  ip_protocol :: u8

datatype ip_error =
    IpTruncated
  | UnsupportedIpVersion u8
  | InvalidHeaderLength
  | InvalidTotalLength
  | IpLengthMismatch nat nat
  | InvalidChecksum
  | SourceNotLocal ip_addr
  | DestinationUnknown ip_addr

text \<open>One round of carry folding, on numbers.\<close>

lemma fold_carry_value:
  fixes acc :: u32
  shows "unat ((acc AND 0xFFFF) + drop_bit 16 acc) = unat acc mod 65536 + unat acc div 65536"
proof -
  have m: "acc AND 0xFFFF = take_bit 16 acc"
    using take_bit_eq_mask [of 16 acc] by (simp add: mask_eq_exp_minus_1)
  have lo: "unat (take_bit 16 acc) = unat acc mod 65536"
    unfolding unsigned_take_bit_eq by (simp add: take_bit_eq_mod)
  have hi: "unat (drop_bit 16 acc) = unat acc div 65536"
    unfolding unsigned_drop_bit_eq using unsigned_less [where 'a = nat, of acc]
    by (simp add: drop_bit_eq_div take_bit_eq_mod)
  have "unat acc mod 65536 + unat acc div 65536 \<le> unat acc"
    using div_mult_mod_eq [of "unat acc" 65536] by linarith
  also have "unat acc < 2 ^ 32" using unsigned_less [where 'a = nat, of acc] by simp
  finally have "unat acc mod 65536 + unat acc div 65536 < 2 ^ 32" .
  then show ?thesis
    unfolding m using unat_add_lem [of "take_bit 16 acc" "drop_bit 16 acc"] lo hi by simp
qed

text \<open>The inner loop of \<open>checksum\<close>: fold the carries into the low 16 bits.\<close>

function fold_carry :: "u32 \<Rightarrow> u32" where
  "fold_carry acc =
    (if acc > 0xFFFF then fold_carry ((acc AND 0xFFFF) + drop_bit 16 acc) else acc)"
  by pat_completeness auto

termination
proof (relation "measure unat")
  fix acc :: u32
  assume "0xFFFF < acc"
  then have "65536 \<le> unat acc" by (simp add: word_less_nat_alt)
  then have "unat acc mod 65536 + unat acc div 65536 < unat acc"
    using div_mult_mod_eq [of "unat acc" 65536] div_greater_zero_iff [of "unat acc" 65536]
    by linarith
  then show "((acc AND 0xFFFF) + drop_bit 16 acc, acc) \<in> measure unat"
    by (simp add: fold_carry_value)
qed simp

declare fold_carry.simps [simp del]

text \<open>The outer loop over the two-byte chunks; a last single byte is the high one.\<close>

fun checksum_loop :: "u32 \<Rightarrow> bytes \<Rightarrow> u32" where
  "checksum_loop acc [] = acc"
| "checksum_loop acc [a] = fold_carry (acc + ucast (push_bit 8 (ucast a) :: u16))"
| "checksum_loop acc (a # b # rest) = checksum_loop (fold_carry (acc + ucast (u16_be a b))) rest"

definition checksum :: "bytes \<Rightarrow> u16" where
  "checksum data = NOT (ucast (checksum_loop 0 data))"

definition parse_v4 :: "bytes \<Rightarrow> (ip_error + ip_packet) option" where
  "parse_v4 bytes =
    (if length bytes < 20 then Some (Inl IpTruncated)
     else do {
       b0 \<leftarrow> index bytes 0;
       let header_len = unat (b0 AND 0x0F) * 4;
       if header_len < 20 then Some (Inl InvalidHeaderLength)
       else if length bytes < header_len then Some (Inl IpTruncated)
       else do {
         b2 \<leftarrow> index bytes 2;
         b3 \<leftarrow> index bytes 3;
         let total_len = unat (u16_be b2 b3);
         if total_len < header_len then Some (Inl InvalidTotalLength)
         else if total_len \<noteq> length bytes then Some (Inl (IpLengthMismatch total_len (length bytes)))
         else do {
           hdr \<leftarrow> slice bytes 0 header_len;
           if checksum hdr \<noteq> 0 then Some (Inl InvalidChecksum)
           else do {
             src \<leftarrow> slice bytes 12 16;
             dst \<leftarrow> slice bytes 16 20;
             proto \<leftarrow> index bytes 9;
             Some (Inr \<lparr>ip_bytes = bytes, ip_version_of = V4, ip_source = IpV4 (word_be src),
               ip_destination = IpV4 (word_be dst), ip_protocol = proto\<rparr>)
           }
         }
       }
     })"

definition parse_v6 :: "bytes \<Rightarrow> (ip_error + ip_packet) option" where
  "parse_v6 bytes =
    (if length bytes < 40 then Some (Inl IpTruncated)
     else do {
       b4 \<leftarrow> index bytes 4;
       b5 \<leftarrow> index bytes 5;
       let total_len = 40 + unat (u16_be b4 b5);
       if total_len \<noteq> length bytes then Some (Inl (IpLengthMismatch total_len (length bytes)))
       else do {
         src \<leftarrow> slice bytes 8 24;
         dst \<leftarrow> slice bytes 24 40;
         proto \<leftarrow> index bytes 6;
         Some (Inr \<lparr>ip_bytes = bytes, ip_version_of = V6, ip_source = IpV6 (word_be src),
           ip_destination = IpV6 (word_be dst), ip_protocol = proto\<rparr>)
       }
     })"

definition ip_parse :: "bytes \<Rightarrow> (ip_error + ip_packet) option" where
  "ip_parse bytes =
    (if bytes = [] then Some (Inl IpTruncated)
     else do {
       b0 \<leftarrow> index bytes 0;
       let version = drop_bit 4 b0;
       if version = 4 then parse_v4 bytes
       else if version = 6 then parse_v6 bytes
       else Some (Inl (UnsupportedIpVersion version))
     })"

definition is_fragment :: "ip_packet \<Rightarrow> bool option" where
  "is_fragment p =
    (case ip_version_of p of
       V4 \<Rightarrow> do {
         b6 \<leftarrow> index (ip_bytes p) 6;
         b7 \<leftarrow> index (ip_bytes p) 7;
         Some (u16_be b6 b7 AND 0x3FFF \<noteq> 0)
       }
     | V6 \<Rightarrow> Some (ip_protocol p = 44))"

subsection \<open>Routes\<close>

record route_table =
  rt_local :: "ip_addr list"
  rt_routes :: "ip_addr \<rightharpoonup> node_id"

definition route_table_new :: "ip_addr list \<Rightarrow> route_table" where
  "route_table_new addresses = \<lparr>rt_local = addresses, rt_routes = Map.empty\<rparr>"

definition set_local :: "ip_addr list \<Rightarrow> route_table \<Rightarrow> route_table" where
  "set_local addresses t = t\<lparr>rt_local := addresses\<rparr>"

definition route_insert :: "ip_addr \<Rightarrow> node_id \<Rightarrow> route_table \<Rightarrow> route_table" where
  "route_insert address peer t = t\<lparr>rt_routes := (rt_routes t)(address \<mapsto> peer)\<rparr>"

definition clear_routes :: "route_table \<Rightarrow> route_table" where
  "clear_routes t = t\<lparr>rt_routes := Map.empty\<rparr>"

definition route_remove :: "ip_addr \<Rightarrow> route_table \<Rightarrow> node_id option \<times> route_table" where
  "route_remove address t = (rt_routes t address, t\<lparr>rt_routes := (rt_routes t)(address := None)\<rparr>)"

definition route_peer_for :: "route_table \<Rightarrow> ip_addr \<Rightarrow> node_id option" where
  "route_peer_for t address = rt_routes t address"

definition is_local :: "route_table \<Rightarrow> ip_addr \<Rightarrow> bool" where
  "is_local t address \<longleftrightarrow> address \<in> set (rt_local t)"

definition validate_outbound :: "route_table \<Rightarrow> ip_packet \<Rightarrow> ip_error + node_id" where
  "validate_outbound t packet =
    (if \<not> is_local t (ip_source packet) then Inl (SourceNotLocal (ip_source packet))
     else case route_peer_for t (ip_destination packet) of
       None \<Rightarrow> Inl (DestinationUnknown (ip_destination packet))
     | Some peer \<Rightarrow> Inr peer)"

subsection \<open>Specifications\<close>

text \<open>The sum of the big-endian 16-bit words of a header, and its ones' complement reduction:
  the representative of the residue modulo 65535 in 1..65535, and 0 for 0.\<close>

fun word_sum :: "bytes \<Rightarrow> nat" where
  "word_sum [] = 0"
| "word_sum [a] = unat a * 256"
| "word_sum (a # b # rest) = unat a * 256 + unat b + word_sum rest"

definition ones_reduce :: "nat \<Rightarrow> nat" where
  "ones_reduce n = (if n = 0 then 0 else (n - 1) mod 65535 + 1)"

definition ip4_header_len :: "bytes \<Rightarrow> nat" where
  "ip4_header_len bs = 4 * (unat (bs ! 0) mod 16)"

definition ip4_ok :: "bytes \<Rightarrow> bool" where
  "ip4_ok bs \<longleftrightarrow> 20 \<le> ip4_header_len bs \<and> ip4_header_len bs \<le> length bs
     \<and> unat (bs ! 0) div 16 = 4
     \<and> unat (bs ! 2) * 256 + unat (bs ! 3) = length bs
     \<and> 65535 dvd word_sum (take (ip4_header_len bs) bs)"

definition ip4_view :: "bytes \<Rightarrow> ip_packet" where
  "ip4_view bs = \<lparr>ip_bytes = bs, ip_version_of = V4, ip_source = IpV4 (word_be (take 4 (drop 12 bs))),
     ip_destination = IpV4 (word_be (take 4 (drop 16 bs))), ip_protocol = bs ! 9\<rparr>"

definition ip6_ok :: "bytes \<Rightarrow> bool" where
  "ip6_ok bs \<longleftrightarrow> 40 \<le> length bs \<and> unat (bs ! 0) div 16 = 6
     \<and> 40 + unat (bs ! 4) * 256 + unat (bs ! 5) = length bs"

definition ip6_view :: "bytes \<Rightarrow> ip_packet" where
  "ip6_view bs = \<lparr>ip_bytes = bs, ip_version_of = V6, ip_source = IpV6 (word_be (take 16 (drop 8 bs))),
     ip_destination = IpV6 (word_be (take 16 (drop 24 bs))), ip_protocol = bs ! 6\<rparr>"

text \<open>What the users of a route table rely on.\<close>

locale route_map =
  fixes lookup :: "'t \<Rightarrow> 'a \<Rightarrow> 'p option"
    and put :: "'a \<Rightarrow> 'p \<Rightarrow> 't \<Rightarrow> 't"
    and del :: "'a \<Rightarrow> 't \<Rightarrow> 't"
    and clear :: "'t \<Rightarrow> 't"
  assumes lookup_put: "lookup (put a p t) b = (if b = a then Some p else lookup t b)"
    and lookup_del: "lookup (del a t) b = (if b = a then None else lookup t b)"
    and lookup_clear: "lookup (clear t) b = None"
begin

lemma lookup_fold_put:
  "distinct (map fst xs) \<Longrightarrow>
   lookup (fold (\<lambda>(a, p). put a p) xs t) b = (case map_of xs b of None \<Rightarrow> lookup t b | Some p \<Rightarrow> Some p)"
proof (induction xs arbitrary: t)
  case Nil
  then show ?case by simp
next
  case (Cons x xs)
  obtain a p where x: "x = (a, p)" by (cases x)
  with Cons have "map_of xs a = None" by (simp add: map_of_eq_None_iff)
  with Cons x show ?case by (auto simp: lookup_put split: option.split)
qed

lemma rebuild:
  "distinct (map fst xs) \<Longrightarrow> lookup (fold (\<lambda>(a, p). put a p) xs (clear t)) b = map_of xs b"
  by (simp add: lookup_fold_put lookup_clear split: option.split)

lemma lookup_fold_del:
  "lookup (fold del xs t) b = (if b \<in> set xs then None else lookup t b)"
  by (induction xs arbitrary: t) (auto simp: lookup_del)

end

interpretation routes: route_map route_peer_for route_insert "\<lambda>a t. snd (route_remove a t)" clear_routes
  by unfold_locales
    (auto simp: route_peer_for_def route_insert_def route_remove_def clear_routes_def)

subsection \<open>The checksum\<close>

lemma ones_reduce_le: "ones_reduce n \<le> 65535"
proof -
  have "(n - 1) mod 65535 < 65535" by (rule mod_less_divisor) simp
  then have "(n - 1) mod 65535 + 1 \<le> 65535" by linarith
  then show ?thesis by (simp only: ones_reduce_def if_distrib le0 split: if_split) simp
qed

lemma ones_reduce_id: "n \<le> 65535 \<Longrightarrow> ones_reduce n = n"
  by (simp add: ones_reduce_def)

lemma ones_reduce_shift: "0 < m \<Longrightarrow> ones_reduce (m + 65535 * q) = ones_reduce m"
  by (cases m) (simp_all add: ones_reduce_def)

lemma ones_reduce_add: "ones_reduce (ones_reduce a + b) = ones_reduce (a + b)"
proof (cases "a = 0")
  case False
  then have "a + b = ones_reduce a + b + 65535 * ((a - 1) div 65535)"
    using div_mult_mod_eq [of "a - 1" 65535] by (simp add: ones_reduce_def)
  moreover have "0 < ones_reduce a + b" using False by (simp add: ones_reduce_def)
  ultimately show ?thesis using ones_reduce_shift by metis
qed (simp add: ones_reduce_def)

lemma ones_reduce_full: "0 < n \<Longrightarrow> ones_reduce n = 65535 \<longleftrightarrow> 65535 dvd n"
proof (cases n)
  case (Suc m)
  have "m mod 65535 = 65534 \<longleftrightarrow> Suc m mod 65535 = 0"
    by (auto simp: mod_Suc)
  then show ?thesis using Suc by (simp add: ones_reduce_def dvd_eq_mod_eq_0)
qed simp

lemma unat_fold_carry: "unat (fold_carry acc) = ones_reduce (unat acc)"
proof (induction acc rule: fold_carry.induct)
  case (1 acc)
  show ?case
  proof (cases "acc > 0xFFFF")
    case True
    then have big: "65535 < unat acc" by (simp add: word_less_nat_alt)
    let ?m = "unat acc mod 65536 + unat acc div 65536"
    have split: "unat acc = ?m + 65535 * (unat acc div 65536)"
      using div_mult_mod_eq [of "unat acc" 65536] by linarith
    moreover have "0 < ?m" using big div_greater_zero_iff [of "unat acc" 65536] by linarith
    ultimately have "ones_reduce ?m = ones_reduce (unat acc)"
      using ones_reduce_shift [of ?m "unat acc div 65536"] by simp
    then show ?thesis
      using 1 [OF True] True by (simp add: fold_carry.simps [of acc] fold_carry_value)
  next
    case False
    then have "unat acc \<le> 65535" by (simp add: word_less_nat_alt)
    then show ?thesis using False by (simp add: fold_carry.simps [of acc] ones_reduce_id)
  qed
qed

lemma unat_shift_byte: "unat (push_bit 8 (ucast (a :: u8)) :: u16) = unat a * 256"
proof -
  have "unat a mod 65536 = unat a" using unat_byte_less [of a] by (intro mod_less) linarith
  then have "unat (push_bit 8 (ucast a) :: u16) = unat a * 256 mod 65536"
    unfolding unsigned_push_bit_eq
    by (simp add: push_bit_eq_mult take_bit_eq_mod unsigned_ucast_eq)
  moreover have "unat a * 256 < 65536" using unat_byte_less [of a] by linarith
  ultimately show ?thesis by simp
qed

lemma unat_add_word16:
  assumes "unat (acc :: u32) \<le> 65535"
  shows "unat (acc + ucast (w :: u16)) = unat acc + unat w"
proof -
  have b: "unat w < 65536" using unsigned_less [where 'a = nat, of w] by simp
  then have w: "unat (ucast w :: u32) = unat w"
    unfolding unsigned_ucast_eq by (intro take_bit_nat_eq_self) simp
  from b have "unat acc + unat (ucast w :: u32) < 2 ^ LENGTH(32)" using assms w by simp
  then show ?thesis using unat_add_lem [of acc "ucast w"] w by simp
qed

lemma unat_checksum_loop:
  "unat acc \<le> 65535 \<Longrightarrow> unat (checksum_loop acc data) = ones_reduce (unat acc + word_sum data)"
proof (induction acc data rule: checksum_loop.induct)
  case (3 acc a b rest)
  let ?acc = "fold_carry (acc + ucast (u16_be a b))"
  have "unat ?acc = ones_reduce (unat acc + (unat a * 256 + unat b))"
    using 3 by (simp add: unat_fold_carry unat_add_word16 unat_u16_be)
  moreover from this have "unat ?acc \<le> 65535" by (simp add: ones_reduce_le)
  ultimately show ?case using 3 by (simp add: ones_reduce_add add.assoc)
qed (simp_all add: ones_reduce_id unat_fold_carry unat_add_word16 unat_shift_byte)

lemma unat_checksum: "unat (checksum data) = 65535 - ones_reduce (word_sum data)"
proof -
  let ?r = "checksum_loop 0 data"
  have r: "unat ?r = ones_reduce (word_sum data)" by (simp add: unat_checksum_loop)
  then have "unat (ucast ?r :: u16) = ones_reduce (word_sum data)"
    using ones_reduce_le [of "word_sum data"]
    by (simp add: unsigned_ucast_eq take_bit_nat_eq_self)
  moreover have "unat (NOT (w :: u16)) = 65535 - unat w" for w
    using unat_sub [of w "- 1"]
    by (simp add: not_eq_complement minus_diff_commute [of w] unsigned_minus_1_eq_mask
        mask_eq_exp_minus_1)
  ultimately show ?thesis by (simp add: checksum_def)
qed

lemma checksum_zero_iff: "0 < word_sum data \<Longrightarrow> checksum data = 0 \<longleftrightarrow> 65535 dvd word_sum data"
  using unat_checksum [of data] ones_reduce_le [of "word_sum data"] ones_reduce_full [of "word_sum data"]
  by (auto simp: word_unat_eq_iff)

subsection \<open>The parser\<close>

lemma nibbles:
  "unat (drop_bit 4 (b :: u8)) = unat b div 16" "unat (b AND 0x0F) = unat b mod 16"
proof -
  show "unat (drop_bit 4 b) = unat b div 16"
    unfolding unsigned_drop_bit_eq using unat_byte_less [of b]
    by (simp add: drop_bit_eq_div take_bit_eq_mod)
  have "b AND 0x0F = take_bit 4 b"
    using take_bit_eq_mask [of 4 b] by (simp add: mask_eq_exp_minus_1)
  then show "unat (b AND 0x0F) = unat b mod 16"
    by (simp only: unsigned_take_bit_eq) (simp add: take_bit_eq_mod)
qed

lemma word_sum_pos: "bs \<noteq> [] \<Longrightarrow> unat (bs ! 0) \<noteq> 0 \<Longrightarrow> 0 < word_sum bs"
  by (cases bs rule: word_sum.cases) auto

lemma parse_v4_long:
  assumes "20 \<le> length bs"
  shows "parse_v4 bs = Some
    (let hl = ip4_header_len bs; tl = unat (bs ! 2) * 256 + unat (bs ! 3) in
     if hl < 20 then Inl InvalidHeaderLength
     else if length bs < hl then Inl IpTruncated
     else if tl < hl then Inl InvalidTotalLength
     else if tl \<noteq> length bs then Inl (IpLengthMismatch tl (length bs))
     else if checksum (take hl bs) \<noteq> 0 then Inl InvalidChecksum
     else Inr (ip4_view bs))"
proof -
  have [simp]: "i < 20 \<Longrightarrow> index bs i = Some (bs ! i)" for i
    using assms by simp
  have "unat (bs ! 0 AND 0x0F) * 4 = ip4_header_len bs"
    by (simp add: nibbles ip4_header_len_def)
  then show ?thesis
    using assms by (simp add: parse_v4_def Let_def unat_u16_be ip4_view_def)
qed

lemma parse_v6_long:
  assumes "40 \<le> length bs"
  shows "parse_v6 bs = Some
    (let tl = 40 + (unat (bs ! 4) * 256 + unat (bs ! 5)) in
     if tl \<noteq> length bs then Inl (IpLengthMismatch tl (length bs)) else Inr (ip6_view bs))"
proof -
  have [simp]: "i < 40 \<Longrightarrow> index bs i = Some (bs ! i)" for i
    using assms by simp
  show ?thesis
    using assms by (simp add: parse_v6_def Let_def unat_u16_be ip6_view_def)
qed

lemma parse_v4_total: "parse_v4 bs \<noteq> None"
  by (cases "20 \<le> length bs") (simp_all add: parse_v4_long, simp add: parse_v4_def)

lemma parse_v6_total: "parse_v6 bs \<noteq> None"
  by (cases "40 \<le> length bs") (simp_all add: parse_v6_long, simp add: parse_v6_def)

lemma ip_parse_total: "ip_parse bs \<noteq> None"
  using parse_v4_total parse_v6_total by (auto simp: ip_parse_def Let_def)

lemma parse_v4_iff:
  assumes "unat (bs ! 0) div 16 = 4"
  shows "parse_v4 bs = Some (Inr p) \<longleftrightarrow> ip4_ok bs \<and> p = ip4_view bs"
proof (cases "20 \<le> length bs")
  case long: True
  show ?thesis
  proof (cases "20 \<le> ip4_header_len bs \<and> ip4_header_len bs \<le> length bs")
    case True
    then have "0 < word_sum (take (ip4_header_len bs) bs)"
      using assms by (intro word_sum_pos) auto
    then have "checksum (take (ip4_header_len bs) bs) = 0 \<longleftrightarrow>
        65535 dvd word_sum (take (ip4_header_len bs) bs)"
      by (rule checksum_zero_iff)
    then show ?thesis
      using True assms by (auto simp: parse_v4_long [OF long] Let_def ip4_ok_def)
  next
    case False
    then show ?thesis by (auto simp: parse_v4_long [OF long] Let_def ip4_ok_def)
  qed
next
  case False
  then show ?thesis by (simp add: parse_v4_def ip4_ok_def)
qed

lemma parse_v6_iff:
  assumes "unat (bs ! 0) div 16 = 6"
  shows "parse_v6 bs = Some (Inr p) \<longleftrightarrow> ip6_ok bs \<and> p = ip6_view bs"
proof (cases "40 \<le> length bs")
  case True
  then show ?thesis using assms by (auto simp: parse_v6_long Let_def ip6_ok_def)
next
  case False
  then show ?thesis by (simp add: parse_v6_def ip6_ok_def)
qed

lemma ip_parse_iff:
  "ip_parse bs = Some (Inr p) \<longleftrightarrow> (ip4_ok bs \<and> p = ip4_view bs) \<or> (ip6_ok bs \<and> p = ip6_view bs)"
proof (cases bs)
  case Nil
  then show ?thesis by (simp add: ip_parse_def ip4_ok_def ip6_ok_def)
next
  case (Cons b rest)
  have ver: "drop_bit 4 b = 4 \<longleftrightarrow> unat b div 16 = 4" "drop_bit 4 b = 6 \<longleftrightarrow> unat b div 16 = 6"
    by (simp_all add: word_unat_eq_iff nibbles)
  consider "unat b div 16 = 4" | "unat b div 16 = 6" | "unat b div 16 \<noteq> 4" "unat b div 16 \<noteq> 6"
    by blast
  then show ?thesis
  proof cases
    case 1
    then show ?thesis using Cons parse_v4_iff [of bs p] by (simp add: ip_parse_def ver ip6_ok_def)
  next
    case 2
    then show ?thesis using Cons parse_v6_iff [of bs p] by (simp add: ip_parse_def ver ip4_ok_def)
  next
    case 3
    then show ?thesis using Cons by (simp add: ip_parse_def ver ip4_ok_def ip6_ok_def)
  qed
qed

lemma ip_parse_bytes: "ip_parse bs = Some (Inr p) \<Longrightarrow> ip_bytes p = bs"
  by (auto simp: ip_parse_iff ip4_view_def ip6_view_def)

lemma is_fragment_total: "ip_parse bs = Some (Inr p) \<Longrightarrow> is_fragment p \<noteq> None"
  by (auto simp: ip_parse_iff is_fragment_def ip4_view_def ip6_view_def ip4_ok_def)

subsection \<open>Properties\<close>

text \<open>C29: parsing an IP packet never panics, accepts exactly the well-formed IPv4 packets
  (version, header length, declared length, header checksum) and IPv6 packets (version,
  declared length), and reads addresses and protocol from their places; an accepted packet
  keeps its bytes and answers the fragment question without a panic.\<close>

theorem ip_parse_exact:
  "ip_parse bs \<noteq> None
   \<and> (ip_parse bs = Some (Inr p) \<longleftrightarrow>
        (ip4_ok bs \<and> p = ip4_view bs) \<or> (ip6_ok bs \<and> p = ip6_view bs))
   \<and> (ip_parse bs = Some (Inr p) \<longrightarrow> ip_bytes p = bs \<and> is_fragment p \<noteq> None)"
  using ip_parse_total ip_parse_iff ip_parse_bytes is_fragment_total by blast

definition sample_ip6 :: bytes where
  "sample_ip6 = 0x60 # replicate 5 0 @ [17, 64] @ replicate 16 1 @ replicate 16 2"

theorem ip_parse_exact_witness:
  "ip_parse sample_ip6 = Some (Inr (ip6_view sample_ip6)) \<and> ip_bytes (ip6_view sample_ip6) = sample_ip6"
proof -
  have "ip6_ok sample_ip6" by code_simp
  then show ?thesis
    using ip_parse_exact [of sample_ip6 "ip6_view sample_ip6"] by simp
qed

text \<open>C30: the checksum loop computes the complement of the ones' complement sum of the
  16-bit words, for data of every length; in particular it never overflows.\<close>

theorem checksum_correct: "unat (checksum data) = 65535 - ones_reduce (word_sum data)"
  by (rule unat_checksum)

end
