(* ===== verification/Vela_Probe.thy ===== *)
theory Vela_Probe
  imports Vela_Crypto Vela_Ip
begin

section \<open>Probes, handshake contexts, candidates and datagram framing (vela-core)\<close>

text \<open>
  The stateless parts of \<open>vela-core/src/lib.rs\<close>: the signed connectivity probe, the context
  bound into a Noise handshake, peer and membership checks, the order in which candidates
  are tried, and the framing of encrypted datagrams. The clock is an argument
  (\<open>unix_time\<close>), and parsing a credential from JSON is the parameter \<open>cred_of_json\<close>.
\<close>

subsection \<open>Errors\<close>

datatype core_error =
    CoreIo string
  | DatagramBind bool u16 string
  | CoreProtocol proto_error
  | CoreCrypto crypto_error
  | CoreIp ip_error
  | CoreCoordination string
  | CoreStun string
  | MissingProvider
  | HybridCryptoUnavailable
  | CoreUnknownPeer node_id
  | InvalidPeer
  | InvalidProbe
  | InvalidHandshake
  | InvalidDiagnosticPing
  | InvalidKeepAlive
  | InvalidMtuProbe
  | CoreSnapshotExpired
  | NetworkMismatch
  | StaleSnapshot
  | LocalPeerMissing
  | LocalAddressMissing
  | PeerCredentialExpired

datatype send_error =
    SendUnknownPeer
  | WrongPeer
  | SendNotConnected
  | QueueFull
  | PacketTooLarge
  | SendSnapshotExpired
  | SendIp ip_error
  | SendIo string
  | SendProtocol proto_error
  | SendCrypto crypto_error

subsection \<open>Probes\<close>

record probe =
  pr_sender :: node_id
  pr_receiver :: node_id
  pr_session_id :: u64
  pr_timestamp :: u64
  pr_nonce :: u128
  pr_signature :: "512 word"

definition probe_body :: "node_id \<Rightarrow> node_id \<Rightarrow> u64 \<Rightarrow> u64 \<Rightarrow> u128 \<Rightarrow> bytes" where
  "probe_body sender receiver session_id timestamp probe_nonce =
    node_as_bytes sender @ node_as_bytes receiver @ to_be 8 session_id @ to_be 8 timestamp
    @ to_be 16 probe_nonce"

definition probe_signing_bytes :: "bytes \<Rightarrow> bytes" where
  "probe_signing_bytes data = as_bytes ''VELA-PROBE-v1'' @ data"

definition encode_probe ::
  "crypto_prims \<Rightarrow> node_id \<Rightarrow> node_id \<Rightarrow> u64 \<Rightarrow> u64 \<Rightarrow> u128 \<Rightarrow> identity \<Rightarrow> bytes" where
  "encode_probe cp sender receiver session_id timestamp probe_nonce identity =
    (let data = probe_body sender receiver session_id timestamp probe_nonce
     in data @ to_be 64 (identity_sign cp identity (probe_signing_bytes data)))"

definition decode_probe :: "bytes \<Rightarrow> core_error + probe" where
  "decode_probe data =
    (if length data \<noteq> 160 then Inl InvalidProbe
     else Inr \<lparr>pr_sender = NodeId (word_be (take 32 data)),
          pr_receiver = NodeId (word_be (take 32 (drop 32 data))),
          pr_session_id = word_be (take 8 (drop 64 data)),
          pr_timestamp = word_be (take 8 (drop 72 data)),
          pr_nonce = word_be (take 16 (drop 80 data)),
          pr_signature = word_be (take 64 (drop 96 data))\<rparr>)"

definition verify_probe :: "crypto_prims \<Rightarrow> u64 \<Rightarrow> probe \<Rightarrow> peer_info \<Rightarrow> core_error + unit" where
  "verify_probe cp unix_time probe info =
    (if pr_sender probe \<noteq> pi_node_id info then Inl InvalidProbe
     else let data = probe_body (pr_sender probe) (pr_receiver probe) (pr_session_id probe)
              (pr_timestamp probe) (pr_nonce probe)
       in if \<not> cp_ed_key_ok cp (pi_signing_public info) then Inl InvalidProbe
          else if \<not> cp_ed_verify_strict cp (pi_signing_public info) (probe_signing_bytes data)
              (pr_signature probe)
          then Inl InvalidProbe
          else if abs_diff (pr_timestamp probe) unix_time > 90 then Inl InvalidProbe
          else Inr ())"

subsection \<open>Handshake context\<close>

record handshake_context =
  hc_network_id :: u128
  hc_generation :: u64
  hc_node_id :: node_id
  hc_incarnation :: u64
  hc_virtual_ipv4 :: "u32 option"
  hc_virtual_ipv6 :: "u128 option"

definition HANDSHAKE_CONTEXT_MAGIC :: bytes where
  "HANDSHAKE_CONTEXT_MAGIC = as_bytes ''VELA-HS-v2''"

definition encode_handshake_context ::
  "u128 \<Rightarrow> node_id \<Rightarrow> u64 \<Rightarrow> u32 option \<Rightarrow> u128 option \<Rightarrow> u64 \<Rightarrow> bytes" where
  "encode_handshake_context network_id node_id incarnation virtual_ipv4 virtual_ipv6 generation =
    HANDSHAKE_CONTEXT_MAGIC @ to_be 16 network_id @ to_be 8 generation @ node_as_bytes node_id
    @ to_be 8 incarnation
    @ (case virtual_ipv4 of Some address \<Rightarrow> [1] @ to_be 4 address | None \<Rightarrow> [0] @ replicate 4 0)
    @ (case virtual_ipv6 of Some address \<Rightarrow> [1] @ to_be 16 address | None \<Rightarrow> [0] @ replicate 16 0)"

text \<open>The outer option is the panic, the inner one the \<open>Option\<close> of the source.\<close>

definition decode_handshake_context :: "bytes \<Rightarrow> handshake_context option option" where
  "decode_handshake_context bytes =
    (let magic_len = length HANDSHAKE_CONTEXT_MAGIC in
     if length bytes \<noteq> magic_len + 16 + 8 + 32 + 8 + 1 + 4 + 1 + 16
        \<or> take magic_len bytes \<noteq> HANDSHAKE_CONTEXT_MAGIC
     then Some None
     else do {
       let offset = magic_len;
       network_id \<leftarrow> slice bytes offset (offset + 16);
       let offset = offset + 16;
       generation \<leftarrow> slice bytes offset (offset + 8);
       let offset = offset + 8;
       node_id \<leftarrow> slice bytes offset (offset + 32);
       let offset = offset + 32;
       incarnation \<leftarrow> slice bytes offset (offset + 8);
       let offset = offset + 8;
       flag4 \<leftarrow> index bytes offset;
       octets4 \<leftarrow> slice bytes (offset + 1) (offset + 5);
       let offset' = offset + 5;
       flag6 \<leftarrow> index bytes offset';
       octets6 \<leftarrow> slice bytes (offset' + 1) (offset' + 17);
       Some (if flag4 \<noteq> 0 \<and> flag4 \<noteq> 1 then None
         else if flag6 \<noteq> 0 \<and> flag6 \<noteq> 1 then None
         else Some \<lparr>hc_network_id = word_be network_id, hc_generation = word_be generation,
             hc_node_id = NodeId (word_be node_id), hc_incarnation = word_be incarnation,
             hc_virtual_ipv4 = (if flag4 = 0 then None else Some (word_be octets4)),
             hc_virtual_ipv6 = (if flag6 = 0 then None else Some (word_be octets6))\<rparr>)
     })"

text \<open>\<open>validate_handshake_context\<close>, with the network id the node expects.\<close>

definition validate_handshake_context ::
  "u128 \<Rightarrow> bytes \<Rightarrow> node_id \<Rightarrow> peer_info \<Rightarrow> (core_error + unit) option" where
  "validate_handshake_context expected_network_id bytes sender peer =
    (case decode_handshake_context bytes of
       None \<Rightarrow> None
     | Some None \<Rightarrow> Some (Inl InvalidHandshake)
     | Some (Some context) \<Rightarrow>
        let valid = hc_network_id context = expected_network_id
            \<and> hc_node_id context = sender
            \<and> hc_node_id context = pi_node_id peer
            \<and> hc_incarnation context = pi_incarnation peer
            \<and> hc_virtual_ipv4 context = pi_virtual_ipv4 peer
            \<and> hc_virtual_ipv6 context = pi_virtual_ipv6 peer
        in if \<not> valid then Some (Inl InvalidHandshake) else Some (Inr ()))"

subsection \<open>Peers and membership\<close>

type_synonym cred_parser = "bytes \<Rightarrow> membership_credential option"

definition validate_peer_info :: "hash_fn \<Rightarrow> peer_info \<Rightarrow> core_error + unit" where
  "validate_peer_info blake3 info =
    (if NodeId (blake3 (to_be 32 (pi_signing_public info))) \<noteq> pi_node_id info then Inl InvalidPeer
     else Inr ())"

definition membership_expires_at :: "cred_parser \<Rightarrow> peer_info \<Rightarrow> (256 word) option \<Rightarrow> u64" where
  "membership_expires_at cred_of_json info server_public_key =
    (if server_public_key = None then - 1
     else case cred_of_json (pi_credential info) of
       None \<Rightarrow> 0
     | Some credential \<Rightarrow> mc_expires_at credential)"

definition validate_peer_membership ::
  "crypto_prims \<Rightarrow> cred_parser \<Rightarrow> u64 \<Rightarrow> peer_info \<Rightarrow> (256 word) option \<Rightarrow> core_error + unit" where
  "validate_peer_membership cp cred_of_json unix_time info server_public_key =
    (case server_public_key of
       None \<Rightarrow> Inr ()
     | Some key \<Rightarrow>
    (case cred_of_json (pi_credential info) of
       None \<Rightarrow> Inl InvalidPeer
     | Some credential \<Rightarrow>
    (case credential_verify cp credential key unix_time of
       Inl _ \<Rightarrow> Inl PeerCredentialExpired
     | Inr _ \<Rightarrow>
        if mc_node_id credential \<noteq> pi_node_id info
           \<or> mc_signing_public credential \<noteq> pi_signing_public info
           \<or> mc_noise_public credential \<noteq> pi_noise_public info
        then Inl InvalidPeer
        else Inr ())))"

subsection \<open>Candidates\<close>

definition find_candidate :: "candidate list \<Rightarrow> socket_addr \<Rightarrow> candidate option" where
  "find_candidate candidates address = find (\<lambda>c. candidate_address c = address) candidates"

definition candidate_type :: "candidate list \<Rightarrow> socket_addr \<Rightarrow> string" where
  "candidate_type candidates address =
    (case find_candidate candidates address of
       None \<Rightarrow> ''peer_reflexive''
     | Some (Host _) \<Rightarrow> ''host''
     | Some (ServerReflexive _) \<Rightarrow> ''server_reflexive''
     | Some (PeerReflexive _) \<Rightarrow> ''peer_reflexive'')"

text \<open>\<open>Ipv4Addr::is_private\<close> (10/8, 172.16/12, 192.168/16) and \<open>Ipv6Addr::is_unique_local\<close>
  (fc00::/7).\<close>

definition is_private_address :: "socket_addr \<Rightarrow> bool" where
  "is_private_address address =
    (case sock_ip address of
       IpV4 a \<Rightarrow> drop_bit 24 a = 10 \<or> drop_bit 20 a = 0xAC1 \<or> drop_bit 16 a = 0xC0A8
     | IpV6 a \<Rightarrow> drop_bit 112 a AND 0xFE00 = 0xFC00)"

fun candidate_priority :: "candidate \<Rightarrow> u8" where
  "candidate_priority (Host address) = (if is_private_address address then 0 else 1)"
| "candidate_priority (PeerReflexive address) = 2"
| "candidate_priority (ServerReflexive address) = 3"

definition add_candidate :: "candidate \<Rightarrow> candidate list \<Rightarrow> candidate list" where
  "add_candidate candidate ordered =
    (case position (\<lambda>e. candidate_address e = candidate_address candidate) ordered of
       None \<Rightarrow> ordered @ [candidate]
     | Some existing_index \<Rightarrow>
        if candidate_priority candidate < candidate_priority (ordered ! existing_index)
        then ordered[existing_index := candidate] else ordered)"

definition ordered_connection_candidates :: "candidate list \<Rightarrow> candidate list" where
  "ordered_connection_candidates candidates =
    sort_key candidate_priority (fold add_candidate candidates [])"

subsection \<open>Datagrams\<close>

text \<open>\<open>encoded_header\<close> writes the header into a zeroed array, always with the current version.\<close>

definition copy_at :: "nat \<Rightarrow> bytes \<Rightarrow> bytes \<Rightarrow> bytes" where
  "copy_at i src dst = take i dst @ src @ drop (i + length src) dst"

definition encoded_header :: "header \<Rightarrow> bytes" where
  "encoded_header h =
    (let bytes = replicate HEADER_LEN 0;
         bytes = copy_at 0 MAGIC bytes;
         bytes = bytes[4 := PROTOCOL_VERSION];
         bytes = bytes[5 := packet_type_code (hdr_packet_type h)];
         bytes = copy_at 6 (to_be 2 (hdr_flags h)) bytes;
         bytes = copy_at 8 (to_be 8 (hdr_session_id h)) bytes;
         bytes = copy_at 16 (to_be 8 (hdr_sequence h)) bytes;
         bytes = copy_at 24 (to_be 2 (hdr_payload_len h)) bytes
     in bytes)"

definition encrypt_payload ::
  "crypto_prims \<Rightarrow> u64 \<Rightarrow> session_cipher \<Rightarrow> packet_type \<Rightarrow> u64 \<Rightarrow> bytes \<Rightarrow> core_error + bytes" where
  "encrypt_payload cp session_id cipher packet_type sequence payload =
    (case header_new packet_type session_id sequence (length payload + 16) of
       Inl e \<Rightarrow> Inl (CoreProtocol e)
     | Inr header \<Rightarrow>
    (case encrypt cp cipher sequence (encoded_header header) payload of
       Inl e \<Rightarrow> Inl (CoreCrypto e)
     | Inr ct \<Rightarrow> Inr ct))"

record data_packet =
  dp_header :: header
  dp_encrypted_len :: nat
  dp_payload :: bytes
  dp_source :: socket_addr

definition decode_data_packet :: "bytes \<Rightarrow> header \<Rightarrow> socket_addr \<Rightarrow> proto_error + data_packet" where
  "decode_data_packet input header source =
    (let e = HEADER_LEN + unat (hdr_payload_len header) in
     if length input < e then Inl Truncated
     else if length input \<noteq> e then Inl TrailingBytes
     else let payload = drop HEADER_LEN input in
       Inr \<lparr>dp_header = header, dp_encrypted_len = length payload, dp_payload = payload,
            dp_source = source\<rparr>)"

text \<open>What a list \<open>out\<close> of candidates keeps of the list \<open>xs\<close> it was built from.\<close>

definition best_of :: "candidate list \<Rightarrow> candidate list \<Rightarrow> bool" where
  "best_of xs out \<longleftrightarrow> distinct (map candidate_address out) \<and> set out \<subseteq> set xs
     \<and> (\<forall>d \<in> set xs. \<exists>c \<in> set out. candidate_address c = candidate_address d
          \<and> candidate_priority c \<le> candidate_priority d)"

subsection \<open>Lemmas\<close>

lemma length_probe_body [simp]: "length (probe_body s r i t n) = 96"
  by (simp add: probe_body_def node_as_bytes_def)

lemma probe_split: "160 = length data \<Longrightarrow> data = take 32 data @ take 32 (drop 32 data) @ take 8 (drop 64 data)
    @ take 8 (drop 72 data) @ take 16 (drop 80 data) @ take 64 (drop 96 data)"
  using take_split [of 32 128 data] take_split [of 32 96 "drop 32 data"]
    take_split [of 8 88 "drop 64 data"] take_split [of 8 80 "drop 72 data"]
    take_split [of 16 64 "drop 80 data"] by simp

lemma decode_probe_iff:
  "decode_probe data = Inr p \<longleftrightarrow>
   data = probe_body (pr_sender p) (pr_receiver p) (pr_session_id p) (pr_timestamp p) (pr_nonce p)
     @ to_be 64 (pr_signature p)"
proof
  assume "decode_probe data = Inr p"
  then show "data = probe_body (pr_sender p) (pr_receiver p) (pr_session_id p) (pr_timestamp p) (pr_nonce p)
     @ to_be 64 (pr_signature p)"
    using probe_split [of data]
    by (auto simp: decode_probe_def probe_body_def node_as_bytes_def split: if_splits)
next
  assume d: "data = probe_body (pr_sender p) (pr_receiver p) (pr_session_id p) (pr_timestamp p) (pr_nonce p)
     @ to_be 64 (pr_signature p)"
  then have "length data = 160" by simp
  then show "decode_probe data = Inr p"
    by (simp add: decode_probe_def) (simp add: d probe_body_def node_as_bytes_def)
qed

lemma decode_encode_context:
  "decode_handshake_context (encode_handshake_context net n inc v4 v6 gen) =
   Some (Some \<lparr>hc_network_id = net, hc_generation = gen, hc_node_id = n, hc_incarnation = inc,
     hc_virtual_ipv4 = v4, hc_virtual_ipv6 = v6\<rparr>)"
proof -
  have len: "length (encode_handshake_context net n inc v4 v6 gen) = 96"
    by (simp add: encode_handshake_context_def HANDSHAKE_CONTEXT_MAGIC_def node_as_bytes_def
        split: option.split)
  show ?thesis
    unfolding decode_handshake_context_def Let_def
    by (simp add: len HANDSHAKE_CONTEXT_MAGIC_def)
      (auto simp: encode_handshake_context_def HANDSHAKE_CONTEXT_MAGIC_def node_as_bytes_def
        nth_append split: option.split)
qed

lemma decode_context_total: "decode_handshake_context bs \<noteq> None"
proof (cases "length bs = 96")
  case True
  then have [simp]: "i < 96 \<Longrightarrow> index bs i = Some (bs ! i)" for i by simp
  show ?thesis using True
    by (simp add: decode_handshake_context_def Let_def HANDSHAKE_CONTEXT_MAGIC_def)
next
  case False
  then show ?thesis by (simp add: decode_handshake_context_def Let_def HANDSHAKE_CONTEXT_MAGIC_def)
qed

lemma replicate_numeral: "replicate (numeral k) x = x # replicate (pred_numeral k) x"
  by (simp add: numeral_eq_Suc)

lemma encoded_header_eq: "encoded_header h = header_encode (h\<lparr>hdr_version := PROTOCOL_VERSION\<rparr>) []"
  by (simp add: encoded_header_def copy_at_def Let_def header_encode_def HEADER_LEN_def MAGIC_def
      list_update_append replicate_numeral)

lemma header_new_encoded:
  "header_new t sid seq len = Inr h \<Longrightarrow> encoded_header h = header_encode h []"
  unfolding encoded_header_eq by (auto simp: header_new_def split: if_splits)

lemma decode_data_packet_eq:
  assumes "header_decode input = Inr h"
  shows "decode_data_packet input h src =
    (case wire_packet_decode input of
       Inl e \<Rightarrow> Inl e
     | Inr w \<Rightarrow> Inr \<lparr>dp_header = wp_header w, dp_encrypted_len = length (wp_payload w),
         dp_payload = wp_payload w, dp_source = src\<rparr>)"
  using assms by (simp add: decode_data_packet_def wire_packet_decode_def Let_def HEADER_LEN_def)

subsection \<open>Candidate order\<close>

lemma best_of_replace:
  assumes "best_of xs out" and i: "i < length out" "candidate_address (out ! i) = candidate_address c"
    and better: "candidate_priority c < candidate_priority (out ! i)"
  shows "best_of (xs @ [c]) (out[i := c])"
proof -
  let ?out = "out[i := c]"
  have "map candidate_address ?out = map candidate_address out"
    using i by (simp add: map_update list_update_same_conv)
  then have "distinct (map candidate_address ?out)" using assms by (simp add: best_of_def)
  moreover have "set ?out \<subseteq> set (xs @ [c])"
    using assms set_update_subset_insert [of out i c] by (auto simp: best_of_def)
  moreover have "\<exists>e \<in> set ?out. candidate_address e = candidate_address d
      \<and> candidate_priority e \<le> candidate_priority d" if d: "d \<in> set xs" for d
  proof -
    obtain e where e: "e \<in> set out" "candidate_address e = candidate_address d"
        "candidate_priority e \<le> candidate_priority d"
      using assms(1) d by (auto simp: best_of_def)
    then obtain j where j: "j < length out" "out ! j = e" by (auto simp: in_set_conv_nth)
    show ?thesis
    proof (cases "j = i")
      case True
      have "c \<in> set ?out" using i by (simp add: set_update_memI)
      then show ?thesis using True j e i better by force
    next
      case False
      then have "e \<in> set ?out" using j by (metis length_list_update nth_list_update_neq nth_mem)
      then show ?thesis using e by blast
    qed
  qed
  moreover have "c \<in> set ?out" using i by (simp add: set_update_memI)
  ultimately show ?thesis by (auto simp: best_of_def)
qed

lemma best_of_add:
  assumes "best_of xs out"
  shows "best_of (xs @ [c]) (add_candidate c out)"
proof (cases "position (\<lambda>e. candidate_address e = candidate_address c) out")
  case None
  then have "candidate_address c \<notin> candidate_address ` set out" by (auto simp: position_None)
  then show ?thesis using assms None by (auto simp: best_of_def add_candidate_def)
next
  case (Some i)
  then have i: "i < length out" "candidate_address (out ! i) = candidate_address c"
    using position_Some by fastforce+
  show ?thesis
  proof (cases "candidate_priority c < candidate_priority (out ! i)")
    case True
    then show ?thesis using best_of_replace [OF assms i] Some by (simp add: add_candidate_def)
  next
    case False
    then have "out ! i \<in> set out" "candidate_priority (out ! i) \<le> candidate_priority c"
      using i by simp_all
    then show ?thesis using assms Some False i(2) by (auto simp: best_of_def add_candidate_def)
  qed
qed

lemma best_of_fold: "best_of xs (fold add_candidate xs [])"
proof (induction xs rule: rev_induct)
  case (snoc c xs)
  then show ?case using best_of_add by simp
qed (simp add: best_of_def)

subsection \<open>Properties\<close>

text \<open>C31: a probe decodes from exactly its encoding, and the probe an identity signs is
  accepted by every peer that holds that identity's signing key, as long as the clocks
  differ by at most ninety seconds; later it is rejected.\<close>

theorem probe_accepted_when_recent:
  assumes "signature_law cp" "pi_node_id info = sender"
    and "pi_signing_public info = cp_ed_public cp (id_signing identity)"
  shows "\<exists>p. decode_probe (encode_probe cp sender receiver sid ts n identity) = Inr p
     \<and> pr_sender p = sender \<and> pr_receiver p = receiver \<and> pr_session_id p = sid
     \<and> pr_timestamp p = ts \<and> pr_nonce p = n
     \<and> (verify_probe cp now p info = Inr () \<longleftrightarrow> unat (abs_diff ts now) \<le> 90)"
proof -
  let ?sig = "identity_sign cp identity (probe_signing_bytes (probe_body sender receiver sid ts n))"
  let ?p = "\<lparr>pr_sender = sender, pr_receiver = receiver, pr_session_id = sid, pr_timestamp = ts,
    pr_nonce = n, pr_signature = ?sig\<rparr>"
  have "decode_probe (encode_probe cp sender receiver sid ts n identity) = Inr ?p"
    unfolding decode_probe_iff by (simp add: encode_probe_def Let_def)
  moreover have "verify_probe cp now ?p info = Inr () \<longleftrightarrow> unat (abs_diff ts now) \<le> 90"
    using assms
    by (auto simp: verify_probe_def Let_def signature_law_def identity_sign_def word_less_nat_alt)
  ultimately show ?thesis by force
qed

theorem probe_accepted_when_recent_witness:
  "\<exists>p. decode_probe (encode_probe sample_prims (NodeId 4) (NodeId 5) 6 1000 8
        \<lparr>id_signing = 2, id_noise_static = 3\<rparr>) = Inr p
     \<and> verify_probe sample_prims 1090 p (sample_peer\<lparr>pi_node_id := NodeId 4, pi_signing_public := 3\<rparr>) = Inr ()"
proof -
  have "pi_signing_public (sample_peer\<lparr>pi_node_id := NodeId 4, pi_signing_public := 3\<rparr>) =
      cp_ed_public sample_prims (id_signing \<lparr>id_signing = 2, id_noise_static = 3\<rparr>)"
    by (simp add: sample_prims_def)
  from probe_accepted_when_recent [OF sample_signature_law _ this, of "NodeId 4" "NodeId 5" 6 1000 8 1090]
  show ?thesis by (auto simp: abs_diff_def)
qed

text \<open>C32: the handshake context survives encoding and decoding, and decoding never panics.
  The responder accepts the context of a peer exactly when network id, node id,
  incarnation and virtual addresses are those it knows; the generation is not compared.\<close>

theorem handshake_context_round_trip:
  "decode_handshake_context (encode_handshake_context net n inc v4 v6 gen) =
     Some (Some \<lparr>hc_network_id = net, hc_generation = gen, hc_node_id = n, hc_incarnation = inc,
       hc_virtual_ipv4 = v4, hc_virtual_ipv6 = v6\<rparr>)
   \<and> decode_handshake_context bs \<noteq> None
   \<and> (validate_handshake_context expected (encode_handshake_context net n inc v4 v6 gen) sender peer = Some (Inr ())
      \<longleftrightarrow> net = expected \<and> n = sender \<and> n = pi_node_id peer \<and> inc = pi_incarnation peer
        \<and> v4 = pi_virtual_ipv4 peer \<and> v6 = pi_virtual_ipv6 peer)"
  by (simp add: decode_encode_context decode_context_total validate_handshake_context_def Let_def)

text \<open>C33: the connection candidates are one per address, namely the one of the best
  priority the peer announced for that address, no address is lost, and they are ordered by
  priority: private host addresses, other host addresses, peer-reflexive, server-reflexive.\<close>

theorem ordered_candidates_correct:
  "best_of xs (ordered_connection_candidates xs)
   \<and> sorted (map candidate_priority (ordered_connection_candidates xs))"
proof -
  have "distinct (map candidate_address (sort_key candidate_priority ys)) \<longleftrightarrow>
      distinct (map candidate_address ys)" for ys
    by (simp add: distinct_map)
  then show ?thesis
    using best_of_fold [of xs] by (simp add: best_of_def ordered_connection_candidates_def)
qed

text \<open>C34: the fast framing of data packets agrees with the wire codec: the header bytes
  authenticated by the cipher are the encoded header, and a datagram whose header decodes
  is split into header and payload exactly as the packet decoder splits it.\<close>

theorem data_framing_agrees:
  "(header_new t sid seq len = Inr h \<longrightarrow> encoded_header h = header_encode h [])
   \<and> (header_decode input = Inr h' \<longrightarrow>
       decode_data_packet input h' src =
         (case wire_packet_decode input of
            Inl e \<Rightarrow> Inl e
          | Inr w \<Rightarrow> Inr \<lparr>dp_header = wp_header w, dp_encrypted_len = length (wp_payload w),
              dp_payload = wp_payload w, dp_source = src\<rparr>))"
  using header_new_encoded decode_data_packet_eq by blast

theorem data_framing_agrees_witness:
  "\<exists>h. header_new Data 1 2 0 = Inr h \<and> encoded_header h = header_encode h []
     \<and> (\<exists>p. decode_data_packet (header_encode h []) h (SockV4 1 2) = Inr p)"
proof -
  obtain h where h: "header_new Data 1 2 0 = Inr h" by (simp add: header_new_def)
  then have dec: "header_decode (header_encode h []) = Inr h"
    using header_decode_encode [of h "[]"] by (auto simp: header_new_def)
  then have "wire_packet_decode (header_encode h []) = Inr \<lparr>wp_header = h, wp_payload = []\<rparr>"
    using h by (auto simp: wire_packet_decode_def header_new_def HEADER_LEN_def)
  then show ?thesis
    using data_framing_agrees [of Data 1 2 0 h "header_encode h []" h "SockV4 1 2"] h dec by auto
qed

end
