(* ===== verification/Vela_Replay.thy ===== *)
theory Vela_Replay
  imports Vela_Prelude
begin

section \<open>The replay window (vela-core)\<close>

text \<open>
  \<open>ReplayWindow\<close> of \<open>vela-core/src/lib.rs\<close>: the highest sequence number of a session and a bit
  map of the 1024 numbers below it, kept in sixteen 64-bit words that are shifted when the
  highest number moves. The specification is a set of accepted numbers; the refinement
  relation \<open>replay_rel\<close> ties the words to it, and each operation preserves it.
\<close>

subsection \<open>The window\<close>

definition REPLAY_WINDOW_SIZE :: nat where
  "REPLAY_WINDOW_SIZE = 1024"

definition REPLAY_WORDS :: nat where
  "REPLAY_WORDS = REPLAY_WINDOW_SIZE div 64"

record replay_window =
  rw_highest :: "u64 option"
  rw_bits :: "u64 list"

definition replay_default :: replay_window where
  "replay_default = \<lparr>rw_highest = None, rw_bits = replicate REPLAY_WORDS 0\<rparr>"

text \<open>The body of the loop of \<open>shift_left\<close>: one word of the new map from two of the old.\<close>

definition shift_word :: "u64 list \<Rightarrow> nat \<Rightarrow> nat \<Rightarrow> nat \<Rightarrow> u64 list \<Rightarrow> u64 list" where
  "shift_word old word_shift bit_shift i bits =
    (let bits1 = bits[i := bits ! i OR push_bit bit_shift (old ! (i - word_shift))] in
     if bit_shift \<noteq> 0 \<and> i > word_shift
     then bits1[i := bits1 ! i OR drop_bit (64 - bit_shift) (old ! (i - word_shift - 1))]
     else bits1)"

definition shift_left :: "u64 \<Rightarrow> u64 list \<Rightarrow> u64 list" where
  "shift_left shift bits =
    (if unat shift \<ge> REPLAY_WINDOW_SIZE then replicate REPLAY_WORDS 0
     else let word_shift = unat shift div 64; bit_shift = unat shift mod 64 in
       fold (shift_word bits word_shift bit_shift) (rev [word_shift..<REPLAY_WORDS])
         (replicate REPLAY_WORDS 0))"

definition replay_accept :: "replay_window \<Rightarrow> u64 \<Rightarrow> bool \<times> replay_window" where
  "replay_accept w sequence =
    (case rw_highest w of
       None \<Rightarrow> (True, \<lparr>rw_highest = Some sequence, rw_bits = (rw_bits w)[0 := 1]\<rparr>)
     | Some highest \<Rightarrow>
        if sequence > highest then
          let bits = shift_left (sequence - highest) (rw_bits w) in
          (True, \<lparr>rw_highest = Some sequence, rw_bits = bits[0 := bits ! 0 OR 1]\<rparr>)
        else let distance = unat (highest - sequence) in
          if distance \<ge> REPLAY_WINDOW_SIZE then (False, w)
          else let word = distance div 64; b = distance mod 64 in
            if rw_bits w ! word AND push_bit b 1 \<noteq> 0 then (False, w)
            else (True, w\<lparr>rw_bits := (rw_bits w)[word := rw_bits w ! word OR push_bit b 1]\<rparr>))"

text \<open>The answers to a sequence of numbers.\<close>

fun replay_run :: "replay_window \<Rightarrow> u64 list \<Rightarrow> bool list" where
  "replay_run w [] = []"
| "replay_run w (s # ss) = (let (ok, w') = replay_accept w s in ok # replay_run w' ss)"

subsection \<open>Specification\<close>

text \<open>\<open>S\<close> is the set of numbers accepted so far. A number is fresh when nothing was accepted
  yet, when it exceeds all of them, or when it was not accepted and lies less than the
  window size below the highest.\<close>

definition fresh :: "nat set \<Rightarrow> nat \<Rightarrow> bool" where
  "fresh S s \<longleftrightarrow> S = {} \<or> s > Max S \<or> (s \<notin> S \<and> Max S - s < 1024)"

fun fresh_run :: "nat set \<Rightarrow> nat list \<Rightarrow> bool list" where
  "fresh_run S [] = []"
| "fresh_run S (s # ss) = fresh S s # fresh_run (if fresh S s then insert s S else S) ss"

definition window_bit :: "u64 list \<Rightarrow> nat \<Rightarrow> bool" where
  "window_bit bits d = bit (bits ! (d div 64)) (d mod 64)"

definition replay_rel :: "nat set \<Rightarrow> replay_window \<Rightarrow> bool" where
  "replay_rel S w \<longleftrightarrow> finite S \<and> length (rw_bits w) = 16 \<and>
    (case rw_highest w of
       None \<Rightarrow> S = {} \<and> rw_bits w = replicate 16 0
     | Some h \<Rightarrow> S \<noteq> {} \<and> Max S = unat h \<and>
        (\<forall>d < 1024. window_bit (rw_bits w) d \<longleftrightarrow> d \<le> unat h \<and> unat h - d \<in> S))"

subsection \<open>Shifting\<close>

lemma shift_word_update:
  "i < length bits \<Longrightarrow> shift_word old ws b i bits =
    bits[i := bits ! i OR push_bit b (old ! (i - ws)) OR
      (if b \<noteq> 0 \<and> i > ws then drop_bit (64 - b) (old ! (i - ws - 1)) else 0)]"
  by (simp add: shift_word_def Let_def or.assoc)

lemma fold_updates:
  assumes "\<And>i bits. i < length bits \<Longrightarrow> step i bits = bits[i := g i (bits ! i)]"
    and "distinct xs" "\<forall>i \<in> set xs. i < length bits"
  shows "length (fold step xs bits) = length bits"
    and "j < length bits \<Longrightarrow> fold step xs bits ! j = (if j \<in> set xs then g j (bits ! j) else bits ! j)"
  using assms(2,3)
proof (induction xs arbitrary: bits)
  case (Cons x xs)
  { case 1
    then show ?case using Cons.IH(1) [of "step x bits"] assms(1) [of x bits] by simp
  next
    case 2
    then show ?case
      using Cons.IH(2) [of "step x bits"] assms(1) [of x bits] by (auto simp: nth_list_update)
  }
qed simp_all

lemma shift_left_words:
  assumes "unat shift < 1024" "j < 16"
  shows "length (shift_left shift bits) = 16"
    and "shift_left shift bits ! j =
      (if unat shift div 64 \<le> j then
         push_bit (unat shift mod 64) (bits ! (j - unat shift div 64)) OR
         (if unat shift mod 64 \<noteq> 0 \<and> j > unat shift div 64
          then drop_bit (64 - unat shift mod 64) (bits ! (j - unat shift div 64 - 1)) else 0)
       else 0)"
proof -
  let ?ws = "unat shift div 64" and ?b = "unat shift mod 64"
  let ?g = "\<lambda>i x. x OR push_bit ?b (bits ! (i - ?ws)) OR
      (if ?b \<noteq> 0 \<and> i > ?ws then drop_bit (64 - ?b) (bits ! (i - ?ws - 1)) else 0)"
  let ?z = "replicate 16 0 :: u64 list"
  have eq: "shift_left shift bits = fold (shift_word bits ?ws ?b) (rev [?ws..<16]) ?z"
    using assms(1) by (simp add: shift_left_def Let_def REPLAY_WINDOW_SIZE_def REPLAY_WORDS_def)
  note upd = fold_updates [of "shift_word bits ?ws ?b" ?g "rev [?ws..<16]" ?z, OF shift_word_update]
  show "length (shift_left shift bits) = 16"
    unfolding eq by (subst upd(1)) simp_all
  show "shift_left shift bits ! j =
      (if ?ws \<le> j then push_bit ?b (bits ! (j - ?ws)) OR
         (if ?b \<noteq> 0 \<and> j > ?ws then drop_bit (64 - ?b) (bits ! (j - ?ws - 1)) else 0)
       else 0)"
    unfolding eq using assms(2) by (subst upd(2)) simp_all
qed

lemma length_shift_left: "length (shift_left shift bits) = 16"
proof (cases "unat shift < 1024")
  case True
  then show ?thesis by (rule shift_left_words(1) [of _ 0]) simp
qed (simp add: shift_left_def REPLAY_WINDOW_SIZE_def REPLAY_WORDS_def)

lemma word_split_bit:
  fixes x y :: u64
  assumes "m < 64" "b < 64"
  shows "bit (push_bit b x OR (if b \<noteq> 0 \<and> c then drop_bit (64 - b) y else 0)) m \<longleftrightarrow>
    (if b \<le> m then bit x (m - b) else c \<and> bit y (64 + m - b))"
proof -
  have "\<not> bit y (64 - b + m)" if "b \<le> m"
    using bit_imp_le_length [of y "64 - b + m"] that assms by auto
  then show ?thesis
    using assms by (auto simp: bit_or_iff bit_push_bit_iff bit_drop_bit_eq)
qed

lemma div_mod_64: "x = r + 64 * q \<Longrightarrow> r < 64 \<Longrightarrow> x div 64 = q \<and> x mod 64 = (r :: nat)"
  by simp

lemma div_mod_sub:
  fixes i m ws b :: nat
  assumes "m < 64" "b < 64"
  shows "ws \<le> i \<Longrightarrow> b \<le> m \<Longrightarrow> (64 * i + m - (64 * ws + b)) div 64 = i - ws \<and>
      (64 * i + m - (64 * ws + b)) mod 64 = m - b"
    and "ws < i \<Longrightarrow> m < b \<Longrightarrow> (64 * i + m - (64 * ws + b)) div 64 = i - ws - 1 \<and>
      (64 * i + m - (64 * ws + b)) mod 64 = 64 + m - b"
proof -
  assume "ws \<le> i" "b \<le> m"
  then show "(64 * i + m - (64 * ws + b)) div 64 = i - ws \<and>
      (64 * i + m - (64 * ws + b)) mod 64 = m - b"
    using assms by (intro div_mod_64) (simp_all add: diff_mult_distrib2)
next
  assume *: "ws < i" "m < b"
  then obtain t where "i = Suc (ws + t)" by (auto dest!: less_imp_Suc_add)
  with * show "(64 * i + m - (64 * ws + b)) div 64 = i - ws - 1 \<and>
      (64 * i + m - (64 * ws + b)) mod 64 = 64 + m - b"
    using assms by (intro div_mod_64) auto
qed

lemma shift_left_bit:
  assumes "d < 1024"
  shows "window_bit (shift_left shift bits) d \<longleftrightarrow> unat shift \<le> d \<and> window_bit bits (d - unat shift)"
proof (cases "unat shift < 1024")
  case True
  define i m ws b where "i = d div 64" and "m = d mod 64"
    and "ws = unat shift div 64" and "b = unat shift mod 64"
  then have d: "d = 64 * i + m" "m < 64" and k: "unat shift = 64 * ws + b" "b < 64"
    by simp_all
  have i: "i < 16" using assms by (simp add: i_def less_mult_imp_div_less)
  have bit: "window_bit (shift_left shift bits) d \<longleftrightarrow>
      ws \<le> i \<and> (if b \<le> m then bit (bits ! (i - ws)) (m - b)
        else ws < i \<and> bit (bits ! (i - ws - 1)) (64 + m - b))"
    unfolding window_bit_def i_def [symmetric] m_def [symmetric] shift_left_words(2) [OF True i]
      ws_def [symmetric] b_def [symmetric]
    by (cases "ws \<le> i") (simp_all only: if_True if_False word_split_bit [OF d(2) k(2)] bit_0_eq
        bot_fun_def bot_bool_def simp_thms)
  show ?thesis
  proof (cases "ws < i \<or> ws = i \<and> b \<le> m")
    case le: True
    then have "unat shift \<le> d" unfolding d k using d(2) k(2) by auto
    moreover have "window_bit bits (d - unat shift) \<longleftrightarrow>
        (if b \<le> m then bit (bits ! (i - ws)) (m - b) else bit (bits ! (i - ws - 1)) (64 + m - b))"
      unfolding window_bit_def d(1) k(1) using le div_mod_sub [OF d(2) k(2), of ws i] by auto
    ultimately show ?thesis using bit le by auto
  next
    case False
    then have "\<not> unat shift \<le> d" unfolding d k using d(2) k(2) by auto
    then show ?thesis unfolding bit using False by auto
  qed
next
  case False
  then show ?thesis
    using assms by (simp add: shift_left_def REPLAY_WINDOW_SIZE_def REPLAY_WORDS_def window_bit_def
        less_mult_imp_div_less)
qed

subsection \<open>Refinement\<close>

lemma window_bit_set:
  assumes "length bits = 16" "e < 1024" "d < 1024"
  shows "window_bit (bits[e div 64 := bits ! (e div 64) OR push_bit (e mod 64) 1]) d \<longleftrightarrow>
    d = e \<or> window_bit bits d"
proof -
  have "e div 64 < 16" "d div 64 < 16" using assms by (simp_all add: less_mult_imp_div_less)
  moreover have "d div 64 = e div 64 \<and> d mod 64 = e mod 64 \<longleftrightarrow> d = e"
    by (metis div_mult_mod_eq)
  ultimately show ?thesis
    using assms(1)
    by (auto simp: window_bit_def nth_list_update bit_or_iff push_bit_of_1 bit_exp_iff)
qed

lemma replay_rel_default: "replay_rel {} replay_default"
  by (simp add: replay_rel_def replay_default_def REPLAY_WORDS_def REPLAY_WINDOW_SIZE_def)

lemma accept_first:
  assumes "replay_rel S w" "rw_highest w = None"
  shows "fst (replay_accept w s) = fresh S (unat s)"
    and "replay_rel (insert (unat s) S) (snd (replay_accept w s))"
proof -
  from assms have S: "S = {}" and bits: "rw_bits w = replicate 16 0"
    by (simp_all add: replay_rel_def)
  have "window_bit ((replicate 16 0)[0 := 1]) d \<longleftrightarrow> d = 0" if "d < 1024" for d
    using window_bit_set [of "replicate 16 0" 0 d] that
    by (simp add: window_bit_def less_mult_imp_div_less)
  then show "fst (replay_accept w s) = fresh S (unat s)"
    and "replay_rel (insert (unat s) S) (snd (replay_accept w s))"
    using assms(2) S bits by (auto simp: replay_accept_def fresh_def replay_rel_def)
qed

lemma accept_newer:
  assumes rel: "replay_rel S w" and h: "rw_highest w = Some h" "h < s"
  shows "fst (replay_accept w s) = fresh S (unat s)"
    and "replay_rel (insert (unat s) S) (snd (replay_accept w s))"
proof -
  from rel h have S: "finite S" "S \<noteq> {}" "Max S = unat h"
    and bits: "length (rw_bits w) = 16"
      "\<And>d. d < 1024 \<Longrightarrow> window_bit (rw_bits w) d \<longleftrightarrow> d \<le> unat h \<and> unat h - d \<in> S"
    by (simp_all add: replay_rel_def)
  have less: "unat h < unat s" using h by (simp add: word_less_nat_alt)
  have sh: "unat (s - h) = unat s - unat h" using h by (simp add: unat_sub)
  have old: "x \<le> unat h" if "x \<in> S" for x using S that by (metis Max_ge)
  let ?b = "shift_left (s - h) (rw_bits w)"
  have "window_bit (?b[0 := ?b ! 0 OR 1]) d \<longleftrightarrow> d \<le> unat s \<and> unat s - d \<in> insert (unat s) S"
    if "d < 1024" for d
  proof -
    have "window_bit (?b[0 := ?b ! 0 OR 1]) d \<longleftrightarrow> d = 0 \<or> window_bit ?b d"
      using window_bit_set [of ?b 0 d] that by (simp add: length_shift_left)
    also have "window_bit ?b d \<longleftrightarrow> unat s - unat h \<le> d \<and> d \<le> unat s \<and> unat s - d \<in> S"
      unfolding shift_left_bit [OF that] sh using bits(2) [of "d - (unat s - unat h)"] that less
      by auto
    finally show ?thesis using old [of "unat s - d"] less by auto
  qed
  moreover have "Max (insert (unat s) S) = unat s"
    using S less by (simp add: max_def)
  ultimately show "fst (replay_accept w s) = fresh S (unat s)"
    and "replay_rel (insert (unat s) S) (snd (replay_accept w s))"
    using h S less
    by (auto simp: replay_accept_def Let_def fresh_def replay_rel_def length_shift_left)
qed

lemma accept_older:
  assumes rel: "replay_rel S w" and h: "rw_highest w = Some h" "\<not> h < s"
  shows "fst (replay_accept w s) = fresh S (unat s)"
    and "replay_rel (if fresh S (unat s) then insert (unat s) S else S) (snd (replay_accept w s))"
proof -
  from rel h have S: "finite S" "S \<noteq> {}" "Max S = unat h"
    and bits: "length (rw_bits w) = 16"
      "\<And>d. d < 1024 \<Longrightarrow> window_bit (rw_bits w) d \<longleftrightarrow> d \<le> unat h \<and> unat h - d \<in> S"
    by (simp_all add: replay_rel_def)
  have le: "unat s \<le> unat h" using h by (simp add: word_less_nat_alt)
  define e where "e = unat (h - s)"
  have e: "e = unat h - unat s" using h by (simp add: e_def unat_sub)
  have fresh: "fresh S (unat s) \<longleftrightarrow> e < 1024 \<and> \<not> window_bit (rw_bits w) e"
    using S le bits(2) [of e] by (auto simp: fresh_def e)
  have acc: "replay_accept w s = (if fresh S (unat s) then
      (True, w\<lparr>rw_bits := (rw_bits w)[e div 64 := rw_bits w ! (e div 64) OR push_bit (e mod 64) 1]\<rparr>)
      else (False, w))"
    using h unfolding fresh
    by (auto simp: replay_accept_def Let_def e_def [symmetric] REPLAY_WINDOW_SIZE_def
        and_exp_eq_0_iff_not_bit window_bit_def)
  show "fst (replay_accept w s) = fresh S (unat s)"
    unfolding acc by simp
  have "Max (insert (unat s) S) = unat h"
    using S le by (simp add: max_def)
  moreover have "d \<le> unat h \<Longrightarrow> unat h - d = unat s \<longleftrightarrow> d = e" for d
    using le by (auto simp: e)
  ultimately show "replay_rel (if fresh S (unat s) then insert (unat s) S else S) (snd (replay_accept w s))"
    unfolding acc using rel h S bits fresh window_bit_set [OF bits(1), of e] le
    by (auto simp: replay_rel_def e)
qed

lemma replay_accept_refines:
  assumes "replay_rel S w"
  shows "fst (replay_accept w s) = fresh S (unat s)"
    and "replay_rel (if fresh S (unat s) then insert (unat s) S else S) (snd (replay_accept w s))"
proof -
  have "fresh S (unat s)" if "rw_highest w = None"
    using assms that by (simp add: replay_rel_def fresh_def)
  moreover have "fresh S (unat s)" if "rw_highest w = Some h" "h < s" for h
    using assms that by (simp add: replay_rel_def fresh_def word_less_nat_alt)
  ultimately show "fst (replay_accept w s) = fresh S (unat s)"
    and "replay_rel (if fresh S (unat s) then insert (unat s) S else S) (snd (replay_accept w s))"
    using accept_first [OF assms, of s] accept_newer [OF assms, of _ s] accept_older [OF assms, of _ s]
    by (cases "rw_highest w"; auto)+
qed

lemma replay_run_eq: "replay_rel S w \<Longrightarrow> replay_run w ss = fresh_run S (map unat ss)"
proof (induction ss arbitrary: S w)
  case (Cons s ss)
  note step = replay_accept_refines [OF Cons.prems, of s]
  show ?case using Cons.IH [OF step(2)] step(1) by (simp add: case_prod_beta Let_def)
qed simp

text \<open>The numbers a run accepts.\<close>

lemma fresh_not_seen: "finite S \<Longrightarrow> fresh S s \<Longrightarrow> s \<notin> S"
  by (auto simp: fresh_def dest: Max_ge)

lemma fresh_run_distinct:
  "finite S \<Longrightarrow> distinct (map fst (filter snd (zip ss (fresh_run S ss))))
   \<and> S \<inter> set (map fst (filter snd (zip ss (fresh_run S ss)))) = {}"
proof (induction ss arbitrary: S)
  case (Cons s ss)
  show ?case
  proof (cases "fresh S s")
    case True
    then show ?thesis using Cons.IH [of "insert s S"] Cons.prems fresh_not_seen [of S s] by auto
  next
    case False
    then show ?thesis using Cons.IH [of S] Cons.prems by simp
  qed
qed simp

subsection \<open>Properties\<close>

text \<open>C9: the replay window implements its specification: on every sequence of numbers it
  answers as the set of accepted numbers prescribes, accepting a number exactly when it
  exceeds all accepted ones or is new and less than 1024 below the highest.\<close>

theorem replay_window_refines_spec:
  "replay_run replay_default ss = fresh_run {} (map unat ss)"
  by (rule replay_run_eq [OF replay_rel_default])

text \<open>C10: no sequence number is ever accepted twice in a session, in whatever order packets
  arrive, are repeated or are lost.\<close>

theorem replay_never_accepts_twice:
  "distinct (map fst (filter snd (zip (map unat ss) (replay_run replay_default ss))))"
  using fresh_run_distinct [of "{}" "map unat ss"] replay_run_eq [OF replay_rel_default, of ss]
  by simp

end
