(* ===== verification/Vela_Mtu.thy ===== *)
theory Vela_Mtu
  imports Vela_Proto
begin

section \<open>Path MTU discovery and path migration (vela-core)\<close>

text \<open>
  \<open>PathMtuState\<close>, \<open>next_mtu_probe\<close> and \<open>confirm_path_migration\<close> of \<open>vela-core/src/lib.rs\<close>.
  Instants are nanoseconds since an arbitrary origin (\<open>nat\<close>; \<open>duration_since\<close> saturates at
  zero, as truncated subtraction does), and the nonce that \<open>OsRng\<close> fills in is an argument.
  The lemmas: an invariant that every operation preserves, convergence of the probing loop
  against a path of fixed capacity, and the exact condition under which a session moves to a
  new path.
\<close>

type_synonym instant = nat

subsection \<open>Path MTU state\<close>

definition MTU_PROBE_TIMEOUT :: nat where
  "MTU_PROBE_TIMEOUT = 500000000"

definition MTU_PROBE_STEP :: nat where
  "MTU_PROBE_STEP = 64"

definition MTU_PROBE_MAX_FAILURES :: u8 where
  "MTU_PROBE_MAX_FAILURES = 3"

definition MTU_PROBE_MIN_GAIN :: nat where
  "MTU_PROBE_MIN_GAIN = 8"

record pending_mtu_probe =
  mp_target :: nat
  mp_nonce :: u128
  mp_sent_at :: instant
  mp_failures :: u8

record path_mtu_state =
  pm_confirmed :: nat
  pm_upper :: nat
  pm_next :: "nat option"
  pm_pending :: "pending_mtu_probe option"

definition mtu_new :: "nat \<Rightarrow> nat \<Rightarrow> path_mtu_state" where
  "mtu_new base maximum =
    (let base = min base maximum;
         next = (if base < maximum then Some (min (base + MTU_PROBE_STEP) maximum) else None)
     in \<lparr>pm_confirmed = base, pm_upper = maximum, pm_next = next, pm_pending = None\<rparr>)"

definition mtu_reset :: "path_mtu_state \<Rightarrow> nat \<Rightarrow> nat \<Rightarrow> bool \<times> path_mtu_state" where
  "mtu_reset s base maximum =
    (let s' = mtu_new base maximum in (pm_confirmed s' \<noteq> pm_confirmed s, s'))"

definition next_mtu_probe :: "nat \<Rightarrow> nat \<Rightarrow> nat option" where
  "next_mtu_probe confirmed upper =
    (if upper \<le> confirmed + MTU_PROBE_MIN_GAIN then None
     else let midpoint = confirmed + (upper - confirmed) div 2 in
       if midpoint > confirmed then Some midpoint else None)"

text \<open>The tail of \<open>poll_probe\<close>: take the next target and send it with a new nonce.\<close>

definition send_next_probe ::
  "path_mtu_state \<Rightarrow> instant \<Rightarrow> u128 \<Rightarrow> (nat \<times> u128) option \<times> path_mtu_state" where
  "send_next_probe s now nonce =
    (case pm_next s of
       None \<Rightarrow> (None, s)
     | Some target \<Rightarrow>
        (Some (target, nonce), s\<lparr>pm_next := None, pm_pending :=
          Some \<lparr>mp_target = target, mp_nonce = nonce, mp_sent_at = now, mp_failures = 0\<rparr>\<rparr>))"

definition poll_probe ::
  "path_mtu_state \<Rightarrow> instant \<Rightarrow> u128 \<Rightarrow> (nat \<times> u128) option \<times> path_mtu_state" where
  "poll_probe s now nonce =
    (case pm_pending s of
       Some pending \<Rightarrow>
        if now - mp_sent_at pending < MTU_PROBE_TIMEOUT then (None, s)
        else if mp_failures pending + 1 < MTU_PROBE_MAX_FAILURES then
          let pending' = pending\<lparr>mp_failures := mp_failures pending + 1, mp_sent_at := now\<rparr> in
          (Some (mp_target pending', mp_nonce pending'), s\<lparr>pm_pending := Some pending'\<rparr>)
        else let upper = min (pm_upper s) (mp_target pending - 1) in
          send_next_probe (s\<lparr>pm_upper := upper, pm_pending := None,
            pm_next := next_mtu_probe (pm_confirmed s) upper\<rparr>) now nonce
     | None \<Rightarrow> send_next_probe s now nonce)"

definition acknowledge ::
  "path_mtu_state \<Rightarrow> u128 \<Rightarrow> nat \<Rightarrow> nat option \<times> path_mtu_state" where
  "acknowledge s nonce peer_max_mtu =
    (case pm_pending s of
       None \<Rightarrow> (None, s)
     | Some pending \<Rightarrow>
        if nonce \<noteq> mp_nonce pending then (None, s)
        else let previous = pm_confirmed s;
            s' = (if peer_max_mtu < mp_target pending then
                let upper = min (pm_upper s) peer_max_mtu in
                s\<lparr>pm_pending := None, pm_upper := upper,
                  pm_confirmed := min peer_max_mtu upper, pm_next := None\<rparr>
              else let confirmed = max (pm_confirmed s) (mp_target pending) in
                s\<lparr>pm_pending := None, pm_confirmed := confirmed,
                  pm_next := (if confirmed < pm_upper s
                    then Some (min (confirmed + MTU_PROBE_STEP) (pm_upper s)) else None)\<rparr>)
          in (if pm_confirmed s' \<noteq> previous then Some (pm_confirmed s') else None, s'))"

subsection \<open>Path migration\<close>

definition PATH_MIGRATION_CONFIRMATIONS :: u8 where
  "PATH_MIGRATION_CONFIRMATIONS = 3"

definition PATH_MIGRATION_WINDOW :: nat where
  "PATH_MIGRATION_WINDOW = 2000000000"

record pending_path_migration =
  ppm_path :: socket_addr
  ppm_confirmations :: u8
  ppm_last_seen :: instant

definition confirm_path_migration ::
  "socket_addr \<Rightarrow> pending_path_migration option \<Rightarrow> socket_addr \<Rightarrow> instant \<Rightarrow>
   bool \<times> pending_path_migration option" where
  "confirm_path_migration current_path pending_path source now =
    (if source = current_path then (False, pending_path)
     else let pending' =
         (case pending_path of
            Some pending \<Rightarrow>
              if ppm_path pending = source \<and> now - ppm_last_seen pending \<le> PATH_MIGRATION_WINDOW
              then pending\<lparr>ppm_confirmations := saturating_add (ppm_confirmations pending) 1,
                ppm_last_seen := now\<rparr>
              else \<lparr>ppm_path = source, ppm_confirmations = 1, ppm_last_seen = now\<rparr>
          | None \<Rightarrow> \<lparr>ppm_path = source, ppm_confirmations = 1, ppm_last_seen = now\<rparr>)
       in if ppm_confirmations pending' < PATH_MIGRATION_CONFIRMATIONS then (False, Some pending')
          else (True, None))"

text \<open>Whether a sequence of observations \<open>(source, time)\<close> of one session makes it leave its path.\<close>

fun migrates :: "socket_addr \<Rightarrow> pending_path_migration option \<Rightarrow> (socket_addr \<times> instant) list \<Rightarrow> bool" where
  "migrates path pending [] = False"
| "migrates path pending ((source, now) # obs) =
    (let (moved, pending') = confirm_path_migration path pending source now in
     moved \<or> migrates path pending' obs)"

subsection \<open>Specifications\<close>

definition mtu_inv :: "path_mtu_state \<Rightarrow> bool" where
  "mtu_inv s \<longleftrightarrow> pm_confirmed s \<le> pm_upper s
     \<and> (case pm_next s of None \<Rightarrow> True | Some n \<Rightarrow> pm_confirmed s < n \<and> n \<le> pm_upper s)
     \<and> (case pm_pending s of None \<Rightarrow> True
        | Some p \<Rightarrow> pm_confirmed s < mp_target p \<and> mp_target p \<le> pm_upper s
           \<and> mp_failures p < MTU_PROBE_MAX_FAILURES \<and> pm_next s = None)"

text \<open>
  Probing a path that carries packets of at most \<open>capacity\<close> bytes to a peer that accepts
  \<open>peer_max\<close>: the loop polls once per timeout period, and a probe that fits is answered
  before the next poll. \<open>mtu_discover k\<close> is the state after \<open>k\<close> polls.
\<close>

definition mtu_step :: "nat \<Rightarrow> nat \<Rightarrow> instant \<Rightarrow> u128 \<Rightarrow> path_mtu_state \<Rightarrow> path_mtu_state" where
  "mtu_step capacity peer_max now nonce s =
    (case poll_probe s now nonce of
       (Some (target, n), s') \<Rightarrow> if target \<le> capacity then snd (acknowledge s' n peer_max) else s'
     | (None, s') \<Rightarrow> s')"

fun mtu_discover :: "nat \<Rightarrow> nat \<Rightarrow> (nat \<Rightarrow> u128) \<Rightarrow> nat \<Rightarrow> path_mtu_state \<Rightarrow> path_mtu_state" where
  "mtu_discover capacity peer_max nonces 0 s = s"
| "mtu_discover capacity peer_max nonces (Suc k) s =
    mtu_step capacity peer_max (Suc k * MTU_PROBE_TIMEOUT) (nonces k)
      (mtu_discover capacity peer_max nonces k s)"

text \<open>The state after a target was given up.\<close>

definition give_up :: "path_mtu_state \<Rightarrow> nat \<Rightarrow> path_mtu_state" where
  "give_up s target = s\<lparr>pm_upper := target - 1, pm_pending := None,
     pm_next := next_mtu_probe (pm_confirmed s) (target - 1)\<rparr>"

text \<open>What holds between polls of a path of capacity \<open>m\<close> probed from \<open>now\<close> on, and a measure of
  the work left.\<close>

definition mtu_progress :: "nat \<Rightarrow> nat \<Rightarrow> path_mtu_state \<Rightarrow> bool" where
  "mtu_progress m now s \<longleftrightarrow> mtu_inv s \<and> pm_confirmed s \<le> m \<and> m \<le> pm_upper s
     \<and> (case pm_pending s of
          None \<Rightarrow> pm_next s = None \<longrightarrow> pm_upper s \<le> pm_confirmed s + 8
        | Some p \<Rightarrow> m < mp_target p \<and> mp_sent_at p \<le> now)"

definition mtu_work :: "path_mtu_state \<Rightarrow> nat" where
  "mtu_work s = 5 * (pm_upper s - pm_confirmed s) +
     (case pm_pending s of
        None \<Rightarrow> if pm_next s = None then 0 else 4
      | Some p \<Rightarrow> 3 - unat (mp_failures p))"

definition mtu_done :: "path_mtu_state \<Rightarrow> bool" where
  "mtu_done s \<longleftrightarrow> pm_pending s = None \<and> pm_next s = None"

definition send_answer :: "nat \<Rightarrow> nat \<Rightarrow> instant \<Rightarrow> u128 \<Rightarrow> path_mtu_state \<Rightarrow> path_mtu_state" where
  "send_answer capacity peer_max now nonce s =
    (case send_next_probe s now nonce of
       (Some (target, n), s') \<Rightarrow> if target \<le> capacity then snd (acknowledge s' n peer_max) else s'
     | (None, s') \<Rightarrow> s')"

text \<open>The length of the latest run of observations off the path (newest first) that name one
  source with no gap above the window.\<close>

fun streak :: "(socket_addr \<times> instant) list \<Rightarrow> nat" where
  "streak [] = 0"
| "streak [o1] = 1"
| "streak ((a, t) # (b, u) # rest) =
    (if a = b \<and> t - u \<le> PATH_MIGRATION_WINDOW then Suc (streak ((b, u) # rest)) else 1)"

text \<open>The pending migration records the latest streak, which is short as long as nothing moved.\<close>

definition pending_rel :: "pending_path_migration option \<Rightarrow> (socket_addr \<times> instant) list \<Rightarrow> bool" where
  "pending_rel pending off =
    (case pending of
       None \<Rightarrow> off = []
     | Some p \<Rightarrow> \<exists>rest. off = (ppm_path p, ppm_last_seen p) # rest
        \<and> streak off = unat (ppm_confirmations p) \<and> streak off < 3)"

lemmas mtu_consts = MTU_PROBE_TIMEOUT_def MTU_PROBE_STEP_def MTU_PROBE_MAX_FAILURES_def
  MTU_PROBE_MIN_GAIN_def

subsection \<open>The invariant\<close>

lemma mtu_new_inv: "mtu_inv (mtu_new base maximum)"
  by (auto simp: mtu_inv_def mtu_new_def Let_def mtu_consts)

lemma next_mtu_probe_bounds:
  "next_mtu_probe c u = Some m \<Longrightarrow> c < m \<and> m \<le> u"
  "next_mtu_probe c u = None \<longleftrightarrow> u \<le> c + 8"
  by (auto simp: next_mtu_probe_def Let_def mtu_consts split: if_splits)

lemma send_next_probe_inv:
  assumes "mtu_inv s" "pm_pending s = None"
  shows "mtu_inv (snd (send_next_probe s now nonce))"
  using assms by (auto simp: mtu_inv_def send_next_probe_def mtu_consts split: option.splits)

lemma mtu_inv_pending:
  assumes "mtu_inv s" "pm_pending s = Some p"
  shows "pm_confirmed s < mp_target p" "mp_target p \<le> pm_upper s" "pm_next s = None"
    "mp_failures p < MTU_PROBE_MAX_FAILURES" "min (pm_upper s) (mp_target p - 1) = mp_target p - 1"
  using assms by (auto simp: mtu_inv_def min_def)

lemma give_up_inv:
  assumes "mtu_inv s" "pm_pending s = Some p"
  shows "mtu_inv (give_up s (mp_target p))"
  using mtu_inv_pending [OF assms]
  by (cases "next_mtu_probe (pm_confirmed s) (mp_target p - 1)")
    (simp_all add: mtu_inv_def give_up_def next_mtu_probe_bounds(1))

lemma poll_pending:
  assumes "mtu_inv s" "pm_pending s = Some p" "MTU_PROBE_TIMEOUT \<le> now - mp_sent_at p"
  shows "poll_probe s now nonce =
    (if mp_failures p + 1 < MTU_PROBE_MAX_FAILURES
     then (Some (mp_target p, mp_nonce p),
       s\<lparr>pm_pending := Some (p\<lparr>mp_failures := mp_failures p + 1, mp_sent_at := now\<rparr>)\<rparr>)
     else send_next_probe (give_up s (mp_target p)) now nonce)"
  using assms(2,3) mtu_inv_pending(5) [OF assms(1,2)]
  by (simp add: poll_probe_def Let_def give_up_def not_less [symmetric])

lemma poll_probe_inv:
  assumes "mtu_inv s"
  shows "mtu_inv (snd (poll_probe s now nonce))"
proof (cases "pm_pending s")
  case None
  then show ?thesis using send_next_probe_inv assms by (simp add: poll_probe_def)
next
  case (Some p)
  show ?thesis
  proof (cases "MTU_PROBE_TIMEOUT \<le> now - mp_sent_at p")
    case True
    have "mtu_inv (snd (send_next_probe (give_up s (mp_target p)) now nonce))"
      using give_up_inv [OF assms Some] by (rule send_next_probe_inv) (simp add: give_up_def)
    moreover have "mtu_inv (s\<lparr>pm_pending := Some (p\<lparr>mp_failures := mp_failures p + 1, mp_sent_at := now\<rparr>)\<rparr>)"
      if "mp_failures p + 1 < MTU_PROBE_MAX_FAILURES"
      using assms Some that by (simp add: mtu_inv_def)
    ultimately show ?thesis by (simp add: poll_pending [OF assms Some True])
  next
    case False
    then show ?thesis using assms Some by (simp add: poll_probe_def)
  qed
qed

text \<open>The state after an answered probe, when the peer's own limit is no obstacle and when it is.\<close>

lemma acknowledge_pending:
  assumes "mtu_inv s" "pm_pending s = Some p"
  shows "mp_target p \<le> peer_max \<Longrightarrow> snd (acknowledge s (mp_nonce p) peer_max) =
      s\<lparr>pm_pending := None, pm_confirmed := mp_target p,
        pm_next := (if mp_target p < pm_upper s then Some (min (mp_target p + 64) (pm_upper s)) else None)\<rparr>"
    and "peer_max < mp_target p \<Longrightarrow> snd (acknowledge s (mp_nonce p) peer_max) =
      s\<lparr>pm_pending := None, pm_upper := peer_max, pm_confirmed := peer_max, pm_next := None\<rparr>"
  using assms(2) mtu_inv_pending [OF assms]
  by (simp_all add: acknowledge_def Let_def MTU_PROBE_STEP_def max_absorb2 min_absorb2)

lemma acknowledge_inv:
  assumes "mtu_inv s"
  shows "mtu_inv (snd (acknowledge s nonce peer_max))"
proof (cases "\<exists>p. pm_pending s = Some p \<and> mp_nonce p = nonce")
  case True
  then obtain p where p: "pm_pending s = Some p" "mp_nonce p = nonce" by blast
  then show ?thesis
    using mtu_inv_pending [OF assms p(1)] acknowledge_pending [OF assms p(1), of peer_max]
    by (cases "mp_target p \<le> peer_max") (auto simp: mtu_inv_def)
next
  case False
  then have "snd (acknowledge s nonce peer_max) = s"
    by (auto simp: acknowledge_def split: option.split)
  then show ?thesis using assms by simp
qed

subsection \<open>Convergence\<close>

text \<open>Sending the next target of a state and answering it if it fits.\<close>

lemma answer_next:
  assumes inv: "mtu_inv s" "pm_pending s = None" "pm_next s = Some t" and peer: "pm_upper s \<le> peer_max"
    and s': "send_next_probe s now nonce = (r, s')"
  shows "r = Some (t, nonce)"
    and "snd (acknowledge s' nonce peer_max) = s\<lparr>pm_confirmed := t,
      pm_next := (if t < pm_upper s then Some (min (t + 64) (pm_upper s)) else None)\<rparr>"
    and "s' = s\<lparr>pm_next := None, pm_pending :=
      Some \<lparr>mp_target = t, mp_nonce = nonce, mp_sent_at = now, mp_failures = 0\<rparr>\<rparr>"
proof -
  show r: "r = Some (t, nonce)" and e: "s' = s\<lparr>pm_next := None, pm_pending :=
      Some \<lparr>mp_target = t, mp_nonce = nonce, mp_sent_at = now, mp_failures = 0\<rparr>\<rparr>"
    using s' inv by (simp_all add: send_next_probe_def)
  have "mtu_inv s'" using send_next_probe_inv [OF inv(1,2), of now nonce] s' by simp
  moreover have "t \<le> peer_max" using inv peer by (simp add: mtu_inv_def)
  ultimately show "snd (acknowledge s' nonce peer_max) = s\<lparr>pm_confirmed := t,
      pm_next := (if t < pm_upper s then Some (min (t + 64) (pm_upper s)) else None)\<rparr>"
    using acknowledge_pending(1) [of s' _ peer_max] inv(2) by (simp add: e)
qed

lemma send_answer_progress:
  assumes "mtu_progress m now s" "pm_pending s = None" "pm_upper s \<le> peer_max"
    and fits: "\<forall>t \<le> pm_upper s. t \<le> capacity \<longleftrightarrow> t \<le> m"
  shows "mtu_progress m now' (send_answer capacity peer_max now' nonce s)"
    and "pm_upper (send_answer capacity peer_max now' nonce s) \<le> pm_upper s"
    and "mtu_work (send_answer capacity peer_max now' nonce s) \<le> mtu_work s
      \<and> (pm_next s \<noteq> None \<longrightarrow> mtu_work (send_answer capacity peer_max now' nonce s) < mtu_work s)"
proof -
  let ?s = "send_answer capacity peer_max now' nonce s"
  obtain r s' where rs: "send_next_probe s now' nonce = (r, s')" by (cases "send_next_probe s now' nonce")
  have inv: "mtu_inv s" and b: "pm_confirmed s \<le> m" "m \<le> pm_upper s"
    using assms(1) by (simp_all add: mtu_progress_def)
  have "mtu_progress m now' ?s \<and> pm_upper ?s \<le> pm_upper s \<and> mtu_work ?s \<le> mtu_work s
      \<and> (pm_next s \<noteq> None \<longrightarrow> mtu_work ?s < mtu_work s)"
  proof (cases "pm_next s")
    case None
    then have "?s = s" using assms(2) by (simp add: send_answer_def send_next_probe_def)
    then show ?thesis using assms None by (simp add: mtu_progress_def)
  next
    case (Some t)
    note a = answer_next [OF inv assms(2) Some assms(3) rs]
    have t: "pm_confirmed s < t" "t \<le> pm_upper s" using inv Some by (simp_all add: mtu_inv_def)
    show ?thesis
    proof (cases "t \<le> capacity")
      case True
      then have s: "?s = s\<lparr>pm_confirmed := t,
          pm_next := (if t < pm_upper s then Some (min (t + 64) (pm_upper s)) else None)\<rparr>"
        using a(1,2) rs by (simp add: send_answer_def)
      have "t \<le> m" using True fits t by blast
      then show ?thesis
        unfolding s using assms(2) Some t b by (auto simp: mtu_progress_def mtu_work_def mtu_inv_def)
    next
      case False
      then have s: "?s = s\<lparr>pm_next := None, pm_pending :=
          Some \<lparr>mp_target = t, mp_nonce = nonce, mp_sent_at = now', mp_failures = 0\<rparr>\<rparr>"
        using a(1,3) rs by (simp add: send_answer_def)
      have "m < t" using False fits t by auto
      then show ?thesis
        unfolding s using assms(2) Some t b inv
        by (simp add: mtu_progress_def mtu_work_def mtu_inv_def mtu_consts)
    qed
  qed
  then show "mtu_progress m now' ?s" "pm_upper ?s \<le> pm_upper s"
    "mtu_work ?s \<le> mtu_work s \<and> (pm_next s \<noteq> None \<longrightarrow> mtu_work ?s < mtu_work s)" by blast+
qed

lemma give_up_progress:
  assumes "mtu_progress m now s" "pm_pending s = Some p"
  shows "mtu_progress m now (give_up s (mp_target p))"
    and "mtu_work (give_up s (mp_target p)) < mtu_work s"
proof -
  have inv: "mtu_inv s" and m: "m < mp_target p" "pm_confirmed s \<le> m"
    using assms by (simp_all add: mtu_progress_def)
  note b = mtu_inv_pending [OF inv assms(2)]
  show "mtu_progress m now (give_up s (mp_target p))"
    using give_up_inv [OF inv assms(2)] m next_mtu_probe_bounds(2) [of "pm_confirmed s" "mp_target p - 1"]
    by (simp add: mtu_progress_def give_up_def)
  have "unat (mp_failures p) < 3" using b(4) by (simp add: MTU_PROBE_MAX_FAILURES_def word_less_nat_alt)
  then have "5 * (mp_target p - 1 - pm_confirmed s) + 4 <
      5 * (pm_upper s - pm_confirmed s) + (3 - unat (mp_failures p))"
    using b(1,2) by linarith
  then show "mtu_work (give_up s (mp_target p)) < mtu_work s"
    using b(3) assms(2) unfolding mtu_work_def give_up_def by auto
qed

lemma retry_progress:
  assumes "mtu_progress m now s" "pm_pending s = Some p"
    and "mp_failures p + 1 < MTU_PROBE_MAX_FAILURES" "now \<le> now'"
  defines "s' \<equiv> s\<lparr>pm_pending := Some (p\<lparr>mp_failures := mp_failures p + 1, mp_sent_at := now'\<rparr>)\<rparr>"
  shows "mtu_progress m now' s'" and "mtu_work s' < mtu_work s"
proof -
  have inv: "mtu_inv s" using assms by (simp add: mtu_progress_def)
  have f: "unat (mp_failures p) < 3"
    using mtu_inv_pending(4) [OF inv assms(2)] by (simp add: MTU_PROBE_MAX_FAILURES_def word_less_nat_alt)
  then have "unat (mp_failures p + 1) = unat (mp_failures p) + 1"
    using unat_add_lem [of "mp_failures p" 1] by simp
  then show "mtu_work s' < mtu_work s"
    using f assms(2) by (simp add: mtu_work_def s'_def)
  show "mtu_progress m now' s'"
    using assms by (simp add: mtu_progress_def mtu_inv_def s'_def)
qed

lemma mtu_step_progress:
  assumes p: "mtu_progress m now s" "pm_upper s \<le> peer_max"
    and fits: "\<forall>t \<le> pm_upper s. t \<le> capacity \<longleftrightarrow> t \<le> m"
    and later: "now + MTU_PROBE_TIMEOUT \<le> now'"
  shows "mtu_progress m now' (mtu_step capacity peer_max now' nonce s)
    \<and> pm_upper (mtu_step capacity peer_max now' nonce s) \<le> pm_upper s
    \<and> (mtu_done s \<longrightarrow> mtu_step capacity peer_max now' nonce s = s)
    \<and> (\<not> mtu_done s \<longrightarrow> mtu_work (mtu_step capacity peer_max now' nonce s) < mtu_work s)"
proof (cases "pm_pending s")
  case None
  then have step: "mtu_step capacity peer_max now' nonce s = send_answer capacity peer_max now' nonce s"
    by (simp add: mtu_step_def send_answer_def poll_probe_def)
  have "mtu_done s \<Longrightarrow> send_answer capacity peer_max now' nonce s = s"
    by (simp add: mtu_done_def send_answer_def send_next_probe_def)
  then show ?thesis
    unfolding step using send_answer_progress [OF p(1) None p(2) fits, of now' nonce] None
    by (auto simp: mtu_done_def)
next
  case (Some q)
  have inv: "mtu_inv s" and q: "m < mp_target q" "mp_sent_at q \<le> now"
    using p Some by (simp_all add: mtu_progress_def)
  note b = mtu_inv_pending [OF inv Some]
  have "\<not> mp_target q \<le> capacity" using fits b(2) q(1) by (meson not_le)
  moreover have "MTU_PROBE_TIMEOUT \<le> now' - mp_sent_at q" using q later by simp
  ultimately have step: "mtu_step capacity peer_max now' nonce s =
      (if mp_failures q + 1 < MTU_PROBE_MAX_FAILURES
       then s\<lparr>pm_pending := Some (q\<lparr>mp_failures := mp_failures q + 1, mp_sent_at := now'\<rparr>)\<rparr>
       else send_answer capacity peer_max now' nonce (give_up s (mp_target q)))"
    using poll_pending [OF inv Some, of now' nonce] by (simp add: mtu_step_def send_answer_def)
  have "pm_pending (give_up s (mp_target q)) = None" "pm_upper (give_up s (mp_target q)) \<le> pm_upper s"
    using b by (simp_all add: give_up_def)
  note answer = send_answer_progress [OF give_up_progress(1) [OF p(1) Some] this(1), of peer_max capacity now' nonce]
  have "pm_upper (give_up s (mp_target q)) \<le> peer_max"
    and "\<forall>t \<le> pm_upper (give_up s (mp_target q)). t \<le> capacity \<longleftrightarrow> t \<le> m"
    using \<open>pm_upper (give_up s (mp_target q)) \<le> pm_upper s\<close> p(2) fits by auto
  note answer = answer [OF this]
  have "now \<le> now'" using later by simp
  then show ?thesis
    unfolding step
    using answer give_up_progress(2) [OF p(1) Some] retry_progress [OF p(1) Some, of now']
      \<open>pm_upper (give_up s (mp_target q)) \<le> pm_upper s\<close> Some
    by (auto simp: mtu_done_def)
qed

lemma mtu_discover_progress:
  assumes "mtu_progress m 0 s" "pm_upper s \<le> peer_max"
    and fits: "\<forall>t \<le> pm_upper s. t \<le> capacity \<longleftrightarrow> t \<le> m"
  shows "mtu_progress m (k * MTU_PROBE_TIMEOUT) (mtu_discover capacity peer_max nonces k s)
    \<and> pm_upper (mtu_discover capacity peer_max nonces k s) \<le> pm_upper s
    \<and> (mtu_done (mtu_discover capacity peer_max nonces k s)
       \<or> mtu_work (mtu_discover capacity peer_max nonces k s) + k \<le> mtu_work s)"
proof (induction k)
  case 0
  then show ?case using assms by simp
next
  case (Suc k)
  let ?s = "mtu_discover capacity peer_max nonces k s"
  from Suc have p: "mtu_progress m (k * MTU_PROBE_TIMEOUT) ?s"
    and "pm_upper ?s \<le> peer_max" "\<forall>t \<le> pm_upper ?s. t \<le> capacity \<longleftrightarrow> t \<le> m"
    using assms(2) fits by auto
  from mtu_step_progress [OF this, of "Suc k * MTU_PROBE_TIMEOUT" "nonces k"] Suc
  show ?case by auto
qed

lemma mtu_new_progress:
  assumes "base \<le> capacity" "base \<le> maximum"
  shows "mtu_progress (min capacity maximum) 0 (mtu_new base maximum)"
    and "mtu_work (mtu_new base maximum) \<le> 5 * (maximum - base) + 4"
  using assms mtu_new_inv [of base maximum]
  by (auto simp: mtu_progress_def mtu_work_def mtu_new_def Let_def)

subsection \<open>Migration\<close>

lemma streak_pos: "0 < streak (x # xs)"
  by (cases "(x # xs)" rule: streak.cases) auto

lemma confirm_step:
  assumes "pending_rel pending off" "source \<noteq> path"
  shows "fst (confirm_path_migration path pending source now) \<longleftrightarrow> streak ((source, now) # off) \<ge> 3"
    and "\<not> fst (confirm_path_migration path pending source now) \<Longrightarrow>
      pending_rel (snd (confirm_path_migration path pending source now)) ((source, now) # off)"
proof -
  have add: "unat (saturating_add c 1) = unat c + 1" if "unat c < 3" for c :: u8
    using that by (simp add: unat_saturating_add)
  have "(fst (confirm_path_migration path pending source now) \<longleftrightarrow> streak ((source, now) # off) \<ge> 3)
    \<and> (\<not> fst (confirm_path_migration path pending source now) \<longrightarrow>
      pending_rel (snd (confirm_path_migration path pending source now)) ((source, now) # off))"
  proof (cases pending)
    case None
    then show ?thesis using assms
      by (simp add: confirm_path_migration_def pending_rel_def PATH_MIGRATION_CONFIRMATIONS_def)
  next
    case (Some p)
    then obtain rest where off: "off = (ppm_path p, ppm_last_seen p) # rest"
      and st: "streak off = unat (ppm_confirmations p)" "streak off < 3"
      using assms(1) by (auto simp: pending_rel_def)
    show ?thesis
    proof (cases "ppm_path p = source \<and> now - ppm_last_seen p \<le> PATH_MIGRATION_WINDOW")
      case True
      then have "streak ((source, now) # off) = Suc (unat (ppm_confirmations p))"
        using off st by simp
      then show ?thesis using True Some assms(2) add [of "ppm_confirmations p"] st
        by (auto simp: confirm_path_migration_def pending_rel_def Let_def
            PATH_MIGRATION_CONFIRMATIONS_def word_less_nat_alt)
    next
      case False
      then have "streak ((source, now) # off) = 1" using off by auto
      then show ?thesis using False Some assms(2)
        by (auto simp: confirm_path_migration_def pending_rel_def Let_def
            PATH_MIGRATION_CONFIRMATIONS_def)
    qed
  qed
  then show "fst (confirm_path_migration path pending source now) \<longleftrightarrow> streak ((source, now) # off) \<ge> 3"
    and "\<not> fst (confirm_path_migration path pending source now) \<Longrightarrow>
      pending_rel (snd (confirm_path_migration path pending source now)) ((source, now) # off)"
    by blast+
qed

lemma pending_rel_short: "pending_rel pending off \<Longrightarrow> streak off < 3"
  by (auto simp: pending_rel_def split: option.splits)

lemma ex_take_Cons:
  "(\<exists>n \<le> length (x # xs). P (take n (x # xs))) \<longleftrightarrow> P [] \<or> (\<exists>n \<le> length xs. P (x # take n xs))"
proof
  assume "\<exists>n \<le> length (x # xs). P (take n (x # xs))"
  then obtain n where "n \<le> length (x # xs)" "P (take n (x # xs))" by blast
  then show "P [] \<or> (\<exists>n \<le> length xs. P (x # take n xs))" by (cases n) auto
next
  assume "P [] \<or> (\<exists>n \<le> length xs. P (x # take n xs))"
  then show "\<exists>n \<le> length (x # xs). P (take n (x # xs))"
    by (elim disjE exE) (rule exI [of _ 0], simp, rule_tac x = "Suc n" in exI, simp)
qed

lemma migrates_iff:
  "pending_rel pending off \<Longrightarrow> migrates path pending obs \<longleftrightarrow>
    (\<exists>n \<le> length obs. streak (rev (filter (\<lambda>ob. fst ob \<noteq> path) (take n obs)) @ off) \<ge> 3)"
proof (induction obs arbitrary: pending off)
  case Nil
  then show ?case using pending_rel_short by fastforce
next
  case (Cons ob obs)
  obtain source now where ob: "ob = (source, now)" by (cases ob)
  note split = ex_take_Cons [where x = ob and xs = obs and
      P = "\<lambda>xs. 3 \<le> streak (rev (filter (\<lambda>ob. fst ob \<noteq> path) xs) @ off)"]
  show ?case
  proof (cases "source = path")
    case True
    then have "confirm_path_migration path pending source now = (False, pending)"
      by (simp add: confirm_path_migration_def)
    then show ?thesis unfolding split
      using Cons.IH [OF Cons.prems] pending_rel_short [OF Cons.prems] ob True by simp
  next
    case False
    note step = confirm_step [OF Cons.prems False, of now]
    show ?thesis
    proof (cases "fst (confirm_path_migration path pending source now)")
      case True
      then show ?thesis using step ob False
        unfolding split
        by (auto simp: case_prod_beta Let_def intro!: exI [of _ 0])
    next
      case no: False
      then show ?thesis
        unfolding split
        using Cons.IH [OF step(2) [OF no]] pending_rel_short [OF Cons.prems] ob False
        by (simp add: case_prod_beta Let_def)
    qed
  qed
qed

subsection \<open>Properties\<close>



text \<open>Every operation on the MTU state keeps its invariant: the confirmed size never
  exceeds the ceiling, a planned or pending target lies strictly above the confirmed size
  and not above the ceiling, at most one of the two exists, and a pending probe has failed
  fewer than three times. The invariant holds initially and after a reset.\<close>

lemma mtu_operations_keep_invariant:
  "mtu_inv (mtu_new base maximum) \<and> mtu_inv (snd (mtu_reset s base maximum))
   \<and> (mtu_inv s \<longrightarrow> mtu_inv (snd (poll_probe s now nonce))
        \<and> mtu_inv (snd (acknowledge s nonce peer_max)))"
  using mtu_new_inv poll_probe_inv acknowledge_inv by (simp add: mtu_reset_def Let_def)

lemma mtu_operations_keep_invariant_witness:
  "mtu_inv (snd (poll_probe (mtu_new 1190 1430) 5 7))"
  using mtu_operations_keep_invariant [of 1190 1430 "mtu_new 1190 1430" 5 7] by blast

text \<open>C15: a session leaves its path exactly when, at some point, the three latest packets
  that did not come from the path came from one address with gaps of at most two seconds;
  packets from the path itself neither help nor hinder.\<close>

theorem path_migration_exact:
  "migrates path None obs \<longleftrightarrow>
    (\<exists>n \<le> length obs. streak (rev (filter (\<lambda>ob. fst ob \<noteq> path) (take n obs))) \<ge> 3)"
  using migrates_iff [of None "[]" path obs] by (simp add: pending_rel_def)

end
