(* ===== verification/Vela_Node.thy ===== *)
theory Vela_Node
  imports Vela_Probe Vela_Replay Vela_Mtu "HOL-Library.AList"
begin

section \<open>The node: peers and membership (vela-core)\<close>

text \<open>
  The state of a node (\<open>Inner\<close>, \<open>PeerState\<close>, \<open>Attempt\<close>, \<open>ActiveSession\<close> of
  \<open>vela-core/src/lib.rs\<close>) and the operations that change its membership view
  (\<open>register_peer\<close>, \<open>remove_peer\<close>, \<open>apply_snapshot\<close>).

  Peers are shared objects of the source (\<open>Arc<PeerState>\<close>): the node's table of peers and its
  table of sessions point to them, and a replaced peer stays alive while a session or a task
  holds it. The model has a store \<open>nd_heap\<close>, pointers are its indices, and \<open>Arc::ptr_eq\<close> is
  equality of indices. A handler runs without interruption; the clock (\<open>unix_time\<close>,
  \<open>Instant::now\<close>), random numbers, and the outcome of each datagram sent are an environment
  argument. Datagrams handed to the socket are logged in \<open>nd_sent\<close> with their outcome, tasks
  given to \<open>tokio::spawn\<close> in \<open>nd_spawned\<close>, the values sent into one-shot channels in
  \<open>nd_ping_answers\<close> and \<open>nd_stun_answers\<close>, a channel being the number of its receiver. \<open>Notify::notify_waiters\<close> leaves no state and the lock
  \<open>connect\<close> only orders handlers; both are left out. A hash map is an association list.
\<close>

subsection \<open>State\<close>

datatype peer_candidate_state = CandPending | CandSent | CandResponded | CandFailed

record peer_candidate_attempt =
  pca_candidate :: candidate
  pca_state :: peer_candidate_state
  pca_last_sent_at :: "u64 option"
  pca_responded_at :: "u64 option"
  pca_error :: "string option"

record 'hs attempt =
  at_session_id :: u64
  at_handshake :: "'hs option"
  at_handshake_payload :: "bytes option"
  at_handshake_path :: "socket_addr option"
  at_last_handshake_at :: "instant option"
  at_started_at :: u64
  at_timeout_at :: u64
  at_candidates :: "peer_candidate_attempt list"

text \<open>A ping waiter is the number of the caller that holds the other end of the channel.\<close>

record active_session =
  as_session_id :: u64
  as_path :: socket_addr
  as_pending_path :: "pending_path_migration option"
  as_cipher :: session_cipher
  as_tx_sequence :: u64
  as_replay :: replay_window
  as_ping_waiters :: "(u128 \<times> nat) list"
  as_pending_keepalive :: "(u128 \<times> instant) option"
  as_last_rx :: instant
  as_created_at_unix :: u64
  as_created_at :: instant
  as_path_changed_at :: "u64 option"
  as_last_rtt_ms :: "u64 option"
  as_tx_bytes :: u64
  as_rx_bytes :: u64
  as_path_mtu :: path_mtu_state

record reconnect_state =
  rc_requested :: bool
  rc_running :: bool
  rc_attempts :: u8

record peer_failure_status =
  pf_reason :: string
  pf_occurred_at :: u64

record peer_path_change =
  pc_path :: socket_addr
  pc_candidate_type :: string
  pc_changed_at :: u64

record peer_receive_counters =
  pr_worker_data_packets :: u64
  pr_decrypt_failures :: u64
  pr_replay_drops :: u64
  pr_ip_parse_failures :: u64
  pr_invalid_destinations :: u64
  pr_accepted_ip_packets :: u64
  pr_event_queue_drops :: u64

record 'hs peer_state =
  ps_id :: node_id
  ps_info :: peer_info
  ps_membership_expires_at :: u64
  ps_is_online :: bool
  ps_last_failure :: "peer_failure_status option"
  ps_path_history :: "peer_path_change list"
  ps_connecting :: bool
  ps_attempt :: "'hs attempt option"
  ps_active :: "active_session option"
  ps_reconnect :: reconnect_state
  ps_queue :: "bytes list"
  ps_receive :: peer_receive_counters

datatype vela_event =
    PeerConnecting node_id
  | PeerConnectionRequested node_id
  | PeerConnected node_id
  | PeerDisconnected node_id
  | PeerReconnectRequested node_id
  | PeerUnreachable node_id
  | PathChanged node_id socket_addr
  | PathMtuChanged node_id socket_addr nat
  | TransportFailed "bool option" string
  | IpPacketEvent node_id ip_packet

datatype traffic_direction = DirSent | DirReceived

record traffic_sample =
  ts_peer :: "node_id option"
  ts_direction :: traffic_direction
  ts_path :: socket_addr
  ts_payload_bytes :: nat
  ts_encrypted_bytes :: nat
  ts_wire_bytes :: nat

record node_config =
  nc_max_payload_size :: nat
  nc_per_peer_queue_limit :: nat
  nc_keepalive_interval :: nat
  nc_connect_timeout :: nat
  nc_reconnect_backoff :: nat
  nc_crypto_policy :: crypto_policy
  nc_server_public_key :: "256 word option"
  nc_network_id :: u128
  nc_virtual_ipv4 :: "u32 option"
  nc_virtual_ipv6 :: "u128 option"
  nc_virtual_mtu :: nat

record transport_receive_counters =
  tr_udp_datagrams :: u64
  tr_stun_datagrams :: u64
  tr_data_datagrams :: u64
  tr_data_queue_drops :: u64
  tr_worker_data_datagrams :: u64
  tr_unassociated_data_datagrams :: u64

datatype node_task = ReconnectLoop nat | ConnectTask node_id

record 'hs node =
  nd_identity :: identity
  nd_incarnation :: u64
  nd_config :: node_config
  nd_observer :: bool
  nd_heap :: "'hs peer_state list"
  nd_peers :: "(node_id \<times> nat) list"
  nd_routes :: route_table
  nd_network_id :: u128
  nd_snapshot_generation :: u64
  nd_snapshot_expires_at :: u64
  nd_local_ipv4 :: "u32 option"
  nd_local_ipv6 :: "u128 option"
  nd_control :: "vela_event list"
  nd_data :: "vela_event list"
  nd_stun_waiters :: "(96 word \<times> instant \<times> socket_addr \<times> nat) list"
  nd_workers :: "data_packet list list"
  nd_sessions :: "(u64 \<times> nat) list"
  nd_receive :: transport_receive_counters
  nd_stopping :: bool
  nd_started :: bool
  nd_spawned :: "node_task list"
  nd_sent :: "(socket_addr \<times> bytes \<times> string option) list"
  nd_samples :: "traffic_sample list"
  nd_ping_answers :: "(nat \<times> socket_addr) list"
  nd_stun_answers :: "(nat \<times> bytes \<times> socket_addr) list"

text \<open>\<open>ne_io k\<close> is the outcome of the \<open>k\<close>-th datagram given to the socket, \<open>None\<close> for success;
  \<open>ne_batch k n\<close> is the outcome of a batched send of \<open>n\<close> datagrams starting at the \<open>k\<close>-th: how
  many are sent, and the error, if any; \<open>ne_random\<close> and \<open>ne_nonce\<close> give the random session id and
  the random nonce drawn for a peer; \<open>ne_error_text\<close> is the derived \<open>Display\<close> of an error.\<close>

record 'hs node_env =
  ne_cp :: crypto_prims
  ne_np :: "'hs noise_prims"
  ne_cred :: cred_parser
  ne_now :: u64
  ne_instant :: instant
  ne_io :: "nat \<Rightarrow> string option"
  ne_batch :: "nat \<Rightarrow> nat \<Rightarrow> nat \<times> string option"
  ne_random :: "nat \<Rightarrow> u64"
  ne_nonce :: "nat \<Rightarrow> u128"
  ne_error_text :: "core_error \<Rightarrow> string"

definition CORE_EVENT_QUEUE_LIMIT :: nat where
  "CORE_EVENT_QUEUE_LIMIT = 4096"

definition DEFAULT_VIRTUAL_MTU :: nat where
  "DEFAULT_VIRTUAL_MTU = 1190"

definition DEFAULT_MAX_VIRTUAL_MTU :: nat where
  "DEFAULT_MAX_VIRTUAL_MTU = 1430"

definition MAX_RECONNECT_ATTEMPTS :: u8 where
  "MAX_RECONNECT_ATTEMPTS = 5"

text \<open>Durations are nanoseconds.\<close>

definition node_config_default :: node_config where
  "node_config_default =
    \<lparr>nc_max_payload_size = DEFAULT_MAX_VIRTUAL_MTU, nc_per_peer_queue_limit = 256,
     nc_keepalive_interval = 20 * 10 ^ 9, nc_connect_timeout = 8 * 10 ^ 9,
     nc_reconnect_backoff = 10 ^ 9, nc_crypto_policy = PreferHybrid,
     nc_server_public_key = None, nc_network_id = 0, nc_virtual_ipv4 = None,
     nc_virtual_ipv6 = None, nc_virtual_mtu = DEFAULT_MAX_VIRTUAL_MTU\<rparr>"

definition reconnect_default :: reconnect_state where
  "reconnect_default = \<lparr>rc_requested = False, rc_running = False, rc_attempts = 0\<rparr>"

definition peer_receive_default :: peer_receive_counters where
  "peer_receive_default = \<lparr>pr_worker_data_packets = 0, pr_decrypt_failures = 0, pr_replay_drops = 0,
     pr_ip_parse_failures = 0, pr_invalid_destinations = 0, pr_accepted_ip_packets = 0,
     pr_event_queue_drops = 0\<rparr>"

definition transport_receive_default :: transport_receive_counters where
  "transport_receive_default = \<lparr>tr_udp_datagrams = 0, tr_stun_datagrams = 0, tr_data_datagrams = 0,
     tr_data_queue_drops = 0, tr_worker_data_datagrams = 0, tr_unassociated_data_datagrams = 0\<rparr>"

definition DATA_WORKER_MIN :: nat where
  "DATA_WORKER_MIN = 4"

definition DATA_WORKER_MAX :: nat where
  "DATA_WORKER_MAX = 16"

text \<open>The argument is \<open>available_parallelism\<close>; \<open>clamp\<close> to the bounds.\<close>

definition data_worker_count :: "nat option \<Rightarrow> nat" where
  "data_worker_count parallelism =
    (case parallelism of
       None \<Rightarrow> DATA_WORKER_MIN
     | Some n \<Rightarrow> if n < DATA_WORKER_MIN then DATA_WORKER_MIN
         else if n > DATA_WORKER_MAX then DATA_WORKER_MAX else n)"

text \<open>\<open>v4.into_iter().map(IpAddr::V4).chain(v6.into_iter().map(IpAddr::V6))\<close>.\<close>

definition virtual_addresses :: "u32 option \<Rightarrow> u128 option \<Rightarrow> ip_addr list" where
  "virtual_addresses v4 v6 =
    (case v4 of None \<Rightarrow> [] | Some a \<Rightarrow> [IpV4 a]) @ (case v6 of None \<Rightarrow> [] | Some a \<Rightarrow> [IpV6 a])"

abbreviation info_addresses :: "peer_info \<Rightarrow> ip_addr list" where
  "info_addresses info \<equiv> virtual_addresses (pi_virtual_ipv4 info) (pi_virtual_ipv6 info)"

definition node_build ::
  "identity option \<Rightarrow> u64 option \<Rightarrow> bool \<Rightarrow> node_config \<Rightarrow> bool \<Rightarrow> identity \<Rightarrow> u64 \<Rightarrow>
   string option \<Rightarrow> nat option \<Rightarrow> core_error + 'hs node" where
  "node_build identity incarnation provider config observer generated random_id bind_error parallelism =
    (if nc_crypto_policy config = RequireHybrid then Inl HybridCryptoUnavailable
     else if \<not> provider then Inl MissingProvider
     else case bind_error of
       Some e \<Rightarrow> Inl (CoreIo e)
     | None \<Rightarrow> Inr
        \<lparr>nd_identity = (case identity of Some i \<Rightarrow> i | None \<Rightarrow> generated),
         nd_incarnation = (case incarnation of Some i \<Rightarrow> i | None \<Rightarrow> random_id),
         nd_config = config, nd_observer = observer, nd_heap = [], nd_peers = [],
         nd_routes = route_table_new (virtual_addresses (nc_virtual_ipv4 config) (nc_virtual_ipv6 config)),
         nd_network_id = nc_network_id config, nd_snapshot_generation = 0,
         nd_snapshot_expires_at = - 1,
         nd_local_ipv4 = nc_virtual_ipv4 config, nd_local_ipv6 = nc_virtual_ipv6 config,
         nd_control = [], nd_data = [], nd_stun_waiters = [],
         nd_workers = replicate (data_worker_count parallelism) [], nd_sessions = [], nd_receive = transport_receive_default,
         nd_stopping = False, nd_started = False, nd_spawned = [], nd_sent = [], nd_samples = [],
         nd_ping_answers = [], nd_stun_answers = []\<rparr>)"

definition node_id_of :: "'hs node_env \<Rightarrow> 'hs node \<Rightarrow> node_id" where
  "node_id_of env s = pid_node_id (identity_public (ne_cp env) (nd_identity s))"

subsection \<open>Peers\<close>

definition peer_at :: "'hs node \<Rightarrow> nat \<Rightarrow> 'hs peer_state" where
  "peer_at s p = nd_heap s ! p"

definition upd_peer :: "nat \<Rightarrow> ('hs peer_state \<Rightarrow> 'hs peer_state) \<Rightarrow> 'hs node \<Rightarrow> 'hs node" where
  "upd_peer p f s = s\<lparr>nd_heap := (nd_heap s)[p := f (nd_heap s ! p)]\<rparr>"

text \<open>\<open>PeerState::with_online\<close>.\<close>

definition with_online ::
  "cred_parser \<Rightarrow> peer_info \<Rightarrow> bool \<Rightarrow> 256 word option \<Rightarrow> 'hs peer_state" where
  "with_online cred info online server_public_key =
    \<lparr>ps_id = pi_node_id info, ps_info = info,
     ps_membership_expires_at = membership_expires_at cred info server_public_key,
     ps_is_online = online, ps_last_failure = None, ps_path_history = [], ps_connecting = False,
     ps_attempt = None, ps_active = None, ps_reconnect = reconnect_default, ps_queue = [],
     ps_receive = peer_receive_default\<rparr>"

definition update_info ::
  "cred_parser \<Rightarrow> peer_info \<Rightarrow> 256 word option \<Rightarrow> 'hs peer_state \<Rightarrow> 'hs peer_state" where
  "update_info cred info server_public_key q =
    q\<lparr>ps_membership_expires_at := membership_expires_at cred info server_public_key, ps_info := info\<rparr>"

definition membership_expired_at :: "'hs peer_state \<Rightarrow> u64 \<Rightarrow> bool" where
  "membership_expired_at q now \<longleftrightarrow> now \<ge> ps_membership_expires_at q"

definition clear_failure :: "'hs peer_state \<Rightarrow> 'hs peer_state" where
  "clear_failure q = q\<lparr>ps_last_failure := None\<rparr>"

definition record_failure :: "u64 \<Rightarrow> string \<Rightarrow> 'hs peer_state \<Rightarrow> 'hs peer_state" where
  "record_failure now reason q =
    q\<lparr>ps_last_failure := Some \<lparr>pf_reason = reason, pf_occurred_at = now\<rparr>\<rparr>"

definition record_path ::
  "u64 \<Rightarrow> socket_addr \<Rightarrow> candidate list \<Rightarrow> 'hs peer_state \<Rightarrow> 'hs peer_state" where
  "record_path now path candidates q =
    (let history = ps_path_history q in
     if history \<noteq> [] \<and> pc_path (last history) = path then q
     else let history = history @ [\<lparr>pc_path = path, pc_candidate_type = candidate_type candidates path,
                pc_changed_at = now\<rparr>];
              history = (if length history > 32 then tl history else history)
       in q\<lparr>ps_path_history := history\<rparr>)"

definition can_retain_session :: "'hs peer_state \<Rightarrow> peer_info \<Rightarrow> bool" where
  "can_retain_session peer next =
    (let previous = ps_info peer in
     if pi_node_id previous \<noteq> pi_node_id next
        \<or> pi_incarnation previous \<noteq> pi_incarnation next
        \<or> pi_signing_public previous \<noteq> pi_signing_public next
        \<or> pi_noise_public previous \<noteq> pi_noise_public next
        \<or> pi_virtual_ipv4 previous \<noteq> pi_virtual_ipv4 next
        \<or> pi_virtual_ipv6 previous \<noteq> pi_virtual_ipv6 next
     then False
     else case ps_active peer of
       Some session \<Rightarrow> pi_candidates previous = pi_candidates next
         \<or> list_ex (\<lambda>candidate. candidate_address candidate = as_path session) (pi_candidates next)
     | None \<Rightarrow> ps_attempt peer = None \<or> pi_candidates previous = pi_candidates next)"

subsection \<open>Events, datagrams and sessions\<close>

text \<open>\<open>emit\<close>: control events go to an unbounded channel, IP packets to a bounded one. Both
  receivers live as long as the node.\<close>

definition emit :: "vela_event \<Rightarrow> 'hs node \<Rightarrow> bool \<times> 'hs node" where
  "emit event s =
    (case event of
       IpPacketEvent _ _ \<Rightarrow>
         if length (nd_data s) < CORE_EVENT_QUEUE_LIMIT then (True, s\<lparr>nd_data := nd_data s @ [event]\<rparr>)
         else (False, s)
     | _ \<Rightarrow> (True, s\<lparr>nd_control := nd_control s @ [event]\<rparr>))"

definition emit_peer_connecting :: "nat \<Rightarrow> 'hs node \<Rightarrow> 'hs node" where
  "emit_peer_connecting p s =
    (if ps_active (peer_at s p) \<noteq> None then s
     else let previous = ps_connecting (peer_at s p);
              s1 = upd_peer p (\<lambda>q. q\<lparr>ps_connecting := True\<rparr>) s
       in if \<not> previous then snd (emit (PeerConnecting (pi_node_id (ps_info (peer_at s1 p)))) s1) else s1)"

definition observe :: "traffic_sample \<Rightarrow> 'hs node \<Rightarrow> 'hs node" where
  "observe sample s = (if nd_observer s then s\<lparr>nd_samples := nd_samples s @ [sample]\<rparr> else s)"

definition socket_send :: "'hs node_env \<Rightarrow> bytes \<Rightarrow> socket_addr \<Rightarrow> 'hs node \<Rightarrow> string option \<times> 'hs node" where
  "socket_send env bytes target s =
    (let outcome = ne_io env (length (nd_sent s))
     in (outcome, s\<lparr>nd_sent := nd_sent s @ [(target, bytes, outcome)]\<rparr>))"

definition send_packet ::
  "'hs node_env \<Rightarrow> socket_addr \<Rightarrow> packet_type \<Rightarrow> u64 \<Rightarrow> u64 \<Rightarrow> bytes \<Rightarrow> 'hs node \<Rightarrow>
   (core_error + unit) \<times> 'hs node" where
  "send_packet env target packet_type session_id sequence payload s =
    (case header_new packet_type session_id sequence (length payload) of
       Inl e \<Rightarrow> (Inl (CoreProtocol e), s)
     | Inr header \<Rightarrow>
    (case wire_packet_encode \<lparr>wp_header = header, wp_payload = payload\<rparr> of
       Inl e \<Rightarrow> (Inl (CoreProtocol e), s)
     | Inr packet \<Rightarrow>
    (case socket_send env packet target s of
       (Some e, s') \<Rightarrow> (Inl (CoreIo e), s')
     | (None, s') \<Rightarrow> (Inr (), s'))))"

definition peer_for :: "'hs node \<Rightarrow> node_id \<Rightarrow> core_error + nat" where
  "peer_for s node_id =
    (case map_of (nd_peers s) node_id of None \<Rightarrow> Inl (CoreUnknownPeer node_id) | Some p \<Rightarrow> Inr p)"

definition session_peer :: "'hs node \<Rightarrow> u64 \<Rightarrow> nat option" where
  "session_peer s session_id = map_of (nd_sessions s) session_id"

definition remove_session :: "nat \<Rightarrow> u64 \<Rightarrow> 'hs node \<Rightarrow> 'hs node" where
  "remove_session p session_id s =
    (if map_of (nd_sessions s) session_id = Some p
     then s\<lparr>nd_sessions := AList.delete session_id (nd_sessions s)\<rparr> else s)"

definition invalidate_session_if :: "nat \<Rightarrow> u64 option \<Rightarrow> bool \<Rightarrow> 'hs node \<Rightarrow> 'hs node" where
  "invalidate_session_if p expected_session_id request_reconnect s =
    (let active = ps_active (peer_at s p) in
     if (case expected_session_id of
           None \<Rightarrow> False
         | Some expected \<Rightarrow> (case active of None \<Rightarrow> True | Some session \<Rightarrow> as_session_id session \<noteq> expected))
     then s
     else
       let session_id = map_option as_session_id active;
           s1 = upd_peer p (\<lambda>q. q\<lparr>ps_active := None\<rparr>) s;
           s2 = (case session_id of None \<Rightarrow> s1 | Some i \<Rightarrow> remove_session p i s1);
           disconnected = (session_id \<noteq> None);
           had_attempt = (ps_attempt (peer_at s2 p) \<noteq> None);
           s3 = upd_peer p (\<lambda>q. q\<lparr>ps_attempt := None, ps_queue := []\<rparr>) s2;
           s4 = (if request_reconnect \<and> (disconnected \<or> had_attempt)
             then upd_peer p (\<lambda>q. q\<lparr>ps_reconnect := (ps_reconnect q)\<lparr>rc_requested := True, rc_attempts := 0\<rparr>\<rparr>) s3
             else s3);
           s5 = upd_peer p (\<lambda>q. q\<lparr>ps_connecting := False\<rparr>) s4
       in if disconnected then snd (emit (PeerDisconnected (pi_node_id (ps_info (peer_at s5 p)))) s5) else s5)"

definition invalidate_session :: "nat \<Rightarrow> bool \<Rightarrow> 'hs node \<Rightarrow> 'hs node" where
  "invalidate_session p request_reconnect s = invalidate_session_if p None request_reconnect s"

definition schedule_reconnect :: "nat \<Rightarrow> 'hs node \<Rightarrow> 'hs node" where
  "schedule_reconnect p s =
    (if \<not> nd_started s \<or> nd_stopping s \<or> \<not> ps_is_online (peer_at s p) then s
     else let reconnect = ps_reconnect (peer_at s p) in
       if \<not> rc_requested reconnect \<or> rc_running reconnect
          \<or> rc_attempts reconnect \<ge> MAX_RECONNECT_ATTEMPTS
       then s
       else
         let s1 = upd_peer p (\<lambda>q. q\<lparr>ps_reconnect := (ps_reconnect q)\<lparr>rc_running := True\<rparr>\<rparr>) s;
             s2 = snd (emit (PeerReconnectRequested (pi_node_id (ps_info (peer_at s1 p)))) s1)
         in s2\<lparr>nd_spawned := nd_spawned s2 @ [ReconnectLoop p]\<rparr>)"

subsection \<open>Membership\<close>

text \<open>The common end of \<open>register_peer\<close> (for the previous peer) and \<open>remove_peer\<close>: the peer goes
  offline and loses its session, its attempt and its queue. The result says whether it had a
  session.\<close>

definition retire_peer :: "nat \<Rightarrow> 'hs node \<Rightarrow> bool \<times> 'hs node" where
  "retire_peer p s =
    (let s1 = upd_peer p (\<lambda>q. q\<lparr>ps_is_online := False,
                ps_reconnect := (ps_reconnect q)\<lparr>rc_requested := False\<rparr>\<rparr>) s;
         session_id = map_option as_session_id (ps_active (peer_at s1 p));
         s2 = upd_peer p (\<lambda>q. q\<lparr>ps_active := None\<rparr>) s1;
         s3 = (case session_id of None \<Rightarrow> s2 | Some i \<Rightarrow> remove_session p i s2);
         s4 = upd_peer p (\<lambda>q. q\<lparr>ps_attempt := None, ps_queue := []\<rparr>) s3
     in (session_id \<noteq> None, s4))"

definition remove_routes :: "ip_addr list \<Rightarrow> route_table \<Rightarrow> route_table" where
  "remove_routes addresses t = fold (\<lambda>a t. snd (route_remove a t)) addresses t"

definition insert_routes :: "ip_addr list \<Rightarrow> node_id \<Rightarrow> route_table \<Rightarrow> route_table" where
  "insert_routes addresses peer t = fold (\<lambda>a. route_insert a peer) addresses t"

definition register_peer :: "'hs node_env \<Rightarrow> peer_info \<Rightarrow> 'hs node \<Rightarrow> (core_error + unit) \<times> 'hs node" where
  "register_peer env info s =
    (let key = nc_server_public_key (nd_config s) in
     case validate_peer_info (cp_blake3 (ne_cp env)) info of
       Inl e \<Rightarrow> (Inl e, s)
     | Inr _ \<Rightarrow>
    (case validate_peer_membership (ne_cp env) (ne_cred env) (ne_now env) info key of
       Inl e \<Rightarrow> (Inl e, s)
     | Inr _ \<Rightarrow>
       let peer_id = pi_node_id info;
           existing = map_of (nd_peers s) peer_id
       in case existing of
            Some p \<Rightarrow>
              if ps_info (peer_at s p) = info
              then (Inr (), upd_peer p (\<lambda>q. q\<lparr>ps_is_online := True\<rparr>) s)
              else
                let replacement = length (nd_heap s);
                    s1 = s\<lparr>nd_heap := nd_heap s @ [with_online (ne_cred env) info True key],
                           nd_peers := AList.update peer_id replacement (nd_peers s),
                           nd_routes := insert_routes (info_addresses info) peer_id
                             (remove_routes (info_addresses (ps_info (peer_at s p))) (nd_routes s))\<rparr>;
                    (disconnected, s2) = retire_peer p s1
                in (Inr (), if disconnected
                      then snd (emit (PeerDisconnected (pi_node_id (ps_info (peer_at s p)))) s2) else s2)
          | None \<Rightarrow>
              (Inr (), s\<lparr>nd_heap := nd_heap s @ [with_online (ne_cred env) info True key],
                         nd_peers := AList.update peer_id (length (nd_heap s)) (nd_peers s),
                         nd_routes := insert_routes (info_addresses info) peer_id (nd_routes s)\<rparr>)))"

definition remove_peer :: "node_id \<Rightarrow> 'hs node \<Rightarrow> bool \<times> 'hs node" where
  "remove_peer peer_id s =
    (case map_of (nd_peers s) peer_id of
       None \<Rightarrow> (False, s)
     | Some p \<Rightarrow>
        let s1 = s\<lparr>nd_peers := AList.delete peer_id (nd_peers s),
                   nd_routes := remove_routes (info_addresses (ps_info (peer_at s p))) (nd_routes s)\<rparr>;
            s2 = snd (retire_peer p s1)
        in (True, snd (emit (PeerDisconnected peer_id) s2)))"

text \<open>The loop of \<open>apply_snapshot\<close> over the peers of the snapshot. The state it threads has the
  replacement table and the peers to reconnect, in the order they were found.\<close>

definition merge_peer ::
  "'hs node_env \<Rightarrow> node_id list \<Rightarrow> (node_id \<times> nat) list \<Rightarrow> peer_info \<Rightarrow>
   (node_id \<times> nat) list \<Rightarrow> (node_id \<times> nat) list \<Rightarrow> 'hs node \<Rightarrow>
   (node_id \<times> nat) list \<times> (node_id \<times> nat) list \<times> 'hs node" where
  "merge_peer env online_peers old_peers info replacement reconnect_peers s =
    (let key = nc_server_public_key (nd_config s);
         online = (pi_node_id info \<in> set online_peers)
     in case map_of old_peers (pi_node_id info) of
       Some p \<Rightarrow>
        let s1 = (if \<not> can_retain_session (peer_at s p) info then invalidate_session p True s else s);
            s2 = upd_peer p (\<lambda>q. (update_info (ne_cred env) info key q)\<lparr>ps_is_online := online\<rparr>) s1;
            requested = rc_requested (ps_reconnect (peer_at s2 p));
            s3 = (if online \<and> requested
              then upd_peer p (\<lambda>q. q\<lparr>ps_reconnect := (ps_reconnect q)\<lparr>rc_attempts := 0\<rparr>\<rparr>) s2 else s2);
            reconnect_peers' = (if online \<and> requested \<and> pi_node_id info \<notin> fst ` set reconnect_peers
              then reconnect_peers @ [(pi_node_id info, p)] else reconnect_peers)
        in (AList.update (pi_node_id info) p replacement, reconnect_peers', s3)
     | None \<Rightarrow>
        (AList.update (pi_node_id info) (length (nd_heap s)) replacement, reconnect_peers,
         s\<lparr>nd_heap := nd_heap s @ [with_online (ne_cred env) info online key]\<rparr>))"

fun merge_peers ::
  "'hs node_env \<Rightarrow> node_id list \<Rightarrow> (node_id \<times> nat) list \<Rightarrow> peer_info list \<Rightarrow>
   (node_id \<times> nat) list \<Rightarrow> (node_id \<times> nat) list \<Rightarrow> 'hs node \<Rightarrow>
   (core_error + (node_id \<times> nat) list \<times> (node_id \<times> nat) list) \<times> 'hs node" where
  "merge_peers env online_peers old_peers [] replacement reconnect_peers s =
    (Inr (replacement, reconnect_peers), s)"
| "merge_peers env online_peers old_peers (info # infos) replacement reconnect_peers s =
    (case validate_peer_info (cp_blake3 (ne_cp env)) info of
       Inl e \<Rightarrow> (Inl e, s)
     | Inr _ \<Rightarrow>
    (case validate_peer_membership (ne_cp env) (ne_cred env) (ne_now env) info
        (nc_server_public_key (nd_config s)) of
       Inl e \<Rightarrow> (Inl e, s)
     | Inr _ \<Rightarrow>
       if pi_node_id info \<noteq> node_id_of env s
       then let (replacement', reconnect_peers', s') =
                  merge_peer env online_peers old_peers info replacement reconnect_peers s
            in merge_peers env online_peers old_peers infos replacement' reconnect_peers' s'
       else merge_peers env online_peers old_peers infos replacement reconnect_peers s))"

definition snapshot_routes :: "'hs node \<Rightarrow> ip_addr list \<Rightarrow> (node_id \<times> nat) list \<Rightarrow> route_table" where
  "snapshot_routes s local_addresses replacement =
    fold (\<lambda>(_, p) t. let info = ps_info (peer_at s p) in insert_routes (info_addresses info) (pi_node_id info) t)
      replacement (route_table_new local_addresses)"

text \<open>The peers that a snapshot no longer names.\<close>

definition drop_old_peer :: "(node_id \<times> nat) list \<Rightarrow> node_id \<times> nat \<Rightarrow> 'hs node \<Rightarrow> 'hs node" where
  "drop_old_peer replacement entry s =
    (let (peer_id, p) = entry in
     if map_of replacement peer_id \<noteq> None then s
     else invalidate_session p False
       (upd_peer p (\<lambda>q. q\<lparr>ps_is_online := False,
          ps_reconnect := (ps_reconnect q)\<lparr>rc_requested := False\<rparr>\<rparr>) s))"

text \<open>The checks of \<open>apply_snapshot\<close> before it changes anything; the result is the entry of the
  node itself.\<close>

definition check_snapshot :: "'hs node_env \<Rightarrow> network_snapshot \<Rightarrow> 'hs node \<Rightarrow> core_error + peer_info" where
  "check_snapshot env snapshot s =
    (let configured_network = nc_network_id (nd_config s);
         signature_ok = (case nc_server_public_key (nd_config s) of
             None \<Rightarrow> Inr ()
           | Some key \<Rightarrow> verify_snapshot (ne_cp env) snapshot key (ne_now env))
     in case signature_ok of
       Inl e \<Rightarrow> Inl (CoreCrypto e)
     | Inr _ \<Rightarrow>
    (case snapshot_validate (cp_blake3 (ne_cp env)) snapshot of
       Inl e \<Rightarrow> Inl (CoreProtocol e)
     | Inr _ \<Rightarrow>
       if sn_expires_at snapshot \<le> ne_now env then Inl CoreSnapshotExpired
       else if configured_network \<noteq> 0 \<and> configured_network \<noteq> sn_network_id snapshot
       then Inl NetworkMismatch
       else if sn_generation snapshot < nd_snapshot_generation s then Inl StaleSnapshot
       else case find (\<lambda>peer. pi_node_id peer = node_id_of env s) (sn_peers snapshot) of
         None \<Rightarrow> Inl LocalPeerMissing
       | Some local \<Rightarrow>
      (case validate_peer_info (cp_blake3 (ne_cp env)) local of
         Inl e \<Rightarrow> Inl e
       | Inr _ \<Rightarrow> if info_addresses local = [] then Inl LocalAddressMissing else Inr local)))"

definition apply_snapshot ::
  "'hs node_env \<Rightarrow> network_snapshot \<Rightarrow> 'hs node \<Rightarrow> (core_error + unit) \<times> 'hs node" where
  "apply_snapshot env snapshot s =
    (case check_snapshot env snapshot s of
       Inl e \<Rightarrow> (Inl e, s)
     | Inr local \<Rightarrow>
    (case merge_peers env (sn_online_peers snapshot) (nd_peers s) (sn_peers snapshot) [] [] s of
       (Inl e, s1) \<Rightarrow> (Inl e, s1)
     | (Inr (replacement, reconnect_peers), s1) \<Rightarrow>
        let old_peers = nd_peers s1;
            s2 = s1\<lparr>nd_routes := snapshot_routes s1 (info_addresses local) replacement,
                    nd_peers := replacement,
                    nd_network_id := sn_network_id snapshot,
                    nd_local_ipv4 := pi_virtual_ipv4 local,
                    nd_local_ipv6 := pi_virtual_ipv6 local,
                    nd_snapshot_generation := sn_generation snapshot,
                    nd_snapshot_expires_at := sn_expires_at snapshot\<rparr>;
            s3 = fold (drop_old_peer replacement) old_peers s2;
            s4 = fold (\<lambda>(_, p). schedule_reconnect p) reconnect_peers s3
        in (Inr (), s4)))"

end
