(* ===== verification/Vela_Send.thy ===== *)
theory Vela_Send
  imports Vela_Node
begin

section \<open>The outbound data path (vela-core)\<close>

text \<open>
  \<open>send_ip\<close>, \<open>send_ip_batch\<close>, \<open>PeerHandle::send_ip\<close> and what they call in
  \<open>vela-core/src/lib.rs\<close>: routing, the checks of size and expiry, the queue of a peer without a
  session, sequence numbers, encryption and framing, the batched socket, and the queue that a
  new session flushes. \<open>None\<close> is a panic or a loop that does not end.
\<close>

record prepared_data_packet =
  pd_peer :: nat
  pd_peer_id :: node_id
  pd_session_id :: u64
  pd_sequence :: u64
  pd_path :: socket_addr
  pd_packet_len :: nat
  pd_wire_packet :: bytes

definition prepare_encrypted_data_packet ::
  "crypto_prims \<Rightarrow> nat \<Rightarrow> node_id \<Rightarrow> u64 \<Rightarrow> socket_addr \<Rightarrow> session_cipher \<Rightarrow> u64 \<Rightarrow> ip_packet \<Rightarrow>
   send_error + prepared_data_packet" where
  "prepare_encrypted_data_packet cp p peer_id session_id path cipher sequence packet =
    (let packet_len = length (ip_bytes packet);
         encrypted_len = packet_len + 16
     in case header_new Data session_id sequence encrypted_len of
       Inl e \<Rightarrow> Inl (SendProtocol e)
     | Inr header \<Rightarrow>
       let aad = encoded_header header;
           wire_packet = header_encode header [] @ ip_bytes packet
       in case encrypt_in_place_detached cp cipher sequence aad (drop HEADER_LEN wire_packet) of
            Inl e \<Rightarrow> Inl (SendCrypto e)
          | Inr (ciphertext, tag) \<Rightarrow>
             Inr \<lparr>pd_peer = p, pd_peer_id = peer_id, pd_session_id = session_id,
                  pd_sequence = sequence, pd_path = path, pd_packet_len = packet_len,
                  pd_wire_packet = take HEADER_LEN wire_packet @ ciphertext @ to_be 16 tag\<rparr>)"

text \<open>The packets that pass a size check keep their slot, the others get the error.\<close>

definition limit_size :: "nat \<Rightarrow> send_error + ip_packet \<Rightarrow> send_error + ip_packet" where
  "limit_size limit slot =
    (case slot of
       Inl e \<Rightarrow> Inl e
     | Inr packet \<Rightarrow> if length (ip_bytes packet) > limit then Inl PacketTooLarge else Inr packet)"

text \<open>\<open>tx_sequence.fetch_add(1)\<close> for every packet left, in order.\<close>

fun assign_sequences ::
  "u64 \<Rightarrow> (send_error + ip_packet) list \<Rightarrow> (send_error + (u64 \<times> ip_packet)) list \<times> u64" where
  "assign_sequences tx [] = ([], tx)"
| "assign_sequences tx (Inl e # slots) =
    (let (slots', tx') = assign_sequences tx slots in (Inl e # slots', tx'))"
| "assign_sequences tx (Inr packet # slots) =
    (let (slots', tx') = assign_sequences (tx + 1) slots in (Inr (tx, packet) # slots', tx'))"

fun enqueue_packets ::
  "nat \<Rightarrow> bytes list \<Rightarrow> (send_error + ip_packet) list \<Rightarrow>
   (send_error + prepared_data_packet option) list \<times> bytes list" where
  "enqueue_packets limit queue [] = ([], queue)"
| "enqueue_packets limit queue (Inl e # slots) =
    (let (results, queue') = enqueue_packets limit queue slots in (Inl e # results, queue'))"
| "enqueue_packets limit queue (Inr packet # slots) =
    (if length queue \<ge> limit
     then let (results, queue') = enqueue_packets limit queue slots in (Inl QueueFull # results, queue')
     else let (results, queue') = enqueue_packets limit (queue @ [ip_bytes packet]) slots
       in (Inr None # results, queue'))"

text \<open>\<open>prepare_ip_packets\<close>. The source encrypts the packets of a large batch in chunks on blocking
  workers and puts each result into its slot; the result is the one of the sequential branch.\<close>

definition prepare_ip_packets ::
  "'hs node_env \<Rightarrow> nat \<Rightarrow> ip_packet list \<Rightarrow> 'hs node \<Rightarrow>
   (send_error + prepared_data_packet option) list \<times> 'hs node" where
  "prepare_ip_packets env p packets s =
    (let peer_id = ps_id (peer_at s p) in
     if packets = [] then ([], s)
     else if ne_now env \<ge> nd_snapshot_expires_at s
     then (map (\<lambda>_. Inl SendSnapshotExpired) packets, invalidate_session p True s)
     else
       let slots = map (\<lambda>packet.
               if length (ip_bytes packet) > nc_virtual_mtu (nd_config s)
                  \<or> length (ip_bytes packet) > nc_max_payload_size (nd_config s)
               then Inl PacketTooLarge else Inr packet) packets
       in if list_all (\<lambda>slot. case slot of Inl _ \<Rightarrow> True | Inr _ \<Rightarrow> False) slots
          then (map (map_sum id (\<lambda>_. None)) slots, s)
          else case ps_active (peer_at s p) of
            Some session \<Rightarrow>
              let (numbered, tx) = assign_sequences (as_tx_sequence session)
                    (map (limit_size (pm_confirmed (as_path_mtu session))) slots);
                  s1 = upd_peer p (\<lambda>q. q\<lparr>ps_active := Some (session\<lparr>as_tx_sequence := tx\<rparr>)\<rparr>) s
              in (map (\<lambda>slot. case slot of
                    Inl e \<Rightarrow> Inl e
                  | Inr (sequence, packet) \<Rightarrow> map_sum id Some
                      (prepare_encrypted_data_packet (ne_cp env) p peer_id (as_session_id session)
                        (as_path session) (as_cipher session) sequence packet)) numbered, s1)
          | None \<Rightarrow>
              let (results, queue) = enqueue_packets (nc_per_peer_queue_limit (nd_config s))
                    (ps_queue (peer_at s p)) slots
              in (results, upd_peer p (\<lambda>q. q\<lparr>ps_queue := queue\<rparr>) s))"

definition prepare_ip_packet ::
  "'hs node_env \<Rightarrow> nat \<Rightarrow> ip_packet \<Rightarrow> 'hs node \<Rightarrow>
   ((send_error + prepared_data_packet option) \<times> 'hs node) option" where
  "prepare_ip_packet env p packet s =
    (case prepare_ip_packets env p [packet] s of
       ([], _) \<Rightarrow> None
     | (result # _, s') \<Rightarrow> Some (result, s'))"

definition count_sent :: "u64 \<Rightarrow> prepared_data_packet list \<Rightarrow> 'hs peer_state \<Rightarrow> 'hs peer_state" where
  "count_sent session_id packets q =
    (case ps_active q of
       Some session \<Rightarrow>
        if as_session_id session = session_id
        then q\<lparr>ps_active := Some (session\<lparr>as_tx_bytes :=
              fold (\<lambda>packet n. n + word_of_nat (pd_packet_len packet)) packets (as_tx_bytes session)\<rparr>)\<rparr>
        else q
     | None \<Rightarrow> q)"

definition sent_sample :: "prepared_data_packet \<Rightarrow> traffic_sample" where
  "sent_sample packet =
    \<lparr>ts_peer = Some (pd_peer_id packet), ts_direction = DirSent, ts_path = pd_path packet,
     ts_payload_bytes = pd_packet_len packet,
     ts_encrypted_bytes = length (pd_wire_packet packet) - HEADER_LEN,
     ts_wire_bytes = length (pd_wire_packet packet)\<rparr>"

definition record_sent_batch :: "prepared_data_packet list \<Rightarrow> 'hs node \<Rightarrow> 'hs node" where
  "record_sent_batch packets s =
    (case packets of
       [] \<Rightarrow> s
     | first # _ \<Rightarrow>
        fold (\<lambda>packet. observe (sent_sample packet)) packets
          (upd_peer (pd_peer first) (count_sent (pd_session_id first) packets) s))"

definition send_ip_packet ::
  "'hs node_env \<Rightarrow> nat \<Rightarrow> ip_packet \<Rightarrow> 'hs node \<Rightarrow> ((send_error + unit) \<times> 'hs node) option" where
  "send_ip_packet env p packet s =
    (case prepare_ip_packet env p packet s of
       None \<Rightarrow> None
     | Some (Inl e, s1) \<Rightarrow> Some (Inl e, s1)
     | Some (Inr None, s1) \<Rightarrow> Some (Inr (), s1)
     | Some (Inr (Some prepared), s1) \<Rightarrow>
        (case socket_send env (pd_wire_packet prepared) (pd_path prepared) s1 of
           (Some e, s2) \<Rightarrow>
             Some (Inl (SendIo e),
               invalidate_session_if (pd_peer prepared) (Some (pd_session_id prepared)) True s2)
         | (None, s2) \<Rightarrow> Some (Inr (), record_sent_batch [prepared] s2)))"

definition send_payload ::
  "'hs node_env \<Rightarrow> nat \<Rightarrow> bytes \<Rightarrow> 'hs node \<Rightarrow> ((send_error + unit) \<times> 'hs node) option" where
  "send_payload env p payload s =
    (case ip_parse payload of
       None \<Rightarrow> None
     | Some (Inl e) \<Rightarrow> Some (Inl (SendIp e), s)
     | Some (Inr packet) \<Rightarrow>
    (case validate_outbound (nd_routes s) packet of
       Inl e \<Rightarrow> Some (Inl (SendIp e), s)
     | Inr routed_peer \<Rightarrow>
        if routed_peer \<noteq> ps_id (peer_at s p) then Some (Inl WrongPeer, s)
        else send_ip_packet env p packet s))"

text \<open>\<open>flush_queue\<close>: pops and sends until the queue is empty or a packet is refused.\<close>

partial_function (option) flush_queue :: "'hs node_env \<Rightarrow> nat \<Rightarrow> 'hs node \<Rightarrow> 'hs node option" where
  "flush_queue env p s =
    (case ps_queue (peer_at s p) of
       [] \<Rightarrow> Some s
     | payload # queue \<Rightarrow>
        Option.bind (send_payload env p payload (upd_peer p (\<lambda>q. q\<lparr>ps_queue := queue\<rparr>) s))
          (\<lambda>(result, s'). case result of Inl _ \<Rightarrow> Some s' | Inr _ \<Rightarrow> flush_queue env p s'))"

text \<open>The end of \<open>VelaNode::send_ip\<close> and of \<open>PeerHandle::send_ip\<close>: a socket error schedules a
  reconnect, and the first packet for an idle peer starts a connection.\<close>

definition after_send ::
  "nat \<Rightarrow> node_id \<Rightarrow> bool \<Rightarrow> (send_error + unit) \<times> 'hs node \<Rightarrow> (send_error + unit) \<times> 'hs node" where
  "after_send p peer_id should_connect outcome =
    (let (result, s) = outcome;
         s1 = (case result of Inl (SendIo _) \<Rightarrow> schedule_reconnect p s | _ \<Rightarrow> s);
         s2 = (if result = Inr () \<and> should_connect
           then let s' = snd (emit (PeerConnectionRequested peer_id) s1)
             in s'\<lparr>nd_spawned := nd_spawned s' @ [ConnectTask peer_id]\<rparr>
           else s1)
     in (result, s2))"

definition wants_connection :: "'hs node \<Rightarrow> nat \<Rightarrow> bool" where
  "wants_connection s p \<longleftrightarrow> ps_active (peer_at s p) = None \<and> ps_attempt (peer_at s p) = None"

definition send_ip ::
  "'hs node_env \<Rightarrow> bytes \<Rightarrow> 'hs node \<Rightarrow> ((send_error + unit) \<times> 'hs node) option" where
  "send_ip env packet s =
    (case ip_parse packet of
       None \<Rightarrow> None
     | Some (Inl e) \<Rightarrow> Some (Inl (SendIp e), s)
     | Some (Inr packet) \<Rightarrow>
    (case validate_outbound (nd_routes s) packet of
       Inl e \<Rightarrow> Some (Inl (SendIp e), s)
     | Inr peer_id \<Rightarrow>
    (case map_of (nd_peers s) peer_id of
       None \<Rightarrow> Some (Inl SendUnknownPeer, s)
     | Some p \<Rightarrow>
        map_option (after_send p peer_id (wants_connection s p)) (send_ip_packet env p packet s))))"

definition peer_send_ip ::
  "'hs node_env \<Rightarrow> node_id \<Rightarrow> bytes \<Rightarrow> 'hs node \<Rightarrow> ((send_error + unit) \<times> 'hs node) option" where
  "peer_send_ip env peer_id payload s =
    (case map_of (nd_peers s) peer_id of
       None \<Rightarrow> Some (Inl SendUnknownPeer, s)
     | Some p \<Rightarrow>
        map_option (after_send p peer_id (wants_connection s p)) (send_payload env p payload s))"

subsection \<open>Batches\<close>

text \<open>\<open>DatagramSocket::send_batch\<close>: a platform may send fewer datagrams than it was given.\<close>

definition socket_send_batch ::
  "'hs node_env \<Rightarrow> (bytes \<times> socket_addr) list \<Rightarrow> 'hs node \<Rightarrow> (string + nat) \<times> 'hs node" where
  "socket_send_batch env packets s =
    (let (sent, failure) = ne_batch env (length (nd_sent s)) (length packets);
         s' = s\<lparr>nd_sent := nd_sent s @ map (\<lambda>(bytes, target). (target, bytes, None)) (take sent packets)\<rparr>
     in (case failure of Some e \<Rightarrow> (Inl e, s') | None \<Rightarrow> (Inr sent, s')))"

definition same_flow :: "prepared_data_packet \<Rightarrow> prepared_data_packet \<Rightarrow> bool" where
  "same_flow first packet \<longleftrightarrow> pd_peer_id packet = pd_peer_id first
     \<and> pd_session_id packet = pd_session_id first \<and> pd_path packet = pd_path first"

definition send_group ::
  "'hs node_env \<Rightarrow> prepared_data_packet \<Rightarrow> prepared_data_packet list \<Rightarrow> 'hs node \<Rightarrow>
   (send_error + unit) list \<times> 'hs node" where
  "send_group env first flow s =
    (case socket_send_batch env (map (\<lambda>packet. (pd_wire_packet packet, pd_path packet)) flow) s of
       (Inr sent, s1) \<Rightarrow>
        if sent = length flow
        then (map (\<lambda>_. Inr ()) flow, record_sent_batch flow s1)
        else let sent = min sent (length flow);
                 s2 = record_sent_batch (take sent flow) s1;
                 s3 = invalidate_session_if (pd_peer first) (Some (pd_session_id first)) True s2
          in (replicate sent (Inr ())
              @ replicate (length flow - sent)
                  (Inl (SendIo ''batched UDP send completed only partially'')), s3)
     | (Inl e, s1) \<Rightarrow>
        (map (\<lambda>_. Inl (SendIo e)) flow,
         invalidate_session_if (pd_peer first) (Some (pd_session_id first)) True s1))"

function send_prepared_batch ::
  "'hs node_env \<Rightarrow> prepared_data_packet list \<Rightarrow> 'hs node \<Rightarrow> (send_error + unit) list \<times> 'hs node" where
  "send_prepared_batch env [] s = ([], s)"
| "send_prepared_batch env (first # prepared) s =
    (let flow = first # takeWhile (same_flow first) prepared;
         (results, s1) = send_group env first flow s;
         (results', s2) = send_prepared_batch env (dropWhile (same_flow first) prepared) s1
     in (results @ results', s2))"
  by pat_completeness auto
termination
  by (relation "measure (\<lambda>(env, prepared, s). length prepared)") (auto simp: le_imp_less_Suc length_dropWhile_le)

text \<open>Routing one packet of a batch; the outer option is a panic of the parser.\<close>

definition route_packet :: "'hs node \<Rightarrow> bytes \<Rightarrow> (send_error + ip_packet \<times> nat) option" where
  "route_packet s payload =
    (case ip_parse payload of
       None \<Rightarrow> None
     | Some (Inl e) \<Rightarrow> Some (Inl (SendIp e))
     | Some (Inr packet) \<Rightarrow> Some
    (case validate_outbound (nd_routes s) packet of
       Inl e \<Rightarrow> Inl (SendIp e)
     | Inr peer_id \<Rightarrow>
    (case map_of (nd_peers s) peer_id of
       None \<Rightarrow> Inl SendUnknownPeer
     | Some p \<Rightarrow> Inr (packet, p))))"

text \<open>The state of \<open>send_ip_batch\<close>: the result slots, the prepared packets with their slots, and the
  peers to connect.\<close>

record send_batch =
  sb_results :: "(send_error + unit) option list"
  sb_prepared :: "(nat \<times> prepared_data_packet) list"
  sb_connect :: "node_id list"

definition place_result ::
  "node_id \<Rightarrow> bool \<Rightarrow> nat \<times> (send_error + prepared_data_packet option) \<Rightarrow> send_batch \<Rightarrow> send_batch" where
  "place_result peer_id should_connect entry b =
    (case entry of
       (slot_index, Inr (Some packet)) \<Rightarrow>
        b\<lparr>sb_prepared := sb_prepared b @ [(slot_index, packet)],
          sb_connect := sb_connect b @ (if should_connect then [peer_id] else [])\<rparr>
     | (slot_index, Inr None) \<Rightarrow>
        b\<lparr>sb_results := (sb_results b)[slot_index := Some (Inr ())],
          sb_connect := sb_connect b @ (if should_connect then [peer_id] else [])\<rparr>
     | (slot_index, Inl e) \<Rightarrow> b\<lparr>sb_results := (sb_results b)[slot_index := Some (Inl e)]\<rparr>)"

function prepare_groups ::
  "'hs node_env \<Rightarrow> (nat \<times> ip_packet \<times> nat) list \<Rightarrow> send_batch \<Rightarrow> 'hs node \<Rightarrow> send_batch \<times> 'hs node" where
  "prepare_groups env [] b s = (b, s)"
| "prepare_groups env ((slot_index, packet, p) # routed) b s =
    (let peer_id = ps_id (peer_at s p);
         same = (\<lambda>(_, _, q). ps_id (peer_at s q) = peer_id);
         flow = (slot_index, packet, p) # takeWhile same routed;
         should_connect = wants_connection s p;
         (results, s1) = prepare_ip_packets env p (map (\<lambda>(_, packet, _). packet) flow) s;
         b1 = fold (place_result peer_id should_connect) (zip (map fst flow) results) b
     in prepare_groups env (dropWhile same routed) b1 s1)"
  by pat_completeness auto
termination
  by (relation "measure (\<lambda>(env, routed, b, s). length routed)") (auto simp: le_imp_less_Suc length_dropWhile_le)

definition finish_send ::
  "(nat \<times> prepared_data_packet) \<times> (send_error + unit) \<Rightarrow> send_batch \<times> 'hs node \<Rightarrow> send_batch \<times> 'hs node" where
  "finish_send entry state =
    (case (entry, state) of
       (((slot_index, packet), result), (b, s)) \<Rightarrow>
        (b\<lparr>sb_results := (sb_results b)[slot_index := Some result]\<rparr>,
         case result of Inl (SendIo _) \<Rightarrow> schedule_reconnect (pd_peer packet) s | _ \<Rightarrow> s))"

definition request_connection :: "node_id \<Rightarrow> 'hs node \<Rightarrow> 'hs node" where
  "request_connection peer_id s =
    (let s1 = snd (emit (PeerConnectionRequested peer_id) s)
     in s1\<lparr>nd_spawned := nd_spawned s1 @ [ConnectTask peer_id]\<rparr>)"

definition slot_results :: "'a option list \<Rightarrow> 'a list option" where
  "slot_results slots = (if None \<in> set slots then None else Some (map the slots))"

definition send_ip_batch ::
  "'hs node_env \<Rightarrow> bytes list \<Rightarrow> 'hs node \<Rightarrow> ((send_error + unit) list \<times> 'hs node) option" where
  "send_ip_batch env packets s =
    (case slot_results (map (route_packet s) packets) of
       None \<Rightarrow> None
     | Some slots \<Rightarrow>
        let results = map (\<lambda>slot. case slot of Inl e \<Rightarrow> Some (Inl e) | Inr _ \<Rightarrow> None) slots;
            routed = concat (map (\<lambda>(slot_index, slot). case slot of Inl _ \<Rightarrow> [] | Inr (packet, p) \<Rightarrow> [(slot_index, packet, p)])
              (zip [0..<length slots] slots));
            (b1, s1) = prepare_groups env routed
              \<lparr>sb_results = results, sb_prepared = [], sb_connect = []\<rparr> s;
            (send_results, s2) = send_prepared_batch env (map snd (sb_prepared b1)) s1;
            (b2, s3) = fold finish_send (zip (sb_prepared b1) send_results) (b1, s2);
            s4 = fold request_connection (remdups_adj (sort (sb_connect b2))) s3
        in map_option (\<lambda>rs. (rs, s4)) (slot_results (sb_results b2)))"

end
