(* ===== verification/Vela_Session.thy ===== *)
theory Vela_Session
  imports Vela_Send
begin

section \<open>Handshakes, sessions and the inbound path (vela-core)\<close>

text \<open>
  What a node does with a datagram: \<open>read_loop\<close> (dispatch), \<open>handle_packet\<close> and its handlers, the
  Noise handshake (\<open>start_initiator\<close>, \<open>handle_handshake\<close>, \<open>establish\<close>), session packets
  (\<open>handle_data\<close>), and the data workers with their batched commit (\<open>data_loop\<close>,
  \<open>decrypt_data_inline_at\<close>, \<open>commit_ip_data\<close>, \<open>commit_ip_data_batch\<close>). The decrypt workers of
  the source return each part of a batch in order; the model decrypts in place. \<open>None\<close> is a
  panic or a loop that does not end.
\<close>

subsection \<open>Attempts\<close>

definition HANDSHAKE_RETRY_INTERVAL :: nat where
  "HANDSHAKE_RETRY_INTERVAL = 250000000"

definition pending_candidate :: "candidate \<Rightarrow> peer_candidate_attempt" where
  "pending_candidate candidate =
    \<lparr>pca_candidate = candidate, pca_state = CandPending, pca_last_sent_at = None,
     pca_responded_at = None, pca_error = None\<rparr>"

definition new_attempt :: "'hs node_env \<Rightarrow> node_config \<Rightarrow> u64 \<Rightarrow> candidate list \<Rightarrow> 'hs attempt" where
  "new_attempt env config session_id candidates =
    \<lparr>at_session_id = session_id, at_handshake = None, at_handshake_payload = None,
     at_handshake_path = None, at_last_handshake_at = None, at_started_at = ne_now env,
     at_timeout_at = saturating_add (ne_now env) (word_of_nat (nc_connect_timeout config div 10 ^ 9)),
     at_candidates = map pending_candidate candidates\<rparr>"

fun update_first :: "('a \<Rightarrow> bool) \<Rightarrow> ('a \<Rightarrow> 'a) \<Rightarrow> 'a list \<Rightarrow> 'a list" where
  "update_first P f [] = []"
| "update_first P f (x # xs) = (if P x then f x # xs else x # update_first P f xs)"

text \<open>The candidate at an address of the attempt with a given session id.\<close>

definition update_attempt_candidate ::
  "u64 \<Rightarrow> socket_addr \<Rightarrow> (peer_candidate_attempt \<Rightarrow> peer_candidate_attempt) \<Rightarrow>
   'hs peer_state \<Rightarrow> 'hs peer_state" where
  "update_attempt_candidate session_id address f q =
    (case ps_attempt q of
       None \<Rightarrow> q
     | Some attempt \<Rightarrow>
        if at_session_id attempt \<noteq> session_id then q
        else q\<lparr>ps_attempt := Some (attempt\<lparr>at_candidates :=
          update_first (\<lambda>c. candidate_address (pca_candidate c) = address) f (at_candidates attempt)\<rparr>)\<rparr>)"

definition record_candidate_probe ::
  "'hs node_env \<Rightarrow> nat \<Rightarrow> u64 \<Rightarrow> socket_addr \<Rightarrow> string option \<Rightarrow> 'hs node \<Rightarrow> 'hs node" where
  "record_candidate_probe env p session_id address error s =
    upd_peer p (update_attempt_candidate session_id address (\<lambda>c.
      c\<lparr>pca_last_sent_at := Some (ne_now env), pca_error := error,
        pca_state := (if error \<noteq> None then CandFailed else CandSent)\<rparr>)) s"

definition record_candidate_response ::
  "'hs node_env \<Rightarrow> nat \<Rightarrow> u64 \<Rightarrow> socket_addr \<Rightarrow> 'hs node \<Rightarrow> 'hs node" where
  "record_candidate_response env p session_id address s =
    upd_peer p (update_attempt_candidate session_id address (\<lambda>c.
      c\<lparr>pca_state := CandResponded, pca_responded_at := Some (ne_now env), pca_error := None\<rparr>)) s"

subsection \<open>Handshake\<close>

text \<open>\<open>handshake_context\<close> of the node.\<close>

definition node_handshake_context :: "'hs node_env \<Rightarrow> 'hs node \<Rightarrow> bytes" where
  "node_handshake_context env s =
    encode_handshake_context (nd_network_id s) (node_id_of env s) (nd_incarnation s)
      (nd_local_ipv4 s) (nd_local_ipv6 s) (nd_snapshot_generation s)"

definition safe_virtual_mtu :: "'hs node \<Rightarrow> nat" where
  "safe_virtual_mtu s = min (nc_virtual_mtu (nd_config s)) DEFAULT_VIRTUAL_MTU"

text \<open>A new first message: the role byte, the node id and the Noise message.\<close>

definition create_handshake ::
  "'hs node_env \<Rightarrow> peer_info \<Rightarrow> 'hs node \<Rightarrow> crypto_error + 'hs \<times> bytes" where
  "create_handshake env peer_info s =
    (case noise_initiator (ne_np env) (nd_identity s) (pi_noise_public peer_info) of
       Inl e \<Rightarrow> Inl e
     | Inr hs \<Rightarrow>
    (case write_message (ne_np env) hs (node_handshake_context env s) of
       Inl e \<Rightarrow> Inl e
     | Inr (hs', message) \<Rightarrow> Inr (hs', [1] @ node_as_bytes (node_id_of env s) @ message)))"

definition recently_sent :: "'hs node_env \<Rightarrow> 'hs attempt \<Rightarrow> socket_addr \<Rightarrow> bool" where
  "recently_sent env attempt path \<longleftrightarrow> at_handshake_path attempt = Some path
     \<and> (case at_last_handshake_at attempt of
          None \<Rightarrow> False
        | Some sent_at \<Rightarrow> ne_instant env - sent_at < HANDSHAKE_RETRY_INTERVAL)"

text \<open>The end of \<open>start_initiator\<close>: send the message, and keep the handshake when it is new.\<close>

definition send_handshake ::
  "'hs node_env \<Rightarrow> nat \<Rightarrow> socket_addr \<Rightarrow> u64 \<Rightarrow> 'hs attempt \<Rightarrow> bytes \<Rightarrow> 'hs option \<Rightarrow> 'hs node \<Rightarrow>
   (core_error + unit) \<times> 'hs node" where
  "send_handshake env p path session_id attempt payload new_handshake s =
    (case send_packet env path Handshake session_id 0 payload s of
       (Inl e, s1) \<Rightarrow>
        (Inl e, upd_peer p (record_failure (ne_now env) (''handshake send failed: '' @ ne_error_text env e)) s1)
     | (Inr _, s1) \<Rightarrow>
        let attempt1 = (case new_handshake of
              None \<Rightarrow> attempt
            | Some hs \<Rightarrow> attempt\<lparr>at_handshake := Some hs, at_handshake_payload := Some payload\<rparr>);
            attempt2 = attempt1\<lparr>at_handshake_path := Some path,
              at_last_handshake_at := Some (ne_instant env)\<rparr>
        in (Inr (), emit_peer_connecting p (upd_peer p (\<lambda>q. q\<lparr>ps_attempt := Some attempt2\<rparr>) s1)))"

definition start_initiator ::
  "'hs node_env \<Rightarrow> nat \<Rightarrow> socket_addr \<Rightarrow> u64 \<Rightarrow> 'hs node \<Rightarrow> (core_error + unit) \<times> 'hs node" where
  "start_initiator env p path session_id s =
    (if ps_active (peer_at s p) \<noteq> None then (Inr (), s)
     else case ps_attempt (peer_at s p) of
       None \<Rightarrow> (Inr (), s)
     | Some attempt \<Rightarrow>
        if at_session_id attempt \<noteq> session_id then (Inr (), s)
        else case (at_handshake attempt, at_handshake_payload attempt) of
          (Some _, Some payload) \<Rightarrow>
            if recently_sent env attempt path then (Inr (), s)
            else send_handshake env p path session_id attempt payload None s
        | _ \<Rightarrow>
           (case create_handshake env (ps_info (peer_at s p)) s of
              Inl e \<Rightarrow> (Inl (CoreCrypto e), s)
            | Inr (hs, payload) \<Rightarrow> send_handshake env p path session_id attempt payload (Some hs) s))"

definition new_session ::
  "'hs node_env \<Rightarrow> 'hs node \<Rightarrow> u64 \<Rightarrow> socket_addr \<Rightarrow> session_cipher \<Rightarrow> active_session" where
  "new_session env s session_id path cipher =
    \<lparr>as_session_id = session_id, as_path = path, as_pending_path = None, as_cipher = cipher,
     as_tx_sequence = 1, as_replay = replay_default, as_ping_waiters = [],
     as_pending_keepalive = None, as_last_rx = ne_instant env, as_created_at_unix = ne_now env,
     as_created_at = ne_instant env, as_path_changed_at = None, as_last_rtt_ms = None,
     as_tx_bytes = 0, as_rx_bytes = 0,
     as_path_mtu = mtu_new (safe_virtual_mtu s) (nc_virtual_mtu (nd_config s))\<rparr>"

definition establish ::
  "'hs node_env \<Rightarrow> nat \<Rightarrow> u64 \<Rightarrow> socket_addr \<Rightarrow> session_cipher \<Rightarrow> peer_info \<Rightarrow> 'hs node \<Rightarrow>
   'hs node option" where
  "establish env p session_id path cipher expected_peer s =
    (if ps_active (peer_at s p) \<noteq> None \<or> ps_info (peer_at s p) \<noteq> expected_peer then Some s
     else
       let s1 = upd_peer p (\<lambda>q. q\<lparr>ps_active := Some (new_session env s session_id path cipher)\<rparr>) s;
           s2 = s1\<lparr>nd_sessions := AList.update session_id p (nd_sessions s1)\<rparr>;
           s3 = upd_peer p (\<lambda>q. (clear_failure (record_path (ne_now env) path (pi_candidates expected_peer) q))
                  \<lparr>ps_connecting := False, ps_attempt := None, ps_reconnect := reconnect_default\<rparr>) s2;
           s4 = snd (emit (PeerConnected (pi_node_id (ps_info (peer_at s3 p)))) s3)
       in flush_queue env p s4)"

text \<open>\<open>handle_handshake\<close>, the answer to an initiator.\<close>

definition respond_handshake ::
  "'hs node_env \<Rightarrow> nat \<Rightarrow> node_id \<Rightarrow> wire_packet \<Rightarrow> socket_addr \<Rightarrow> 'hs node \<Rightarrow>
   ((core_error + unit) \<times> 'hs node) option" where
  "respond_handshake env p sender packet source s =
    (let session_id = hdr_session_id (wp_header packet);
         peer_info = ps_info (peer_at s p)
     in case noise_responder (ne_np env) (nd_identity s) of
       Inl e \<Rightarrow> Some (Inl (CoreCrypto e), s)
     | Inr hs \<Rightarrow>
    (case read_message (ne_np env) hs (drop 33 (wp_payload packet)) of
       Inl e \<Rightarrow> Some (Inl (CoreCrypto e), s)
     | Inr (hs1, context) \<Rightarrow>
    (case validate_handshake_context (nd_network_id s) context sender peer_info of
       None \<Rightarrow> None
     | Some (Inl e) \<Rightarrow> Some (Inl e, s)
     | Some (Inr _) \<Rightarrow>
    (case write_message (ne_np env) hs1 (node_handshake_context env s) of
       Inl e \<Rightarrow> Some (Inl (CoreCrypto e), s)
     | Inr (hs2, response) \<Rightarrow>
    (case into_session (ne_cp env) (ne_np env) hs2 of
       Inl e \<Rightarrow> Some (Inl (CoreCrypto e), s)
     | Inr keys \<Rightarrow>
    (case send_packet env source Handshake session_id 0
        ([2] @ node_as_bytes (node_id_of env s) @ response) s of
       (Inl e, s1) \<Rightarrow> Some (Inl e, s1)
     | (Inr _, s1) \<Rightarrow>
       let s2 = (if ps_active (peer_at s1 p) \<noteq> None then invalidate_session p False s1 else s1)
       in map_option (\<lambda>s'. (Inr (), s'))
            (establish env p session_id source (session_cipher_of keys False) peer_info s2)))))))"

text \<open>\<open>handle_handshake\<close>, the answer of a responder. The handshake state is taken out of the attempt
  before the message is read.\<close>

definition finish_handshake ::
  "'hs node_env \<Rightarrow> nat \<Rightarrow> node_id \<Rightarrow> wire_packet \<Rightarrow> socket_addr \<Rightarrow> 'hs node \<Rightarrow>
   ((core_error + unit) \<times> 'hs node) option" where
  "finish_handshake env p sender packet source s =
    (let session_id = hdr_session_id (wp_header packet);
         peer_info = ps_info (peer_at s p)
     in case ps_attempt (peer_at s p) of
       None \<Rightarrow> Some (Inr (), s)
     | Some attempt \<Rightarrow>
       if at_session_id attempt \<noteq> session_id then Some (Inr (), s)
       else case at_handshake attempt of
         None \<Rightarrow> Some (Inr (), s)
       | Some hs \<Rightarrow>
         let s1 = upd_peer p (\<lambda>q. q\<lparr>ps_attempt := Some (attempt\<lparr>at_handshake := None\<rparr>)\<rparr>) s
         in case read_message (ne_np env) hs (drop 33 (wp_payload packet)) of
           Inl e \<Rightarrow> Some (Inl (CoreCrypto e), s1)
         | Inr (hs1, context) \<Rightarrow>
        (case validate_handshake_context (nd_network_id s1) context sender peer_info of
           None \<Rightarrow> None
         | Some (Inl e) \<Rightarrow> Some (Inl e, s1)
         | Some (Inr _) \<Rightarrow>
        (case into_session (ne_cp env) (ne_np env) hs1 of
           Inl e \<Rightarrow> Some (Inl (CoreCrypto e), s1)
         | Inr keys \<Rightarrow>
           let s2 = (if ps_active (peer_at s1 p) \<noteq> None then invalidate_session p False s1 else s1)
           in map_option (\<lambda>s'. (Inr (), s'))
                (establish env p session_id source (session_cipher_of keys True) peer_info s2))))"

definition handle_handshake ::
  "'hs node_env \<Rightarrow> wire_packet \<Rightarrow> socket_addr \<Rightarrow> 'hs node \<Rightarrow> ((core_error + unit) \<times> 'hs node) option" where
  "handle_handshake env packet source s =
    (if length (wp_payload packet) < 34 then Some (Inl InvalidHandshake, s)
     else
       let role = wp_payload packet ! 0;
           sender = NodeId (word_be (take 32 (drop 1 (wp_payload packet))))
       in case peer_for s sender of
         Inl e \<Rightarrow> Some (Inl e, s)
       | Inr p \<Rightarrow>
      (case validate_peer_membership (ne_cp env) (ne_cred env) (ne_now env) (ps_info (peer_at s p))
          (nc_server_public_key (nd_config s)) of
         Inl e \<Rightarrow> Some (Inl e, s)
       | Inr _ \<Rightarrow>
         if map_option as_session_id (ps_active (peer_at s p)) = Some (hdr_session_id (wp_header packet))
         then Some (Inr (), s)
         else if role = 1 then
           if node_id_of env s < sender then Some (Inr (), s)
           else respond_handshake env p sender packet source s
         else if role = 2 then
           if sender < node_id_of env s then Some (Inr (), s)
           else finish_handshake env p sender packet source s
         else Some (Inr (), s)))"

subsection \<open>Probes\<close>

text \<open>The checks shared by \<open>handle_probe\<close> and \<open>handle_probe_response\<close>.\<close>

definition authenticate_probe ::
  "'hs node_env \<Rightarrow> bytes \<Rightarrow> 'hs node \<Rightarrow> core_error + probe \<times> nat" where
  "authenticate_probe env payload s =
    (case decode_probe payload of
       Inl e \<Rightarrow> Inl e
     | Inr probe \<Rightarrow>
       if pr_receiver probe \<noteq> node_id_of env s then Inl InvalidProbe
       else case peer_for s (pr_sender probe) of
         Inl e \<Rightarrow> Inl e
       | Inr p \<Rightarrow>
      (case validate_peer_membership (ne_cp env) (ne_cred env) (ne_now env) (ps_info (peer_at s p))
          (nc_server_public_key (nd_config s)) of
         Inl e \<Rightarrow> Inl e
       | Inr _ \<Rightarrow>
      (case verify_probe (ne_cp env) (ne_now env) probe (ps_info (peer_at s p)) of
         Inl e \<Rightarrow> Inl e
       | Inr _ \<Rightarrow> Inr (probe, p))))"

definition handle_probe ::
  "'hs node_env \<Rightarrow> wire_packet \<Rightarrow> socket_addr \<Rightarrow> 'hs node \<Rightarrow> (core_error + unit) \<times> 'hs node" where
  "handle_probe env packet source s =
    (case authenticate_probe env (wp_payload packet) s of
       Inl e \<Rightarrow> (Inl e, s)
     | Inr (probe, p) \<Rightarrow>
       let payload = encode_probe (ne_cp env) (node_id_of env s) (pr_sender probe)
             (pr_session_id probe) (pr_timestamp probe) (pr_nonce probe) (nd_identity s)
       in case send_packet env source ProbeResponse (pr_session_id probe) 0 payload s of
         (Inl e, s1) \<Rightarrow> (Inl e, s1)
       | (Inr _, s1) \<Rightarrow>
         let s2 = emit_peer_connecting p s1
         in if node_id_of env s < pr_sender probe then
              let attempt = ps_attempt (peer_at s2 p);
                  can_replace = (case attempt of None \<Rightarrow> True | Some value \<Rightarrow> at_handshake value = None);
                  s3 = (if can_replace \<and> map_option at_session_id attempt \<noteq> Some (pr_session_id probe)
                    then upd_peer p (\<lambda>q. q\<lparr>ps_attempt := Some (new_attempt env (nd_config s)
                      (pr_session_id probe) (pi_candidates (ps_info (peer_at s p))))\<rparr>) s2
                    else s2)
              in start_initiator env p source (pr_session_id probe) s3
            else (Inr (), s2))"

definition handle_probe_response ::
  "'hs node_env \<Rightarrow> wire_packet \<Rightarrow> socket_addr \<Rightarrow> 'hs node \<Rightarrow> (core_error + unit) \<times> 'hs node" where
  "handle_probe_response env packet source s =
    (case authenticate_probe env (wp_payload packet) s of
       Inl e \<Rightarrow> (Inl e, s)
     | Inr (probe, p) \<Rightarrow>
       if map_option at_session_id (ps_attempt (peer_at s p)) \<noteq> Some (pr_session_id probe)
       then (Inr (), s)
       else
         let s1 = record_candidate_response env p (pr_session_id probe) source s
         in if node_id_of env s < pr_sender probe
            then start_initiator env p source (pr_session_id probe) s1
            else (Inr (), s1))"

subsection \<open>Data packets\<close>

definition count_receive ::
  "nat \<Rightarrow> (peer_receive_counters \<Rightarrow> peer_receive_counters) \<Rightarrow> 'hs node \<Rightarrow> 'hs node" where
  "count_receive p f s = upd_peer p (\<lambda>q. q\<lparr>ps_receive := f (ps_receive q)\<rparr>) s"

definition count_transport ::
  "(transport_receive_counters \<Rightarrow> transport_receive_counters) \<Rightarrow> 'hs node \<Rightarrow> 'hs node" where
  "count_transport f s = s\<lparr>nd_receive := f (nd_receive s)\<rparr>"

abbreviation count_unassociated :: "'hs node \<Rightarrow> 'hs node" where
  "count_unassociated \<equiv> count_transport (\<lambda>c. c\<lparr>tr_unassociated_data_datagrams := tr_unassociated_data_datagrams c + 1\<rparr>)"

abbreviation count_worker_packet :: "nat \<Rightarrow> 'hs node \<Rightarrow> 'hs node" where
  "count_worker_packet p \<equiv> count_receive p (\<lambda>c. c\<lparr>pr_worker_data_packets := pr_worker_data_packets c + 1\<rparr>)"

abbreviation count_decrypt_failure :: "nat \<Rightarrow> 'hs node \<Rightarrow> 'hs node" where
  "count_decrypt_failure p \<equiv> count_receive p (\<lambda>c. c\<lparr>pr_decrypt_failures := pr_decrypt_failures c + 1\<rparr>)"

abbreviation count_parse_failure :: "nat \<Rightarrow> 'hs node \<Rightarrow> 'hs node" where
  "count_parse_failure p \<equiv> count_receive p (\<lambda>c. c\<lparr>pr_ip_parse_failures := pr_ip_parse_failures c + 1\<rparr>)"

abbreviation count_replay_drop :: "nat \<Rightarrow> 'hs node \<Rightarrow> 'hs node" where
  "count_replay_drop p \<equiv> count_receive p (\<lambda>c. c\<lparr>pr_replay_drops := pr_replay_drops c + 1\<rparr>)"

abbreviation count_invalid_destination :: "nat \<Rightarrow> 'hs node \<Rightarrow> 'hs node" where
  "count_invalid_destination p \<equiv> count_receive p (\<lambda>c. c\<lparr>pr_invalid_destinations := pr_invalid_destinations c + 1\<rparr>)"

abbreviation count_accepted :: "nat \<Rightarrow> 'hs node \<Rightarrow> 'hs node" where
  "count_accepted p \<equiv> count_receive p (\<lambda>c. c\<lparr>pr_accepted_ip_packets := pr_accepted_ip_packets c + 1\<rparr>)"

abbreviation count_queue_drop :: "nat \<Rightarrow> 'hs node \<Rightarrow> 'hs node" where
  "count_queue_drop p \<equiv> count_receive p (\<lambda>c. c\<lparr>pr_event_queue_drops := pr_event_queue_drops c + 1\<rparr>)"

definition data_decrypt_context_at ::
  "data_packet \<Rightarrow> u64 \<Rightarrow> 'hs node \<Rightarrow> (core_error + (nat \<times> session_cipher) option) \<times> 'hs node" where
  "data_decrypt_context_at packet now s =
    (let session_id = hdr_session_id (dp_header packet) in
     case session_peer s session_id of
       None \<Rightarrow> (Inr None, s)
     | Some p \<Rightarrow>
       if nc_server_public_key (nd_config s) \<noteq> None \<and> membership_expired_at (peer_at s p) now
       then (Inl PeerCredentialExpired, invalidate_session p True s)
       else case ps_active (peer_at s p) of
         None \<Rightarrow> (Inr None, remove_session p session_id s)
       | Some session \<Rightarrow>
          if as_session_id session = session_id then (Inr (Some (p, as_cipher session)), s)
          else (Inr None, remove_session p session_id s))"

text \<open>\<open>observe_data_source\<close>, and what follows from it: whether the path changed, and whether its
  MTU was reset.\<close>

definition observe_data_source :: "instant \<Rightarrow> socket_addr \<Rightarrow> active_session \<Rightarrow> bool \<times> active_session" where
  "observe_data_source now source session =
    (let (moved, pending) = confirm_path_migration (as_path session) (as_pending_path session) source now;
         session = session\<lparr>as_pending_path := pending\<rparr>
     in if \<not> moved then (False, session) else (True, session\<lparr>as_path := source\<rparr>))"

text \<open>A packet that the replay window lets through, under the lock of the session.\<close>

definition commit_session ::
  "'hs node_env \<Rightarrow> 'hs node \<Rightarrow> socket_addr \<Rightarrow> nat \<Rightarrow> candidate list \<Rightarrow> active_session \<Rightarrow> 'hs peer_state \<Rightarrow>
   bool \<times> bool \<times> 'hs peer_state" where
  "commit_session env s source encrypted_len candidates session q =
    (let session = session\<lparr>as_last_rx := ne_instant env\<rparr>;
         (path_changed, session) = observe_data_source (ne_instant env) source session;
         (reset, session, q) =
           (if path_changed then
              let (reset, path_mtu) = mtu_reset (as_path_mtu session) (safe_virtual_mtu s)
                    (nc_virtual_mtu (nd_config s))
              in (reset, session\<lparr>as_path_changed_at := Some (ne_now env), as_path_mtu := path_mtu\<rparr>,
                  record_path (ne_now env) source candidates q)
            else (False, session, q));
         session = session\<lparr>as_rx_bytes := as_rx_bytes session + word_of_nat encrypted_len\<rparr>
     in (path_changed, reset, q\<lparr>ps_active := Some session\<rparr>))"

definition received_sample :: "node_id \<Rightarrow> socket_addr \<Rightarrow> nat \<Rightarrow> ip_packet \<Rightarrow> traffic_sample" where
  "received_sample peer_id source encrypted_len packet =
    \<lparr>ts_peer = Some peer_id, ts_direction = DirReceived, ts_path = source,
     ts_payload_bytes = length (ip_bytes packet), ts_encrypted_bytes = encrypted_len,
     ts_wire_bytes = HEADER_LEN + encrypted_len\<rparr>"

text \<open>The delivery of an accepted packet: the observer, the path events and the packet.\<close>

definition deliver_packet ::
  "nat \<Rightarrow> socket_addr \<Rightarrow> nat \<Rightarrow> ip_packet \<Rightarrow> bool \<Rightarrow> bool \<Rightarrow> 'hs node \<Rightarrow> 'hs node" where
  "deliver_packet p source encrypted_len packet path_changed reset s =
    (let peer_id = ps_id (peer_at s p);
         s1 = observe (received_sample peer_id source encrypted_len packet) (count_accepted p s);
         s2 = (if path_changed then snd (emit (PathChanged peer_id source) s1) else s1);
         s3 = (if reset then snd (emit (PathMtuChanged peer_id source (safe_virtual_mtu s2)) s2) else s2);
         (delivered, s4) = emit (IpPacketEvent peer_id packet) s3
     in if \<not> delivered then count_queue_drop p s4 else s4)"

definition commit_ip_data ::
  "'hs node_env \<Rightarrow> nat \<Rightarrow> data_packet \<Rightarrow> 'hs node \<Rightarrow> ((core_error + unit) \<times> 'hs node) option" where
  "commit_ip_data env p packet s =
    (case ip_parse (dp_payload packet) of
       None \<Rightarrow> None
     | Some (Inl e) \<Rightarrow> Some (Inl (CoreIp e), count_parse_failure p s)
     | Some (Inr ip_packet) \<Rightarrow> Some
    (case ps_active (peer_at s p) of
       None \<Rightarrow> (Inr (), s)
     | Some session \<Rightarrow>
       if as_session_id session \<noteq> hdr_session_id (dp_header packet) then (Inr (), s)
       else
         let (accepted, replay) = replay_accept (as_replay session) (hdr_sequence (dp_header packet))
         in if \<not> accepted then (Inr (), count_replay_drop p s)
            else
              let (path_changed, reset, q) = commit_session env s (dp_source packet)
                    (dp_encrypted_len packet) (pi_candidates (ps_info (peer_at s p)))
                    (session\<lparr>as_replay := replay\<rparr>) (peer_at s p);
                  s1 = upd_peer p (\<lambda>_. q) s
              in if \<not> is_local (nd_routes s1) (ip_destination ip_packet)
                 then (Inl (CoreIp (DestinationUnknown (ip_destination ip_packet))),
                       count_invalid_destination p s1)
                 else (Inr (), deliver_packet p (dp_source packet) (dp_encrypted_len packet)
                        ip_packet path_changed reset s1)))"

definition decrypt_packet ::
  "crypto_prims \<Rightarrow> session_cipher \<Rightarrow> data_packet \<Rightarrow> crypto_error + data_packet" where
  "decrypt_packet cp cipher packet =
    (case decrypt_in_place cp cipher (hdr_sequence (dp_header packet))
        (encoded_header (dp_header packet)) (dp_payload packet) of
       Inl e \<Rightarrow> Inl e
     | Inr plaintext \<Rightarrow> Inr (packet\<lparr>dp_payload := plaintext\<rparr>))"

definition decrypt_data_inline_at ::
  "'hs node_env \<Rightarrow> data_packet \<Rightarrow> u64 \<Rightarrow> 'hs node \<Rightarrow> ((core_error + unit) \<times> 'hs node) option" where
  "decrypt_data_inline_at env packet now s =
    (case data_decrypt_context_at packet now s of
       (Inl e, s1) \<Rightarrow> Some (Inl e, s1)
     | (Inr None, s1) \<Rightarrow> Some (Inr (), count_unassociated s1)
     | (Inr (Some (p, cipher)), s1) \<Rightarrow>
       let s2 = count_worker_packet p s1
       in case decrypt_packet (ne_cp env) cipher packet of
            Inl e \<Rightarrow> Some (Inl (CoreCrypto e), count_decrypt_failure p s2)
          | Inr packet' \<Rightarrow> commit_ip_data env p packet' s2)"

subsection \<open>Batches of data packets\<close>

text \<open>\<open>queue_data_decrypt_batch\<close>: the context of a session is looked up once for the batch; an error
  of the lookup counts as a missing context. Then \<open>finish_data_decrypt\<close>: the packets that
  decrypt, in order.\<close>

type_synonym decrypt_contexts = "(u64 \<times> (nat \<times> session_cipher) option) list"

fun decrypt_jobs ::
  "u64 \<Rightarrow> data_packet list \<Rightarrow> decrypt_contexts \<Rightarrow> 'hs node \<Rightarrow>
   (nat \<times> session_cipher \<times> data_packet) list \<times> 'hs node" where
  "decrypt_jobs now [] contexts s = ([], s)"
| "decrypt_jobs now (packet # packets) contexts s =
    (let session_id = hdr_session_id (dp_header packet);
         (contexts1, s1) =
           (case map_of contexts session_id of
              Some _ \<Rightarrow> (contexts, s)
            | None \<Rightarrow>
               (case data_decrypt_context_at packet now s of
                  (Inl _, s') \<Rightarrow> (AList.update session_id None contexts, s')
                | (Inr context, s') \<Rightarrow> (AList.update session_id context contexts, s')))
     in case map_of contexts1 session_id of
          Some (Some (p, cipher)) \<Rightarrow>
            let (jobs, s2) = decrypt_jobs now packets contexts1 (count_worker_packet p s1)
            in ((p, cipher, packet) # jobs, s2)
        | _ \<Rightarrow> decrypt_jobs now packets contexts1 (count_unassociated s1))"

fun run_decrypt_jobs ::
  "crypto_prims \<Rightarrow> (nat \<times> session_cipher \<times> data_packet) list \<Rightarrow> 'hs node \<Rightarrow>
   (nat \<times> data_packet) list \<times> 'hs node" where
  "run_decrypt_jobs cp [] s = ([], s)"
| "run_decrypt_jobs cp ((p, cipher, packet) # jobs) s =
    (case decrypt_packet cp cipher packet of
       Inl _ \<Rightarrow> run_decrypt_jobs cp jobs (count_decrypt_failure p s)
     | Inr packet' \<Rightarrow>
        let (decrypted, s') = run_decrypt_jobs cp jobs s in ((p, packet') # decrypted, s'))"

text \<open>\<open>commit_ip_data_batch\<close>: parse all, commit all (session by session), then deliver all.\<close>

fun parse_batch ::
  "(nat \<times> data_packet) list \<Rightarrow> 'hs node \<Rightarrow> ((nat \<times> data_packet \<times> ip_packet) list \<times> 'hs node) option" where
  "parse_batch [] s = Some ([], s)"
| "parse_batch ((p, packet) # packets) s =
    (case ip_parse (dp_payload packet) of
       None \<Rightarrow> None
     | Some (Inl _) \<Rightarrow> parse_batch packets (count_parse_failure p s)
     | Some (Inr ip_packet) \<Rightarrow>
        map_option (\<lambda>(parsed, s'). ((p, packet, ip_packet) # parsed, s')) (parse_batch packets s))"

record committed =
  cm_peer :: nat
  cm_source :: socket_addr
  cm_encrypted_len :: nat
  cm_packet :: ip_packet
  cm_path_changed :: bool
  cm_mtu_reset :: bool

text \<open>One run of consecutive packets of a session, whose active session is held.\<close>

fun commit_run ::
  "'hs node_env \<Rightarrow> nat \<Rightarrow> candidate list \<Rightarrow> (nat \<times> data_packet \<times> ip_packet) list \<Rightarrow> 'hs node \<Rightarrow>
   committed list \<times> 'hs node" where
  "commit_run env p candidates [] s = ([], s)"
| "commit_run env p candidates ((_, packet, ip_packet) # run) s =
    (case ps_active (peer_at s p) of
       None \<Rightarrow> ([], s)
     | Some session \<Rightarrow>
       let (accepted, replay) = replay_accept (as_replay session) (hdr_sequence (dp_header packet))
       in if \<not> accepted then commit_run env p candidates run (count_replay_drop p s)
          else
            let (path_changed, reset, q) = commit_session env s (dp_source packet)
                  (dp_encrypted_len packet) candidates (session\<lparr>as_replay := replay\<rparr>) (peer_at s p);
                (rest, s1) = commit_run env p candidates run (upd_peer p (\<lambda>_. q) s)
            in (\<lparr>cm_peer = p, cm_source = dp_source packet, cm_encrypted_len = dp_encrypted_len packet,
                 cm_packet = ip_packet, cm_path_changed = path_changed, cm_mtu_reset = reset\<rparr> # rest, s1))"

definition same_session :: "nat \<Rightarrow> u64 \<Rightarrow> nat \<times> data_packet \<times> ip_packet \<Rightarrow> bool" where
  "same_session p session_id entry \<longleftrightarrow>
    fst entry = p \<and> hdr_session_id (dp_header (fst (snd entry))) = session_id"

function commit_runs ::
  "'hs node_env \<Rightarrow> (nat \<times> data_packet \<times> ip_packet) list \<Rightarrow> 'hs node \<Rightarrow> committed list \<times> 'hs node" where
  "commit_runs env [] s = ([], s)"
| "commit_runs env ((p, packet, ip_packet) # parsed) s =
    (let session_id = hdr_session_id (dp_header packet);
         run = (p, packet, ip_packet) # takeWhile (same_session p session_id) parsed;
         rest = dropWhile (same_session p session_id) parsed;
         (committed, s1) =
           (if map_option as_session_id (ps_active (peer_at s p)) = Some session_id
            then commit_run env p (pi_candidates (ps_info (peer_at s p))) run s
            else ([], s));
         (committed', s2) = commit_runs env rest s1
     in (committed @ committed', s2))"
  by pat_completeness auto
termination
  by (relation "measure (\<lambda>(env, parsed, s). length parsed)") (auto simp: le_imp_less_Suc length_dropWhile_le)

fun accept_batch :: "committed list \<Rightarrow> 'hs node \<Rightarrow> committed list \<times> 'hs node" where
  "accept_batch [] s = ([], s)"
| "accept_batch (c # cs) s =
    (if \<not> is_local (nd_routes s) (ip_destination (cm_packet c))
     then accept_batch cs (count_invalid_destination (cm_peer c) s)
     else let (accepted, s') = accept_batch cs s in (c # accepted, s'))"

definition deliver_committed :: "committed \<Rightarrow> 'hs node \<Rightarrow> 'hs node" where
  "deliver_committed c = deliver_packet (cm_peer c) (cm_source c) (cm_encrypted_len c) (cm_packet c)
     (cm_path_changed c) (cm_mtu_reset c)"

definition commit_ip_data_batch ::
  "'hs node_env \<Rightarrow> (nat \<times> data_packet) list \<Rightarrow> 'hs node \<Rightarrow> 'hs node option" where
  "commit_ip_data_batch env packets s =
    (case parse_batch packets s of
       None \<Rightarrow> None
     | Some (parsed, s1) \<Rightarrow>
        let (committed, s2) = commit_runs env parsed s1;
            (accepted, s3) = accept_batch committed s2
        in Some (fold deliver_committed accepted s3))"

text \<open>The body of \<open>data_loop\<close> for the packets that one \<open>recv_many\<close> returned.\<close>

definition data_batch :: "'hs node_env \<Rightarrow> data_packet list \<Rightarrow> 'hs node \<Rightarrow> 'hs node option" where
  "data_batch env batch s =
    (let now = ne_now env;
         snapshot_expired = (now \<ge> nd_snapshot_expires_at s);
         s1 = count_transport (\<lambda>c. c\<lparr>tr_worker_data_datagrams :=
                tr_worker_data_datagrams c + word_of_nat (length batch)\<rparr>) s
     in if snapshot_expired then Some s1
        else case batch of
          [packet] \<Rightarrow> map_option snd (decrypt_data_inline_at env packet now s1)
        | _ \<Rightarrow>
          let (jobs, s2) = decrypt_jobs now batch [] s1;
              (decrypted, s3) = run_decrypt_jobs (ne_cp env) jobs s2
          in commit_ip_data_batch env decrypted s3)"

definition DATA_WORKER_BATCH_SIZE :: nat where
  "DATA_WORKER_BATCH_SIZE = 64"

definition data_worker_step :: "'hs node_env \<Rightarrow> nat \<Rightarrow> 'hs node \<Rightarrow> 'hs node option" where
  "data_worker_step env w s =
    (let queue = nd_workers s ! w in
     data_batch env (take DATA_WORKER_BATCH_SIZE queue)
       (s\<lparr>nd_workers := (nd_workers s)[w := drop DATA_WORKER_BATCH_SIZE queue]\<rparr>))"

subsection \<open>Session packets\<close>

definition KEEPALIVE_NONCE_LEN :: nat where
  "KEEPALIVE_NONCE_LEN = 16"

definition DIAGNOSTIC_NONCE_LEN :: nat where
  "DIAGNOSTIC_NONCE_LEN = 16"

definition MTU_PROBE_NONCE_LEN :: nat where
  "MTU_PROBE_NONCE_LEN = 16"

text \<open>What a session packet leads to: events, an answer to the sender, and the ping it completes.\<close>

record session_outcome =
  so_events :: "vela_event list"
  so_response :: "(packet_type \<times> u64 \<times> bytes) option"
  so_pong :: "nat option"

definition no_outcome :: session_outcome where
  "no_outcome = \<lparr>so_events = [], so_response = None, so_pong = None\<rparr>"

text \<open>The answers of \<open>handle_data\<close>: a sequence number is taken even when the encryption fails.\<close>

definition answer_session ::
  "crypto_prims \<Rightarrow> packet_type \<Rightarrow> bytes \<Rightarrow> active_session \<Rightarrow> (core_error + session_outcome) \<times> active_session" where
  "answer_session cp packet_type payload session =
    (let sequence = as_tx_sequence session;
         session' = session\<lparr>as_tx_sequence := sequence + 1\<rparr>
     in case encrypt_payload cp (as_session_id session) (as_cipher session) packet_type sequence payload of
          Inl e \<Rightarrow> (Inl e, session')
        | Inr encrypted \<Rightarrow> (Inr (no_outcome\<lparr>so_response := Some (packet_type, sequence, encrypted)\<rparr>), session'))"

definition elapsed_ms :: "instant \<Rightarrow> instant \<Rightarrow> u64" where
  "elapsed_ms now sent_at =
    (let ms = (now - sent_at) div 10 ^ 6 in if ms < 2 ^ 64 then word_of_nat ms else - 1)"

text \<open>The \<open>match\<close> of \<open>handle_data\<close>. Its branch for data packets cannot be reached, since these have
  been handed on before.\<close>

definition handle_session_packet ::
  "'hs node_env \<Rightarrow> 'hs node \<Rightarrow> node_id \<Rightarrow> packet_type \<Rightarrow> socket_addr \<Rightarrow> bytes \<Rightarrow> active_session \<Rightarrow>
   (core_error + session_outcome) \<times> active_session" where
  "handle_session_packet env s peer_id packet_type source plaintext session =
    (case packet_type of
       KeepAlive \<Rightarrow>
        if length plaintext \<noteq> KEEPALIVE_NONCE_LEN then (Inl InvalidKeepAlive, session)
        else answer_session (ne_cp env) KeepAliveAck plaintext session
     | KeepAliveAck \<Rightarrow>
        if length plaintext \<noteq> KEEPALIVE_NONCE_LEN then (Inl InvalidKeepAlive, session)
        else (Inr no_outcome,
          case as_pending_keepalive session of
            None \<Rightarrow> session
          | Some (keepalive_nonce, sent_at) \<Rightarrow>
             if to_be 16 keepalive_nonce = plaintext
             then session\<lparr>as_pending_keepalive := None,
                    as_last_rtt_ms := Some (elapsed_ms (ne_instant env) sent_at)\<rparr>
             else session)
     | DiagnosticPing \<Rightarrow>
        if length plaintext \<noteq> DIAGNOSTIC_NONCE_LEN then (Inl InvalidDiagnosticPing, session)
        else answer_session (ne_cp env) DiagnosticPong plaintext session
     | DiagnosticPong \<Rightarrow>
        if length plaintext \<noteq> DIAGNOSTIC_NONCE_LEN then (Inl InvalidDiagnosticPing, session)
        else let ping_nonce = word_be plaintext
          in (Inr (no_outcome\<lparr>so_pong := map_of (as_ping_waiters session) ping_nonce\<rparr>),
              session\<lparr>as_ping_waiters := AList.delete ping_nonce (as_ping_waiters session)\<rparr>)
     | MtuProbe \<Rightarrow>
        if length plaintext < MTU_PROBE_NONCE_LEN then (Inl InvalidMtuProbe, session)
        else
          let mtu = nc_virtual_mtu (nd_config s);
              local_max_mtu = (if mtu < 2 ^ 16 then word_of_nat mtu else - 1 :: u16)
          in answer_session (ne_cp env) MtuProbeAck
               (take MTU_PROBE_NONCE_LEN plaintext @ to_be 2 local_max_mtu) session
     | MtuProbeAck \<Rightarrow>
        if length plaintext \<noteq> MTU_PROBE_NONCE_LEN + 2 then (Inl InvalidMtuProbe, session)
        else if source \<noteq> as_path session then (Inr no_outcome, session)
        else
          let peer_max_mtu = unat (word_be (drop MTU_PROBE_NONCE_LEN plaintext) :: u16);
              (changed, path_mtu) = acknowledge (as_path_mtu session)
                (word_be (take MTU_PROBE_NONCE_LEN plaintext)) peer_max_mtu
          in (Inr (case changed of
                 None \<Rightarrow> no_outcome
               | Some mtu \<Rightarrow> no_outcome\<lparr>so_events := [PathMtuChanged peer_id (as_path session) mtu]\<rparr>),
              session\<lparr>as_path_mtu := path_mtu\<rparr>)
     | _ \<Rightarrow> (Inl InvalidDiagnosticPing, session))"

definition finish_session_packet ::
  "'hs node_env \<Rightarrow> u64 \<Rightarrow> socket_addr \<Rightarrow> session_outcome \<Rightarrow> 'hs node \<Rightarrow> (core_error + unit) \<times> 'hs node" where
  "finish_session_packet env session_id source outcome s =
    (let s1 = (case so_pong outcome of
           None \<Rightarrow> s
         | Some waiter \<Rightarrow> s\<lparr>nd_ping_answers := nd_ping_answers s @ [(waiter, source)]\<rparr>);
         s2 = fold (\<lambda>event s. snd (emit event s)) (so_events outcome) s1
     in case so_response outcome of
          None \<Rightarrow> (Inr (), s2)
        | Some (packet_type, sequence, payload) \<Rightarrow>
           send_packet env source packet_type session_id sequence payload s2)"

definition handle_session_data ::
  "'hs node_env \<Rightarrow> wire_packet \<Rightarrow> socket_addr \<Rightarrow> 'hs node \<Rightarrow> (core_error + unit) \<times> 'hs node" where
  "handle_session_data env packet source s =
    (let header = wp_header packet;
         session_id = hdr_session_id header
     in case session_peer s session_id of
       None \<Rightarrow> (Inr (), s)
     | Some p \<Rightarrow>
       let peer_info = ps_info (peer_at s p)
       in case ps_active (peer_at s p) of
         None \<Rightarrow> (Inr (), remove_session p session_id s)
       | Some session \<Rightarrow>
         if as_session_id session \<noteq> session_id then (Inr (), remove_session p session_id s)
         else if nc_server_public_key (nd_config s) \<noteq> None
           \<and> validate_peer_membership (ne_cp env) (ne_cred env) (ne_now env) peer_info
               (nc_server_public_key (nd_config s)) \<noteq> Inr ()
         then
           let s1 = remove_session p session_id (upd_peer p (\<lambda>q. q\<lparr>ps_active := None\<rparr>) s);
               s2 = upd_peer p (\<lambda>q. q\<lparr>ps_attempt := None, ps_queue := []\<rparr>) s1
           in (Inl PeerCredentialExpired, snd (emit (PeerDisconnected (pi_node_id peer_info)) s2))
         else case decrypt_in_place (ne_cp env) (as_cipher session) (hdr_sequence header)
             (encoded_header header) (wp_payload packet) of
           Inl e \<Rightarrow> (Inl (CoreCrypto e), s)
         | Inr plaintext \<Rightarrow>
           let (accepted, replay) = replay_accept (as_replay session) (hdr_sequence header)
           in if \<not> accepted then (Inr (), s)
              else
                let session1 = session\<lparr>as_replay := replay, as_last_rx := ne_instant env,
                      as_rx_bytes := as_rx_bytes session + word_of_nat (length (wp_payload packet))\<rparr>;
                    (result, session2) = handle_session_packet env s (pi_node_id peer_info)
                      (hdr_packet_type header) source plaintext session1;
                    s1 = upd_peer p (\<lambda>q. q\<lparr>ps_active := Some session2\<rparr>) s
                in case result of
                     Inl e \<Rightarrow> (Inl e, s1)
                   | Inr outcome \<Rightarrow> finish_session_packet env session_id source outcome s1)"

definition handle_data ::
  "'hs node_env \<Rightarrow> wire_packet \<Rightarrow> socket_addr \<Rightarrow> 'hs node \<Rightarrow> ((core_error + unit) \<times> 'hs node) option" where
  "handle_data env packet source s =
    (if hdr_packet_type (wp_header packet) = Data then
       case wire_packet_encode packet of
         Inl e \<Rightarrow> Some (Inl (CoreProtocol e), s)
       | Inr encoded \<Rightarrow>
      (case decode_data_packet encoded (wp_header packet) source of
         Inl e \<Rightarrow> Some (Inl (CoreProtocol e), s)
       | Inr data_packet \<Rightarrow> decrypt_data_inline_at env data_packet (ne_now env) s)
     else Some (handle_session_data env packet source s))"

definition handle_packet ::
  "'hs node_env \<Rightarrow> bytes \<Rightarrow> socket_addr \<Rightarrow> 'hs node \<Rightarrow> ((core_error + unit) \<times> 'hs node) option" where
  "handle_packet env input source s =
    (if ne_now env \<ge> nd_snapshot_expires_at s then Some (Inl CoreSnapshotExpired, s)
     else case wire_packet_decode_bytes input of
       Inl e \<Rightarrow> Some (Inl (CoreProtocol e), s)
     | Inr packet \<Rightarrow>
      (case hdr_packet_type (wp_header packet) of
         Probe \<Rightarrow> Some (handle_probe env packet source s)
       | ProbeResponse \<Rightarrow> Some (handle_probe_response env packet source s)
       | Handshake \<Rightarrow> handle_handshake env packet source s
       | _ \<Rightarrow> handle_data env packet source s))"

subsection \<open>Dispatch of datagrams\<close>

definition STUN_MAGIC_COOKIE :: bytes where
  "STUN_MAGIC_COOKIE = to_be 4 (0x2112A442 :: u32)"

definition stun_transaction_id :: "bytes \<Rightarrow> 96 word option" where
  "stun_transaction_id input =
    (if length input < 20 \<or> input ! 0 AND 0xC0 \<noteq> 0 \<or> take 4 (drop 4 input) \<noteq> STUN_MAGIC_COOKIE
     then None
     else Some (word_be (take 12 (drop 8 input))))"

definition DATA_WORKER_QUEUE_LIMIT :: nat where
  "DATA_WORKER_QUEUE_LIMIT = 2048"

definition queue_data_packet :: "data_packet \<Rightarrow> 'hs node \<Rightarrow> 'hs node" where
  "queue_data_packet packet s =
    (let worker = unat (hdr_session_id (dp_header packet)) mod length (nd_workers s);
         queue = nd_workers s ! worker
     in if length queue < DATA_WORKER_QUEUE_LIMIT
        then s\<lparr>nd_workers := (nd_workers s)[worker := queue @ [packet]]\<rparr>
        else count_transport (\<lambda>c. c\<lparr>tr_data_queue_drops := tr_data_queue_drops c + 1\<rparr>) s)"

definition dispatch_stun :: "96 word \<Rightarrow> bytes \<Rightarrow> socket_addr \<Rightarrow> 'hs node \<Rightarrow> 'hs node" where
  "dispatch_stun transaction packet source s =
    (let s1 = count_transport (\<lambda>c. c\<lparr>tr_stun_datagrams := tr_stun_datagrams c + 1\<rparr>) s
     in case map_of (nd_stun_waiters s1) transaction of
          None \<Rightarrow> s1
        | Some (_, target, waiter) \<Rightarrow>
           if target = source
           then s1\<lparr>nd_stun_waiters := AList.delete transaction (nd_stun_waiters s1),
                   nd_stun_answers := nd_stun_answers s1 @ [(waiter, packet, source)]\<rparr>
           else s1)"

text \<open>The body of the loop of \<open>read_loop\<close> for one datagram.\<close>

definition receive_datagram :: "'hs node_env \<Rightarrow> bytes \<Rightarrow> socket_addr \<Rightarrow> 'hs node \<Rightarrow> 'hs node option" where
  "receive_datagram env packet source s =
    (let s1 = count_transport (\<lambda>c. c\<lparr>tr_udp_datagrams := tr_udp_datagrams c + 1\<rparr>) s
     in case stun_transaction_id packet of
       Some transaction \<Rightarrow> Some (dispatch_stun transaction packet source s1)
     | None \<Rightarrow>
      (case header_decode packet of
         Inl _ \<Rightarrow> map_option snd (handle_packet env packet source s1)
       | Inr header \<Rightarrow>
          if hdr_packet_type header \<noteq> Data then map_option snd (handle_packet env packet source s1)
          else
            let s2 = count_transport (\<lambda>c. c\<lparr>tr_data_datagrams := tr_data_datagrams c + 1\<rparr>) s1
            in case decode_data_packet packet header source of
                 Inl _ \<Rightarrow> Some s2
               | Inr data_packet \<Rightarrow> Some (queue_data_packet data_packet s2)))"

text \<open>\<open>StunSocketAdapter::send_to\<close> on a started node: a waiter is registered for ten seconds before
  the request is sent. \<open>waiter\<close> is the number of the receiving end.\<close>

definition stun_send_to ::
  "'hs node_env \<Rightarrow> bytes \<Rightarrow> socket_addr \<Rightarrow> nat \<Rightarrow> 'hs node \<Rightarrow> string option \<times> nat option \<times> 'hs node" where
  "stun_send_to env bytes target waiter s =
    (if \<not> nd_started s then (case socket_send env bytes target s of (r, s') \<Rightarrow> (r, None, s'))
     else case stun_transaction_id bytes of
       None \<Rightarrow> (case socket_send env bytes target s of (r, s') \<Rightarrow> (r, None, s'))
     | Some transaction \<Rightarrow>
       let now = ne_instant env;
           waiters = filter (\<lambda>(_, deadline, _, _). deadline > now) (nd_stun_waiters s);
           s1 = s\<lparr>nd_stun_waiters := AList.update transaction (now + 10 * 10 ^ 9, target, waiter) waiters\<rparr>
       in case socket_send env bytes target s1 of
            (None, s2) \<Rightarrow> (None, Some waiter, s2)
          | (Some e, s2) \<Rightarrow>
             (Some e, None, s2\<lparr>nd_stun_waiters := AList.delete transaction (nd_stun_waiters s2)\<rparr>))"

end
