(* ===== verification/Vela_Tasks.thy ===== *)
theory Vela_Tasks
  imports Vela_Session
begin

section \<open>Connecting, maintenance tasks and status (vela-core)\<close>

text \<open>
  The long-running parts of a node, as the steps between their waits: \<open>connect\<close> (its start and
  one turn of its loop), the reconnect loop, one tick of the keepalive and of the MTU loop, a
  round of \<open>diagnostic_ping\<close>, \<open>start\<close> and \<open>shutdown\<close>, the consumers of events, and the status
  view of \<open>peer_statuses\<close>.
\<close>

subsection \<open>Connecting\<close>

datatype connect_error =
    ConnectNotStarted
  | ConnectUnknownPeer
  | NoCandidates
  | ConnectTimeout
  | Superseded
  | ConnectCore core_error

fun connect_error_text :: "'hs node_env \<Rightarrow> connect_error \<Rightarrow> string" where
  "connect_error_text env ConnectNotStarted = ''node has not been started''"
| "connect_error_text env ConnectUnknownPeer = ''unknown peer''"
| "connect_error_text env NoCandidates = ''peer has no candidates''"
| "connect_error_text env ConnectTimeout = ''connection timed out''"
| "connect_error_text env Superseded = ''connection attempt was superseded by a newer peer state''"
| "connect_error_text env (ConnectCore e) = ''core error: '' @ ne_error_text env e"

definition PROBE_RETRY_INTERVAL :: nat where
  "PROBE_RETRY_INTERVAL = 10 ^ 9"

text \<open>The local variables of \<open>connect\<close>.\<close>

record connect_task =
  ct_peer :: nat
  ct_peer_id :: node_id
  ct_session_id :: u64
  ct_nonce :: u128
  ct_timestamp :: u64
  ct_candidates :: "candidate list"
  ct_fallback_candidates :: "candidate list"
  ct_deadline :: instant
  ct_fallback_sent :: bool
  ct_next_fallback :: instant
  ct_next_probe :: instant
  ct_superseded :: bool

definition send_probe :: "'hs node_env \<Rightarrow> connect_task \<Rightarrow> candidate \<Rightarrow> 'hs node \<Rightarrow> 'hs node" where
  "send_probe env ct candidate s =
    (let address = candidate_address candidate;
         payload = encode_probe (ne_cp env) (node_id_of env s) (ct_peer_id ct) (ct_session_id ct)
           (ct_timestamp ct) (ct_nonce ct) (nd_identity s)
     in case send_packet env address Probe (ct_session_id ct) 0 payload s of
          (Inr _, s1) \<Rightarrow> record_candidate_probe env (ct_peer ct) (ct_session_id ct) address None s1
        | (Inl e, s1) \<Rightarrow>
           record_candidate_probe env (ct_peer ct) (ct_session_id ct) address (Some (ne_error_text env e)) s1)"

definition send_probes :: "'hs node_env \<Rightarrow> connect_task \<Rightarrow> candidate list \<Rightarrow> 'hs node \<Rightarrow> 'hs node" where
  "send_probes env ct probe_candidates s = fold (send_probe env ct) probe_candidates s"

text \<open>\<open>connect\<close> up to its loop; \<open>Inr None\<close> when the peer is already connected.\<close>

definition connect_begin ::
  "'hs node_env \<Rightarrow> node_id \<Rightarrow> 'hs node \<Rightarrow> (connect_error + connect_task option) \<times> 'hs node" where
  "connect_begin env peer_id s =
    (if \<not> nd_started s then (Inl ConnectNotStarted, s)
     else if ne_now env \<ge> nd_snapshot_expires_at s then (Inl (ConnectCore CoreSnapshotExpired), s)
     else case map_of (nd_peers s) peer_id of
       None \<Rightarrow> (Inl ConnectUnknownPeer, s)
     | Some p \<Rightarrow>
       if ps_active (peer_at s p) \<noteq> None then (Inr None, s)
       else
         let candidates = ordered_connection_candidates (pi_candidates (ps_info (peer_at s p)))
         in if candidates = [] then (Inl NoCandidates, s)
            else
              let s1 = emit_peer_connecting p s;
                  session_id = ne_random env p;
                  s2 = upd_peer p (\<lambda>q. clear_failure (q\<lparr>ps_attempt :=
                         Some (new_attempt env (nd_config s) session_id candidates)\<rparr>)) s1;
                  preferred_candidates = filter (\<lambda>c. candidate_priority c = 0) candidates;
                  fallback_candidates = filter (\<lambda>c. candidate_priority c \<noteq> 0) candidates;
                  now = ne_instant env;
                  deadline = now + nc_connect_timeout (nd_config s);
                  fallback_sent = (preferred_candidates = [] \<or> fallback_candidates = []);
                  ct = \<lparr>ct_peer = p, ct_peer_id = peer_id, ct_session_id = session_id,
                        ct_nonce = ne_nonce env p, ct_timestamp = ne_now env,
                        ct_candidates = candidates, ct_fallback_candidates = fallback_candidates,
                        ct_deadline = deadline, ct_fallback_sent = fallback_sent,
                        ct_next_fallback = (if fallback_sent then deadline else now + 100 * 10 ^ 6),
                        ct_next_probe = now + PROBE_RETRY_INTERVAL, ct_superseded = False\<rparr>
              in (Inr (Some ct), send_probes env ct
                    (if preferred_candidates = [] then fallback_candidates else preferred_candidates) s2))"

datatype connect_outcome = ConnectDone "connect_error + unit" | ConnectContinue | ConnectWait nat

text \<open>The deadline: the attempt is given up when it is still this one.\<close>

definition connect_expire :: "'hs node_env \<Rightarrow> connect_task \<Rightarrow> 'hs node \<Rightarrow> connect_outcome \<times> 'hs node" where
  "connect_expire env ct s =
    (let p = ct_peer ct in
     if map_option at_session_id (ps_attempt (peer_at s p)) \<noteq> Some (ct_session_id ct)
     then (ConnectDone (Inl Superseded), s)
     else
       let s1 = upd_peer p (\<lambda>q. (record_failure (ne_now env) ''connection attempt timed out''
                  (q\<lparr>ps_attempt := None\<rparr>))\<lparr>ps_connecting := False\<rparr>) s
       in (ConnectDone (Inl ConnectTimeout), snd (emit (PeerUnreachable (ct_peer_id ct)) s1)))"

text \<open>One turn of the loop of \<open>connect\<close>, up to the wait for a notification.\<close>

definition connect_turn ::
  "'hs node_env \<Rightarrow> connect_task \<Rightarrow> 'hs node \<Rightarrow> connect_outcome \<times> connect_task \<times> 'hs node" where
  "connect_turn env ct s =
    (let p = ct_peer ct; now = ne_instant env; remaining = ct_deadline ct - now in
     if ps_active (peer_at s p) \<noteq> None then (ConnectDone (Inr ()), ct, s)
     else if remaining = 0 then (case connect_expire env ct s of (r, s') \<Rightarrow> (r, ct, s'))
     else
       let current = map_option at_session_id (ps_attempt (peer_at s p));
           replaced = (current \<noteq> Some (ct_session_id ct));
           ct1 = (if replaced \<and> current \<noteq> None
             then ct\<lparr>ct_superseded := True, ct_next_probe := ct_deadline ct\<rparr> else ct)
       in if replaced \<and> current = None \<and> \<not> ct_superseded ct
          then (ConnectDone (Inl Superseded), ct1, s)
          else if \<not> ct_superseded ct1 \<and> \<not> ct_fallback_sent ct1 \<and> now \<ge> ct_next_fallback ct1
          then (ConnectContinue, ct1\<lparr>ct_fallback_sent := True\<rparr>,
                send_probes env ct1 (ct_fallback_candidates ct1) s)
          else if \<not> ct_superseded ct1 \<and> now \<ge> ct_next_probe ct1
          then (ConnectContinue, ct1\<lparr>ct_fallback_sent := True, ct_next_probe := now + PROBE_RETRY_INTERVAL\<rparr>,
                send_probes env ct1 (ct_candidates ct1) s)
          else
            let wait_for_probe = (if ct_superseded ct1 then remaining else ct_next_probe ct1 - now);
                wait_for_fallback = (if ct_superseded ct1 \<or> ct_fallback_sent ct1 then remaining
                  else ct_next_fallback ct1 - now)
            in (ConnectWait (min (min remaining wait_for_probe) wait_for_fallback), ct1, s))"

text \<open>After a notification; when the wait times out the loop just continues.\<close>

definition connect_notified :: "'hs node_env \<Rightarrow> connect_task \<Rightarrow> 'hs node \<Rightarrow> connect_outcome \<times> 'hs node" where
  "connect_notified env ct s =
    (if ps_active (peer_at s (ct_peer ct)) = None \<and> ne_instant env \<ge> ct_deadline ct
     then connect_expire env ct s else (ConnectContinue, s))"

subsection \<open>Reconnecting\<close>

definition reconnect_delay :: "node_config \<Rightarrow> u8 \<Rightarrow> nat" where
  "reconnect_delay config attempt =
    (if attempt = 0 then 0
     else let multiplier = push_bit (unat (saturating_sub attempt 1)) (1 :: u32)
       in min (nc_reconnect_backoff config * unat multiplier) (30 * 10 ^ 9))"

text \<open>The top of the loop of \<open>reconnect_loop\<close>: \<open>None\<close> when the task ends, else the delay.\<close>

definition reconnect_top :: "nat \<Rightarrow> 'hs node \<Rightarrow> nat option \<times> 'hs node" where
  "reconnect_top p s =
    (let reconnect = ps_reconnect (peer_at s p) in
     if \<not> rc_requested reconnect \<or> nd_stopping s \<or> \<not> ps_is_online (peer_at s p)
        \<or> rc_attempts reconnect \<ge> MAX_RECONNECT_ATTEMPTS
     then (None, upd_peer p (\<lambda>q. q\<lparr>ps_reconnect := (ps_reconnect q)\<lparr>rc_running := False\<rparr>\<rparr>) s)
     else (Some (reconnect_delay (nd_config s) (rc_attempts reconnect)),
           upd_peer p (\<lambda>q. q\<lparr>ps_reconnect := (ps_reconnect q)\<lparr>rc_attempts := rc_attempts reconnect + 1\<rparr>\<rparr>) s))"

text \<open>After the delay: whether to call \<open>connect\<close>.\<close>

definition reconnect_wake :: "nat \<Rightarrow> 'hs node \<Rightarrow> bool \<times> 'hs node" where
  "reconnect_wake p s =
    (if nd_stopping s \<or> \<not> ps_is_online (peer_at s p)
        \<or> map_of (nd_peers s) (pi_node_id (ps_info (peer_at s p))) \<noteq> Some p
     then (False, upd_peer p (\<lambda>q. q\<lparr>ps_reconnect := (ps_reconnect q)\<lparr>rc_running := False\<rparr>\<rparr>) s)
     else (True, s))"

text \<open>With the result of \<open>connect\<close>: whether the loop goes on.\<close>

definition reconnect_result ::
  "'hs node_env \<Rightarrow> nat \<Rightarrow> connect_error + unit \<Rightarrow> 'hs node \<Rightarrow> bool \<times> 'hs node" where
  "reconnect_result env p result s =
    (case result of
       Inr _ \<Rightarrow> (False, upd_peer p (\<lambda>q. q\<lparr>ps_reconnect := reconnect_default\<rparr>) s)
     | Inl e \<Rightarrow> (True, upd_peer p (record_failure (ne_now env) (connect_error_text env e)) s))"

subsection \<open>Keepalives\<close>

definition needs_rekey :: "instant \<Rightarrow> active_session \<Rightarrow> bool" where
  "needs_rekey now session \<longleftrightarrow> now - as_created_at session \<ge> 3600 * 10 ^ 9
     \<or> as_tx_bytes session \<ge> push_bit 30 1"

definition rekey_peer :: "'hs node_env \<Rightarrow> nat \<Rightarrow> active_session \<Rightarrow> 'hs node \<Rightarrow> 'hs node" where
  "rekey_peer env p session s =
    (let peer_info = ps_info (peer_at s p);
         s1 = remove_session p (as_session_id session) (upd_peer p (\<lambda>q. q\<lparr>ps_active := None\<rparr>) s);
         s2 = upd_peer p (\<lambda>q. q\<lparr>ps_attempt := None\<rparr>) s1
     in if node_id_of env s2 < pi_node_id peer_info then
          let session_id = ne_random env p;
              s3 = upd_peer p (\<lambda>q. q\<lparr>ps_attempt :=
                Some (new_attempt env (nd_config s2) session_id (pi_candidates peer_info))\<rparr>) s2
          in snd (start_initiator env p (as_path session) session_id s3)
        else s2)"

definition send_keepalive :: "'hs node_env \<Rightarrow> nat \<Rightarrow> active_session \<Rightarrow> 'hs node \<Rightarrow> 'hs node" where
  "send_keepalive env p session s =
    (let sequence = as_tx_sequence session;
         session1 = session\<lparr>as_tx_sequence := sequence + 1\<rparr>;
         keepalive_nonce = ne_nonce env p
     in case encrypt_payload (ne_cp env) (as_session_id session) (as_cipher session) KeepAlive sequence
            (to_be 16 keepalive_nonce) of
          Inl _ \<Rightarrow> upd_peer p (\<lambda>q. q\<lparr>ps_active := Some session1\<rparr>) s
        | Inr payload \<Rightarrow>
           let s1 = upd_peer p (\<lambda>q. q\<lparr>ps_active := Some (session1\<lparr>as_pending_keepalive :=
                 Some (keepalive_nonce, ne_instant env)\<rparr>)\<rparr>) s
           in snd (send_packet env (as_path session) KeepAlive (as_session_id session) sequence payload s1))"

definition keepalive_peer :: "'hs node_env \<Rightarrow> nat \<Rightarrow> 'hs node \<Rightarrow> 'hs node" where
  "keepalive_peer env p s =
    (let membership_expired = (nc_server_public_key (nd_config s) \<noteq> None
           \<and> membership_expired_at (peer_at s p) (ne_now env));
         dead_after = 3 * nc_keepalive_interval (nd_config s)
     in if ne_now env \<ge> nd_snapshot_expires_at s \<or> membership_expired then invalidate_session p True s
        else case ps_active (peer_at s p) of
          None \<Rightarrow> s
        | Some session \<Rightarrow>
           if ne_instant env - as_last_rx session \<ge> dead_after
           then schedule_reconnect p (invalidate_session p True s)
           else if needs_rekey (ne_instant env) session then rekey_peer env p session s
           else send_keepalive env p session s)"

definition keepalive_tick :: "'hs node_env \<Rightarrow> 'hs node \<Rightarrow> 'hs node" where
  "keepalive_tick env s = fold (keepalive_peer env) (map snd (nd_peers s)) s"

subsection \<open>Path MTU probes\<close>

definition mtu_probe_peer ::
  "'hs node_env \<Rightarrow> nat \<Rightarrow> 'hs node \<Rightarrow> (socket_addr \<times> u64 \<times> u64 \<times> bytes) option \<times> 'hs node" where
  "mtu_probe_peer env p s =
    (case ps_active (peer_at s p) of
       None \<Rightarrow> (None, s)
     | Some session \<Rightarrow>
       let (probe, path_mtu) = poll_probe (as_path_mtu session) (ne_instant env) (ne_nonce env p);
           session1 = session\<lparr>as_path_mtu := path_mtu\<rparr>;
           s1 = upd_peer p (\<lambda>q. q\<lparr>ps_active := Some session1\<rparr>) s
       in case probe of
         None \<Rightarrow> (None, s1)
       | Some (target_mtu, probe_nonce) \<Rightarrow>
          if target_mtu < MTU_PROBE_NONCE_LEN then (None, s1)
          else
            let plaintext = to_be 16 probe_nonce @ replicate (target_mtu - MTU_PROBE_NONCE_LEN) 0;
                sequence = as_tx_sequence session1;
                s2 = upd_peer p (\<lambda>q. q\<lparr>ps_active := Some (session1\<lparr>as_tx_sequence := sequence + 1\<rparr>)\<rparr>) s1
            in case encrypt_payload (ne_cp env) (as_session_id session1) (as_cipher session1) MtuProbe
                 sequence plaintext of
                 Inl _ \<Rightarrow> (None, s2)
               | Inr payload \<Rightarrow> (Some (as_path session1, as_session_id session1, sequence, payload), s2))"

fun mtu_probe_peers ::
  "'hs node_env \<Rightarrow> nat list \<Rightarrow> 'hs node \<Rightarrow> (socket_addr \<times> u64 \<times> u64 \<times> bytes) list \<times> 'hs node" where
  "mtu_probe_peers env [] s = ([], s)"
| "mtu_probe_peers env (p # ps) s =
    (let (probe, s1) = mtu_probe_peer env p s;
         (probes, s2) = mtu_probe_peers env ps s1
     in (case probe of None \<Rightarrow> probes | Some x \<Rightarrow> x # probes, s2))"

definition mtu_tick :: "'hs node_env \<Rightarrow> 'hs node \<Rightarrow> 'hs node" where
  "mtu_tick env s =
    (let (probes, s1) = mtu_probe_peers env (map snd (nd_peers s)) s
     in fold (\<lambda>(path, session_id, sequence, payload) s.
          snd (send_packet env path MtuProbe session_id sequence payload s)) probes s1)"

subsection \<open>Diagnostic pings\<close>

datatype ping_error = PingInvalidCount | PingUnknownPeer | PingNotConnected | PingTimeout | PingCore core_error

definition forget_ping :: "u128 \<Rightarrow> 'hs peer_state \<Rightarrow> 'hs peer_state" where
  "forget_ping ping_nonce q =
    q\<lparr>ps_active := map_option (\<lambda>session. session\<lparr>as_ping_waiters :=
        AList.delete ping_nonce (as_ping_waiters session)\<rparr>) (ps_active q)\<rparr>"

text \<open>One round of \<open>diagnostic_ping\<close> up to the wait for its answer, by the caller \<open>waiter\<close>.\<close>

definition ping_round ::
  "'hs node_env \<Rightarrow> nat \<Rightarrow> nat \<Rightarrow> 'hs node \<Rightarrow> (ping_error + u128) \<times> 'hs node" where
  "ping_round env p waiter s =
    (case ps_active (peer_at s p) of
       None \<Rightarrow> (Inl PingNotConnected, s)
     | Some session \<Rightarrow>
       let ping_nonce = ne_nonce env p;
           sequence = as_tx_sequence session;
           session1 = session\<lparr>as_tx_sequence := sequence + 1,
             as_ping_waiters := AList.update ping_nonce waiter (as_ping_waiters session)\<rparr>;
           s1 = upd_peer p (\<lambda>q. q\<lparr>ps_active := Some session1\<rparr>) s
       in case encrypt_payload (ne_cp env) (as_session_id session1) (as_cipher session1) DiagnosticPing
            sequence (to_be 16 ping_nonce) of
         Inl e \<Rightarrow> (Inl (PingCore e), s1)
       | Inr encrypted \<Rightarrow>
      (case send_packet env (as_path session1) DiagnosticPing (as_session_id session1) sequence encrypted s1 of
         (Inl e, s2) \<Rightarrow> (Inl (PingCore e), upd_peer p (forget_ping ping_nonce) s2)
       | (Inr _, s2) \<Rightarrow> (Inr ping_nonce, s2)))"

definition ping_timeout :: "nat \<Rightarrow> u128 \<Rightarrow> 'hs node \<Rightarrow> ping_error \<times> 'hs node" where
  "ping_timeout p ping_nonce s = (PingTimeout, upd_peer p (forget_ping ping_nonce) s)"

subsection \<open>Start, shutdown and events\<close>

definition node_start :: "'hs node \<Rightarrow> 'hs node" where
  "node_start s = s\<lparr>nd_started := True\<rparr>"

definition node_shutdown :: "'hs node \<Rightarrow> 'hs node" where
  "node_shutdown s = s\<lparr>nd_stopping := True, nd_stun_waiters := []\<rparr>"

text \<open>\<open>next_event\<close> and the batch consumers; they wait when nothing is queued (\<open>None\<close>, or an empty
  batch here).\<close>

definition next_event :: "'hs node \<Rightarrow> vela_event option \<times> 'hs node" where
  "next_event s =
    (case nd_control s of
       event # rest \<Rightarrow> (Some event, s\<lparr>nd_control := rest\<rparr>)
     | [] \<Rightarrow>
    (case nd_data s of
       event # rest \<Rightarrow> (Some event, s\<lparr>nd_data := rest\<rparr>)
     | [] \<Rightarrow> (None, s)))"

definition next_control_event_batch :: "nat \<Rightarrow> 'hs node \<Rightarrow> vela_event list \<times> 'hs node" where
  "next_control_event_batch limit s =
    (take limit (nd_control s), s\<lparr>nd_control := drop limit (nd_control s)\<rparr>)"

definition next_data_event_batch :: "nat \<Rightarrow> 'hs node \<Rightarrow> vela_event list \<times> 'hs node" where
  "next_data_event_batch limit s = (take limit (nd_data s), s\<lparr>nd_data := drop limit (nd_data s)\<rparr>)"

fun next_event_batch :: "nat \<Rightarrow> 'hs node \<Rightarrow> vela_event list \<times> 'hs node" where
  "next_event_batch 0 s = ([], s)"
| "next_event_batch (Suc limit) s =
    (case next_event s of
       (None, s1) \<Rightarrow> ([], s1)
     | (Some event, s1) \<Rightarrow>
        let (events, s2) = next_event_batch limit s1 in (event # events, s2))"

subsection \<open>Status\<close>

definition effective_virtual_mtu :: "'hs node \<Rightarrow> nat" where
  "effective_virtual_mtu s =
    (case fold (\<lambda>(_, p) effective.
         case ps_active (peer_at s p) of
           None \<Rightarrow> effective
         | Some session \<Rightarrow>
            let confirmed = pm_confirmed (as_path_mtu session)
            in Some (case effective of None \<Rightarrow> confirmed | Some mtu \<Rightarrow> min mtu confirmed))
       (nd_peers s) None of
       None \<Rightarrow> safe_virtual_mtu s
     | Some mtu \<Rightarrow> mtu)"

datatype peer_runtime_state = RtIdle | RtConnecting | RtConnected | RtUnreachable

datatype peer_attempt_phase = PhProbing | PhHandshaking | PhRetrying

record peer_attempt_status =
  pas_phase :: peer_attempt_phase
  pas_started_at :: u64
  pas_timeout_at :: u64
  pas_retry_count :: u8
  pas_candidates :: "peer_candidate_attempt list"

record peer_runtime_status =
  prs_node_id :: node_id
  prs_online :: bool
  prs_state :: peer_runtime_state
  prs_candidates :: "candidate list"
  prs_virtual_ipv4 :: "u32 option"
  prs_virtual_ipv6 :: "u128 option"
  prs_capabilities :: "peer_capability list"
  prs_active_path :: "socket_addr option"
  prs_active_path_type :: "string option"
  prs_path_mtu :: "nat option"
  prs_connected_at :: "u64 option"
  prs_path_changed_at :: "u64 option"
  prs_path_history :: "peer_path_change list"
  prs_last_rx_at :: "u64 option"
  prs_last_rtt_ms :: "u64 option"
  prs_tx_bytes :: u64
  prs_rx_bytes :: u64
  prs_receive :: peer_receive_counters
  prs_attempt :: "peer_attempt_status option"
  prs_last_failure :: "peer_failure_status option"

definition attempt_status :: "u64 \<Rightarrow> 'hs peer_state \<Rightarrow> peer_attempt_status option" where
  "attempt_status now q =
    (let reconnect = ps_reconnect q in
     case ps_attempt q of
       Some attempt \<Rightarrow> Some
        \<lparr>pas_phase = (if at_handshake attempt \<noteq> None then PhHandshaking else PhProbing),
         pas_started_at = at_started_at attempt, pas_timeout_at = at_timeout_at attempt,
         pas_retry_count = rc_attempts reconnect, pas_candidates = at_candidates attempt\<rparr>
     | None \<Rightarrow>
        if rc_requested reconnect then Some
          \<lparr>pas_phase = PhRetrying,
           pas_started_at = (case ps_last_failure q of None \<Rightarrow> now | Some failure \<Rightarrow> pf_occurred_at failure),
           pas_timeout_at = 0, pas_retry_count = rc_attempts reconnect,
           pas_candidates = map pending_candidate (pi_candidates (ps_info q))\<rparr>
        else None)"

definition peer_status :: "'hs node_env \<Rightarrow> 'hs peer_state \<Rightarrow> peer_runtime_status" where
  "peer_status env q =
    (let info = ps_info q;
         now = ne_now env;
         reconnect = ps_reconnect q;
         base = \<lparr>prs_node_id = pi_node_id info, prs_online = ps_is_online q,
             prs_state = (if ps_attempt q \<noteq> None \<or> rc_requested reconnect \<or> rc_running reconnect
               then RtConnecting
               else if ps_last_failure q \<noteq> None then RtUnreachable else RtIdle),
             prs_candidates = pi_candidates info, prs_virtual_ipv4 = pi_virtual_ipv4 info,
             prs_virtual_ipv6 = pi_virtual_ipv6 info, prs_capabilities = pi_capabilities info,
             prs_active_path = None, prs_active_path_type = None, prs_path_mtu = None,
             prs_connected_at = None, prs_path_changed_at = None, prs_path_history = ps_path_history q,
             prs_last_rx_at = None, prs_last_rtt_ms = None, prs_tx_bytes = 0, prs_rx_bytes = 0,
             prs_receive = ps_receive q, prs_attempt = attempt_status now q,
             prs_last_failure = ps_last_failure q\<rparr>
     in case ps_active q of
          None \<Rightarrow> base
        | Some session \<Rightarrow>
           base\<lparr>prs_state := RtConnected, prs_active_path := Some (as_path session),
             prs_active_path_type := Some (candidate_type (pi_candidates info) (as_path session)),
             prs_path_mtu := Some (pm_confirmed (as_path_mtu session)),
             prs_connected_at := Some (as_created_at_unix session),
             prs_path_changed_at := as_path_changed_at session,
             prs_last_rx_at := Some (saturating_sub now
               (word_of_nat ((ne_instant env - as_last_rx session) div 10 ^ 9))),
             prs_last_rtt_ms := as_last_rtt_ms session,
             prs_tx_bytes := as_tx_bytes session, prs_rx_bytes := as_rx_bytes session\<rparr>)"

definition peer_statuses :: "'hs node_env \<Rightarrow> 'hs node \<Rightarrow> peer_runtime_status list" where
  "peer_statuses env s =
    sort_key prs_node_id (map (\<lambda>(_, p). peer_status env (peer_at s p)) (nd_peers s))"

end
