(* ===== verification/Vela_Node_Inv.thy ===== *)
theory Vela_Node_Inv
  imports Vela_Tasks
begin

section \<open>The invariant of a node (vela-core)\<close>

text \<open>
  Every operation of a node, whatever its outcome, keeps the tables of peers and sessions
  consistent with the peers they point to and every queue within its limit. The operations are
  compositions of a few primitive changes of the state; the lemmas below say of each primitive
  what it leaves alone and that it keeps the invariant, and the operations follow. The locale
  \<open>peer_store\<close> is what they use of the store.
\<close>

subsection \<open>The store\<close>

locale peer_store =
  fixes get :: "'s \<Rightarrow> nat \<Rightarrow> 'v"
    and upd :: "nat \<Rightarrow> ('v \<Rightarrow> 'v) \<Rightarrow> 's \<Rightarrow> 's"
    and extent :: "'s \<Rightarrow> nat"
  assumes get_upd: "p < extent s \<Longrightarrow> get (upd p f s) q = (if q = p then f (get s p) else get s q)"
    and upd_outside: "extent s \<le> p \<Longrightarrow> upd p f s = s"
    and extent_upd: "extent (upd p f s) = extent s"
begin

lemma get_upd_other: "q \<noteq> p \<Longrightarrow> get (upd p f s) q = get s q"
  by (cases "p < extent s") (simp_all add: get_upd upd_outside)

lemma all_upd:
  assumes "\<forall>q < extent s. P (get s q)" and "p < extent s \<Longrightarrow> P (get s p) \<Longrightarrow> P (f (get s p))"
  shows "\<forall>q < extent (upd p f s). P (get (upd p f s) q)"
  using assms by (cases "p < extent s") (auto simp: get_upd upd_outside extent_upd)

lemma view_upd:
  assumes "p < extent s \<Longrightarrow> v (f (get s p)) = v (get s p)"
  shows "v (get (upd p f s) q) = v (get s q)"
  using assms by (cases "p < extent s") (auto simp: get_upd upd_outside)

end

lemma upd_peer_outside: "length (nd_heap s) \<le> p \<Longrightarrow> upd_peer p f s = (s :: 'hs node)"
  by (simp add: upd_peer_def list_update_beyond)

interpretation peers: peer_store peer_at upd_peer "\<lambda>s. length (nd_heap s)"
  by unfold_locales (simp_all add: upd_peer_outside, simp_all add: peer_at_def upd_peer_def nth_list_update)

lemmas peer_at_upd = peers.get_upd

lemma length_heap_upd [simp]: "length (nd_heap (upd_peer p f s)) = length (nd_heap s)"
  by (rule peers.extent_upd)

lemma peer_at_upd_same [simp]: "p < length (nd_heap s) \<Longrightarrow> peer_at (upd_peer p f s) p = f (peer_at s p)"
  by (simp add: peer_at_upd)

lemma peer_at_upd_other [simp]: "q \<noteq> p \<Longrightarrow> peer_at (upd_peer p f s) q = peer_at s q"
  by (rule peers.get_upd_other)

lemma peer_at_frame [simp]:
  "peer_at (s\<lparr>nd_peers := x0\<rparr>) p = peer_at s p"
  "peer_at (s\<lparr>nd_routes := x1\<rparr>) p = peer_at s p"
  "peer_at (s\<lparr>nd_network_id := x2\<rparr>) p = peer_at s p"
  "peer_at (s\<lparr>nd_snapshot_generation := x3\<rparr>) p = peer_at s p"
  "peer_at (s\<lparr>nd_snapshot_expires_at := x4\<rparr>) p = peer_at s p"
  "peer_at (s\<lparr>nd_local_ipv4 := x5\<rparr>) p = peer_at s p"
  "peer_at (s\<lparr>nd_local_ipv6 := x6\<rparr>) p = peer_at s p"
  "peer_at (s\<lparr>nd_stun_waiters := x7\<rparr>) p = peer_at s p"
  "peer_at (s\<lparr>nd_workers := x8\<rparr>) p = peer_at s p"
  "peer_at (s\<lparr>nd_sessions := x9\<rparr>) p = peer_at s p"
  "peer_at (s\<lparr>nd_spawned := x10\<rparr>) p = peer_at s p"
  "peer_at (s\<lparr>nd_ping_answers := x11\<rparr>) p = peer_at s p"
  "peer_at (s\<lparr>nd_started := x12\<rparr>) p = peer_at s p"
  "peer_at (s\<lparr>nd_stopping := x13\<rparr>) p = peer_at s p"
  "peer_at (s\<lparr>nd_control := x14\<rparr>) p = peer_at s p"
  "peer_at (s\<lparr>nd_data := x15\<rparr>) p = peer_at s p"
  by (simp_all add: peer_at_def)

lemma upd_peer_frame [simp]:
  "nd_identity (upd_peer p f s) = nd_identity s"
  "nd_incarnation (upd_peer p f s) = nd_incarnation s"
  "nd_config (upd_peer p f s) = nd_config s"
  "nd_observer (upd_peer p f s) = nd_observer s"
  "nd_peers (upd_peer p f s) = nd_peers s"
  "nd_routes (upd_peer p f s) = nd_routes s"
  "nd_network_id (upd_peer p f s) = nd_network_id s"
  "nd_snapshot_generation (upd_peer p f s) = nd_snapshot_generation s"
  "nd_snapshot_expires_at (upd_peer p f s) = nd_snapshot_expires_at s"
  "nd_local_ipv4 (upd_peer p f s) = nd_local_ipv4 s"
  "nd_local_ipv6 (upd_peer p f s) = nd_local_ipv6 s"
  "nd_control (upd_peer p f s) = nd_control s"
  "nd_data (upd_peer p f s) = nd_data s"
  "nd_stun_waiters (upd_peer p f s) = nd_stun_waiters s"
  "nd_workers (upd_peer p f s) = nd_workers s"
  "nd_sessions (upd_peer p f s) = nd_sessions s"
  "nd_receive (upd_peer p f s) = nd_receive s"
  "nd_stopping (upd_peer p f s) = nd_stopping s"
  "nd_started (upd_peer p f s) = nd_started s"
  "nd_spawned (upd_peer p f s) = nd_spawned s"
  "nd_sent (upd_peer p f s) = nd_sent s"
  "nd_samples (upd_peer p f s) = nd_samples s"
  "nd_ping_answers (upd_peer p f s) = nd_ping_answers s"
  "nd_stun_answers (upd_peer p f s) = nd_stun_answers s"
  by (simp_all add: upd_peer_def)

lemma emit_frame [simp]:
  "nd_identity (snd (emit event s)) = nd_identity s"
  "nd_incarnation (snd (emit event s)) = nd_incarnation s"
  "nd_config (snd (emit event s)) = nd_config s"
  "nd_observer (snd (emit event s)) = nd_observer s"
  "nd_heap (snd (emit event s)) = nd_heap s"
  "nd_peers (snd (emit event s)) = nd_peers s"
  "nd_routes (snd (emit event s)) = nd_routes s"
  "nd_network_id (snd (emit event s)) = nd_network_id s"
  "nd_snapshot_generation (snd (emit event s)) = nd_snapshot_generation s"
  "nd_snapshot_expires_at (snd (emit event s)) = nd_snapshot_expires_at s"
  "nd_local_ipv4 (snd (emit event s)) = nd_local_ipv4 s"
  "nd_local_ipv6 (snd (emit event s)) = nd_local_ipv6 s"
  "nd_stun_waiters (snd (emit event s)) = nd_stun_waiters s"
  "nd_workers (snd (emit event s)) = nd_workers s"
  "nd_sessions (snd (emit event s)) = nd_sessions s"
  "nd_receive (snd (emit event s)) = nd_receive s"
  "nd_stopping (snd (emit event s)) = nd_stopping s"
  "nd_started (snd (emit event s)) = nd_started s"
  "nd_spawned (snd (emit event s)) = nd_spawned s"
  "nd_sent (snd (emit event s)) = nd_sent s"
  "nd_samples (snd (emit event s)) = nd_samples s"
  "nd_ping_answers (snd (emit event s)) = nd_ping_answers s"
  "nd_stun_answers (snd (emit event s)) = nd_stun_answers s"
  "peer_at (snd (emit event s)) p = peer_at s p"
  by (simp_all add: emit_def peer_at_def split: vela_event.split)

lemma observe_frame [simp]:
  "nd_identity (observe sample s) = nd_identity s"
  "nd_incarnation (observe sample s) = nd_incarnation s"
  "nd_config (observe sample s) = nd_config s"
  "nd_observer (observe sample s) = nd_observer s"
  "nd_heap (observe sample s) = nd_heap s"
  "nd_peers (observe sample s) = nd_peers s"
  "nd_routes (observe sample s) = nd_routes s"
  "nd_network_id (observe sample s) = nd_network_id s"
  "nd_snapshot_generation (observe sample s) = nd_snapshot_generation s"
  "nd_snapshot_expires_at (observe sample s) = nd_snapshot_expires_at s"
  "nd_local_ipv4 (observe sample s) = nd_local_ipv4 s"
  "nd_local_ipv6 (observe sample s) = nd_local_ipv6 s"
  "nd_control (observe sample s) = nd_control s"
  "nd_data (observe sample s) = nd_data s"
  "nd_stun_waiters (observe sample s) = nd_stun_waiters s"
  "nd_workers (observe sample s) = nd_workers s"
  "nd_sessions (observe sample s) = nd_sessions s"
  "nd_receive (observe sample s) = nd_receive s"
  "nd_stopping (observe sample s) = nd_stopping s"
  "nd_started (observe sample s) = nd_started s"
  "nd_spawned (observe sample s) = nd_spawned s"
  "nd_sent (observe sample s) = nd_sent s"
  "nd_ping_answers (observe sample s) = nd_ping_answers s"
  "nd_stun_answers (observe sample s) = nd_stun_answers s"
  "peer_at (observe sample s) p = peer_at s p"
  by (simp_all add: observe_def peer_at_def)

lemma socket_send_frame [simp]:
  "nd_identity (snd (socket_send env bytes target s)) = nd_identity s"
  "nd_incarnation (snd (socket_send env bytes target s)) = nd_incarnation s"
  "nd_config (snd (socket_send env bytes target s)) = nd_config s"
  "nd_observer (snd (socket_send env bytes target s)) = nd_observer s"
  "nd_heap (snd (socket_send env bytes target s)) = nd_heap s"
  "nd_peers (snd (socket_send env bytes target s)) = nd_peers s"
  "nd_routes (snd (socket_send env bytes target s)) = nd_routes s"
  "nd_network_id (snd (socket_send env bytes target s)) = nd_network_id s"
  "nd_snapshot_generation (snd (socket_send env bytes target s)) = nd_snapshot_generation s"
  "nd_snapshot_expires_at (snd (socket_send env bytes target s)) = nd_snapshot_expires_at s"
  "nd_local_ipv4 (snd (socket_send env bytes target s)) = nd_local_ipv4 s"
  "nd_local_ipv6 (snd (socket_send env bytes target s)) = nd_local_ipv6 s"
  "nd_control (snd (socket_send env bytes target s)) = nd_control s"
  "nd_data (snd (socket_send env bytes target s)) = nd_data s"
  "nd_stun_waiters (snd (socket_send env bytes target s)) = nd_stun_waiters s"
  "nd_workers (snd (socket_send env bytes target s)) = nd_workers s"
  "nd_sessions (snd (socket_send env bytes target s)) = nd_sessions s"
  "nd_receive (snd (socket_send env bytes target s)) = nd_receive s"
  "nd_stopping (snd (socket_send env bytes target s)) = nd_stopping s"
  "nd_started (snd (socket_send env bytes target s)) = nd_started s"
  "nd_spawned (snd (socket_send env bytes target s)) = nd_spawned s"
  "nd_samples (snd (socket_send env bytes target s)) = nd_samples s"
  "nd_ping_answers (snd (socket_send env bytes target s)) = nd_ping_answers s"
  "nd_stun_answers (snd (socket_send env bytes target s)) = nd_stun_answers s"
  "peer_at (snd (socket_send env bytes target s)) p = peer_at s p"
  by (simp_all add: socket_send_def peer_at_def Let_def)

lemma remove_session_frame [simp]:
  "nd_identity (remove_session q i s) = nd_identity s"
  "nd_incarnation (remove_session q i s) = nd_incarnation s"
  "nd_config (remove_session q i s) = nd_config s"
  "nd_observer (remove_session q i s) = nd_observer s"
  "nd_heap (remove_session q i s) = nd_heap s"
  "nd_peers (remove_session q i s) = nd_peers s"
  "nd_routes (remove_session q i s) = nd_routes s"
  "nd_network_id (remove_session q i s) = nd_network_id s"
  "nd_snapshot_generation (remove_session q i s) = nd_snapshot_generation s"
  "nd_snapshot_expires_at (remove_session q i s) = nd_snapshot_expires_at s"
  "nd_local_ipv4 (remove_session q i s) = nd_local_ipv4 s"
  "nd_local_ipv6 (remove_session q i s) = nd_local_ipv6 s"
  "nd_control (remove_session q i s) = nd_control s"
  "nd_data (remove_session q i s) = nd_data s"
  "nd_stun_waiters (remove_session q i s) = nd_stun_waiters s"
  "nd_workers (remove_session q i s) = nd_workers s"
  "nd_receive (remove_session q i s) = nd_receive s"
  "nd_stopping (remove_session q i s) = nd_stopping s"
  "nd_started (remove_session q i s) = nd_started s"
  "nd_spawned (remove_session q i s) = nd_spawned s"
  "nd_sent (remove_session q i s) = nd_sent s"
  "nd_samples (remove_session q i s) = nd_samples s"
  "nd_ping_answers (remove_session q i s) = nd_ping_answers s"
  "nd_stun_answers (remove_session q i s) = nd_stun_answers s"
  "peer_at (remove_session q i s) p = peer_at s p"
  by (simp_all add: remove_session_def peer_at_def)

lemma send_packet_frame [simp]:
  "nd_identity (snd (send_packet env target ty i n payload s)) = nd_identity s"
  "nd_incarnation (snd (send_packet env target ty i n payload s)) = nd_incarnation s"
  "nd_config (snd (send_packet env target ty i n payload s)) = nd_config s"
  "nd_observer (snd (send_packet env target ty i n payload s)) = nd_observer s"
  "nd_heap (snd (send_packet env target ty i n payload s)) = nd_heap s"
  "nd_peers (snd (send_packet env target ty i n payload s)) = nd_peers s"
  "nd_routes (snd (send_packet env target ty i n payload s)) = nd_routes s"
  "nd_network_id (snd (send_packet env target ty i n payload s)) = nd_network_id s"
  "nd_snapshot_generation (snd (send_packet env target ty i n payload s)) = nd_snapshot_generation s"
  "nd_snapshot_expires_at (snd (send_packet env target ty i n payload s)) = nd_snapshot_expires_at s"
  "nd_local_ipv4 (snd (send_packet env target ty i n payload s)) = nd_local_ipv4 s"
  "nd_local_ipv6 (snd (send_packet env target ty i n payload s)) = nd_local_ipv6 s"
  "nd_control (snd (send_packet env target ty i n payload s)) = nd_control s"
  "nd_data (snd (send_packet env target ty i n payload s)) = nd_data s"
  "nd_stun_waiters (snd (send_packet env target ty i n payload s)) = nd_stun_waiters s"
  "nd_workers (snd (send_packet env target ty i n payload s)) = nd_workers s"
  "nd_sessions (snd (send_packet env target ty i n payload s)) = nd_sessions s"
  "nd_receive (snd (send_packet env target ty i n payload s)) = nd_receive s"
  "nd_stopping (snd (send_packet env target ty i n payload s)) = nd_stopping s"
  "nd_started (snd (send_packet env target ty i n payload s)) = nd_started s"
  "nd_spawned (snd (send_packet env target ty i n payload s)) = nd_spawned s"
  "nd_samples (snd (send_packet env target ty i n payload s)) = nd_samples s"
  "nd_ping_answers (snd (send_packet env target ty i n payload s)) = nd_ping_answers s"
  "nd_stun_answers (snd (send_packet env target ty i n payload s)) = nd_stun_answers s"
  "peer_at (snd (send_packet env target ty i n payload s)) p = peer_at s p"
  by (simp_all add: send_packet_def socket_send_def peer_at_def Let_def split: sum.split option.split)

lemma count_transport_frame [simp]:
  "nd_identity (count_transport f s) = nd_identity s"
  "nd_incarnation (count_transport f s) = nd_incarnation s"
  "nd_config (count_transport f s) = nd_config s"
  "nd_observer (count_transport f s) = nd_observer s"
  "nd_heap (count_transport f s) = nd_heap s"
  "nd_peers (count_transport f s) = nd_peers s"
  "nd_routes (count_transport f s) = nd_routes s"
  "nd_network_id (count_transport f s) = nd_network_id s"
  "nd_snapshot_generation (count_transport f s) = nd_snapshot_generation s"
  "nd_snapshot_expires_at (count_transport f s) = nd_snapshot_expires_at s"
  "nd_local_ipv4 (count_transport f s) = nd_local_ipv4 s"
  "nd_local_ipv6 (count_transport f s) = nd_local_ipv6 s"
  "nd_control (count_transport f s) = nd_control s"
  "nd_data (count_transport f s) = nd_data s"
  "nd_stun_waiters (count_transport f s) = nd_stun_waiters s"
  "nd_workers (count_transport f s) = nd_workers s"
  "nd_sessions (count_transport f s) = nd_sessions s"
  "nd_stopping (count_transport f s) = nd_stopping s"
  "nd_started (count_transport f s) = nd_started s"
  "nd_spawned (count_transport f s) = nd_spawned s"
  "nd_sent (count_transport f s) = nd_sent s"
  "nd_samples (count_transport f s) = nd_samples s"
  "nd_ping_answers (count_transport f s) = nd_ping_answers s"
  "nd_stun_answers (count_transport f s) = nd_stun_answers s"
  "peer_at (count_transport f s) p = peer_at s p"
  by (simp_all add: count_transport_def peer_at_def)

subsection \<open>The invariant\<close>

definition session_id_of :: "'hs peer_state \<Rightarrow> u64 option" where
  "session_id_of q = map_option as_session_id (ps_active q)"

definition session_ok :: "node_config \<Rightarrow> active_session \<Rightarrow> bool" where
  "session_ok config session \<longleftrightarrow> mtu_inv (as_path_mtu session)
     \<and> pm_upper (as_path_mtu session) \<le> nc_virtual_mtu config
     \<and> (\<exists>S. replay_rel S (as_replay session))"

definition peer_ok :: "node_config \<Rightarrow> 'hs peer_state \<Rightarrow> bool" where
  "peer_ok config q \<longleftrightarrow> pi_node_id (ps_info q) = ps_id q
     \<and> length (ps_queue q) \<le> nc_per_peer_queue_limit config
     \<and> rc_attempts (ps_reconnect q) \<le> MAX_RECONNECT_ATTEMPTS
     \<and> length (ps_path_history q) \<le> 32
     \<and> (\<forall>session. ps_active q = Some session \<longrightarrow> session_ok config session)"

definition tables_ok :: "'hs node \<Rightarrow> bool" where
  "tables_ok s \<longleftrightarrow> distinct (map fst (nd_peers s)) \<and> distinct (map fst (nd_sessions s))
     \<and> (\<forall>n p. map_of (nd_peers s) n = Some p \<longrightarrow> p < length (nd_heap s) \<and> ps_id (peer_at s p) = n)
     \<and> (\<forall>i p. map_of (nd_sessions s) i = Some p \<longrightarrow> p < length (nd_heap s) \<and> session_id_of (peer_at s p) = Some i)"

definition queues_ok :: "'hs node \<Rightarrow> bool" where
  "queues_ok s \<longleftrightarrow> length (nd_data s) \<le> CORE_EVENT_QUEUE_LIMIT \<and> nd_workers s \<noteq> []
     \<and> (\<forall>queue \<in> set (nd_workers s). length queue \<le> DATA_WORKER_QUEUE_LIMIT)"

definition node_inv :: "'hs node \<Rightarrow> bool" where
  "node_inv s \<longleftrightarrow> tables_ok s \<and> queues_ok s
     \<and> (\<forall>p < length (nd_heap s). peer_ok (nd_config s) (peer_at s p))"

lemma node_inv_peer: "node_inv s \<Longrightarrow> p < length (nd_heap s) \<Longrightarrow> peer_ok (nd_config s) (peer_at s p)"
  by (simp add: node_inv_def)

lemma node_inv_known:
  "node_inv s \<Longrightarrow> map_of (nd_peers s) n = Some p \<Longrightarrow> p < length (nd_heap s) \<and> ps_id (peer_at s p) = n"
  by (simp add: node_inv_def tables_ok_def)

lemma node_inv_session:
  "node_inv s \<Longrightarrow> map_of (nd_sessions s) i = Some p \<Longrightarrow>
   p < length (nd_heap s) \<and> session_id_of (peer_at s p) = Some i"
  by (simp add: node_inv_def tables_ok_def)

text \<open>The invariant reads only the heap, the two tables, the configuration and the queues.\<close>

lemma node_inv_cong:
  assumes "nd_heap t = nd_heap s" "nd_peers t = nd_peers s" "nd_sessions t = nd_sessions s"
    "nd_config t = nd_config s" "nd_workers t = nd_workers s"
    "length (nd_data t) \<le> length (nd_data s) \<or> length (nd_data t) \<le> CORE_EVENT_QUEUE_LIMIT"
  shows "node_inv s \<Longrightarrow> node_inv t"
  using assms by (auto simp: node_inv_def tables_ok_def queues_ok_def peer_at_def)

subsection \<open>Primitive changes\<close>

text \<open>An update of a peer that keeps its identity and its session id.\<close>

definition peer_step :: "node_config \<Rightarrow> ('hs peer_state \<Rightarrow> 'hs peer_state) \<Rightarrow> 'hs peer_state \<Rightarrow> bool" where
  "peer_step config f q \<longleftrightarrow> (peer_ok config q \<longrightarrow> peer_ok config (f q))
     \<and> ps_id (f q) = ps_id q \<and> session_id_of (f q) = session_id_of q"

lemma inv_upd:
  assumes "node_inv s" and step: "p < length (nd_heap s) \<Longrightarrow> peer_step (nd_config s) f (peer_at s p)"
  shows "node_inv (upd_peer p f s)"
proof -
  have id: "ps_id (peer_at (upd_peer p f s) q) = ps_id (peer_at s q)" for q
    by (rule peers.view_upd) (use step in \<open>simp add: peer_step_def\<close>)
  have sid: "session_id_of (peer_at (upd_peer p f s) q) = session_id_of (peer_at s q)" for q
    by (rule peers.view_upd) (use step in \<open>simp add: peer_step_def\<close>)
  have "\<forall>q < length (nd_heap (upd_peer p f s)). peer_ok (nd_config s) (peer_at (upd_peer p f s) q)"
    by (rule peers.all_upd) (use assms in \<open>simp_all add: node_inv_def peer_step_def\<close>)
  then show ?thesis using assms(1) by (simp add: node_inv_def tables_ok_def queues_ok_def id sid)
qed

lemma inv_emit: "node_inv s \<Longrightarrow> node_inv (snd (emit event s))"
  by (rule node_inv_cong [of _ s]) (auto simp: emit_def split: vela_event.split)

lemma inv_observe: "node_inv s \<Longrightarrow> node_inv (observe sample s)"
  by (rule node_inv_cong [of _ s]) (auto simp: observe_def)

lemma inv_socket: "node_inv s \<Longrightarrow> node_inv (snd (socket_send env bytes target s))"
  by (rule node_inv_cong [of _ s]) (auto simp: socket_send_def Let_def)

lemma inv_send_packet: "node_inv s \<Longrightarrow> node_inv (snd (send_packet env target ty i n payload s))"
  by (rule node_inv_cong [of _ s]) simp_all

lemma inv_transport: "node_inv s \<Longrightarrow> node_inv (count_transport f s)"
  by (rule node_inv_cong [of _ s]) simp_all

lemma inv_spawn: "node_inv s \<Longrightarrow> node_inv (s\<lparr>nd_spawned := x\<rparr>)"
  by (rule node_inv_cong [of _ s]) simp_all

text \<open>Closing a session: the peer loses it and the table its entry.\<close>

definition close_session :: "nat \<Rightarrow> 'hs node \<Rightarrow> 'hs node" where
  "close_session p s =
    (let s1 = upd_peer p (\<lambda>q. q\<lparr>ps_active := None\<rparr>) s in
     case session_id_of (peer_at s p) of None \<Rightarrow> s1 | Some i \<Rightarrow> remove_session p i s1)"

lemma map_of_delete: "map_of (AList.delete k xs) = (map_of xs)(k := None)"
  by (rule delete_conv')

lemma inv_close_session: 
  assumes "node_inv s" "p < length (nd_heap s)"
  shows "node_inv (close_session p s)"
proof -
  let ?s = "upd_peer p (\<lambda>q. q\<lparr>ps_active := None\<rparr>) s"
  let ?t = "close_session p s"
  have heap: "nd_heap ?t = nd_heap ?s" and rest: "nd_peers ?t = nd_peers s" "nd_config ?t = nd_config s"
    "nd_workers ?t = nd_workers s" "nd_data ?t = nd_data s"
    by (simp_all add: close_session_def Let_def split: option.split)
  have at: "peer_at ?t q = (if q = p then (peer_at s p)\<lparr>ps_active := None\<rparr> else peer_at s q)" for q
    using assms(2) heap by (simp add: peer_at_def upd_peer_def nth_list_update)
  have own: "session_id_of (peer_at s p) = Some j" if "map_of (nd_sessions s) j = Some p" for j
    using node_inv_session [OF assms(1) that] by simp
  have mem: "q \<noteq> p \<and> map_of (nd_sessions s) i = Some q" if entry: "map_of (nd_sessions ?t) i = Some q" for i q
  proof (cases "session_id_of (peer_at s p)")
    case None
    then have "map_of (nd_sessions s) i = Some q" using entry by (simp add: close_session_def Let_def)
    then show ?thesis using own None by auto
  next
    case (Some j)
    then have *: "map_of (nd_sessions (remove_session p j ?s)) i = Some q"
      using entry by (simp add: close_session_def Let_def)
    show ?thesis
    proof (cases "map_of (nd_sessions s) j = Some p")
      case True
      then have "map_of (nd_sessions s) i = Some q" "i \<noteq> j"
        using * by (simp_all add: remove_session_def map_of_delete split: if_splits)
      then show ?thesis using own [of i] Some by auto
    next
      case False
      then have "map_of (nd_sessions s) i = Some q" using * by (simp add: remove_session_def)
      then show ?thesis using own [of i] Some False by auto
    qed
  qed
  have "distinct (map fst (nd_sessions ?t))"
    using assms(1) by (simp add: node_inv_def tables_ok_def close_session_def Let_def remove_session_def
      distinct_delete split: option.split)
  moreover have "peer_ok (nd_config s) ((peer_at s p)\<lparr>ps_active := None\<rparr>)"
    using node_inv_peer [OF assms] by (simp add: peer_ok_def)
  moreover have "q < length (nd_heap ?t) \<and> session_id_of (peer_at ?t q) = Some i"
    if "map_of (nd_sessions ?t) i = Some q" for i q
    using mem [OF that] node_inv_session [OF assms(1), of i q] by (simp add: at heap)
  ultimately show ?thesis
    using assms unfolding node_inv_def tables_ok_def queues_ok_def by (simp add: at heap rest)
qed


subsection \<open>Sessions and membership\<close>

text \<open>Updates that keep what \<open>peer_ok\<close> says of a peer.\<close>

named_theorems peer_steps \<open>updates of a peer that keep its invariant and its session id\<close>

lemma peer_step_fields [peer_steps]:
  "peer_step config (\<lambda>q. q\<lparr>ps_is_online := b\<rparr>) q"
  "peer_step config (\<lambda>q. q\<lparr>ps_connecting := b\<rparr>) q"
  "peer_step config (\<lambda>q. q\<lparr>ps_attempt := a\<rparr>) q"
  "peer_step config (\<lambda>q. q\<lparr>ps_attempt := a, ps_queue := []\<rparr>) q"
  "peer_step config (\<lambda>q. q\<lparr>ps_receive := g (ps_receive q)\<rparr>) q"
  "peer_step config (\<lambda>q. q\<lparr>ps_reconnect := reconnect_default\<rparr>) q"
  "peer_step config (\<lambda>q. q\<lparr>ps_reconnect := (ps_reconnect q)\<lparr>rc_running := b\<rparr>\<rparr>) q"
  "peer_step config (\<lambda>q. q\<lparr>ps_reconnect := (ps_reconnect q)\<lparr>rc_attempts := 0\<rparr>\<rparr>) q"
  "peer_step config (\<lambda>q. q\<lparr>ps_reconnect := (ps_reconnect q)\<lparr>rc_requested := b, rc_attempts := 0\<rparr>\<rparr>) q"
  "peer_step config (\<lambda>q. q\<lparr>ps_is_online := b, ps_reconnect := (ps_reconnect q)\<lparr>rc_requested := c\<rparr>\<rparr>) q"
  "peer_step config clear_failure q"
  "peer_step config (record_failure now reason) q"
  "peer_step config (record_path now path candidates) q"
  by (auto simp: peer_step_def peer_ok_def session_id_of_def reconnect_default_def clear_failure_def
    record_failure_def record_path_def Let_def)

lemma peer_step_update_info [peer_steps]:
  "pi_node_id info = ps_id q \<Longrightarrow>
   peer_step config (\<lambda>q. (update_info cred info key q)\<lparr>ps_is_online := b\<rparr>) q"
  by (simp add: peer_step_def peer_ok_def session_id_of_def update_info_def)

lemma peer_step_session:
  assumes "ps_active q = Some session" "session_ok config session \<Longrightarrow> session_ok config session'"
    "as_session_id session' = as_session_id session"
  shows "peer_step config (\<lambda>q. q\<lparr>ps_active := Some session'\<rparr>) q"
  using assms by (simp add: peer_step_def peer_ok_def session_id_of_def)

lemma inv_upd_step:
  "node_inv s \<Longrightarrow> (\<And>q. peer_step (nd_config s) f q) \<Longrightarrow> node_inv (upd_peer p f s)"
  by (rule inv_upd)

lemmas inv_primitives = inv_emit inv_observe inv_socket inv_send_packet inv_transport inv_spawn

lemma close_session_frame [simp]:
  "nd_identity (close_session p s) = nd_identity s"
  "nd_incarnation (close_session p s) = nd_incarnation s"
  "nd_config (close_session p s) = nd_config s"
  "nd_observer (close_session p s) = nd_observer s"
  "nd_peers (close_session p s) = nd_peers s"
  "nd_routes (close_session p s) = nd_routes s"
  "nd_network_id (close_session p s) = nd_network_id s"
  "nd_snapshot_generation (close_session p s) = nd_snapshot_generation s"
  "nd_snapshot_expires_at (close_session p s) = nd_snapshot_expires_at s"
  "nd_local_ipv4 (close_session p s) = nd_local_ipv4 s"
  "nd_local_ipv6 (close_session p s) = nd_local_ipv6 s"
  "nd_control (close_session p s) = nd_control s"
  "nd_data (close_session p s) = nd_data s"
  "nd_stun_waiters (close_session p s) = nd_stun_waiters s"
  "nd_workers (close_session p s) = nd_workers s"
  "nd_receive (close_session p s) = nd_receive s"
  "nd_stopping (close_session p s) = nd_stopping s"
  "nd_started (close_session p s) = nd_started s"
  "nd_spawned (close_session p s) = nd_spawned s"
  "nd_sent (close_session p s) = nd_sent s"
  "nd_samples (close_session p s) = nd_samples s"
  "nd_ping_answers (close_session p s) = nd_ping_answers s"
  "nd_stun_answers (close_session p s) = nd_stun_answers s"
  "length (nd_heap (close_session p s)) = length (nd_heap s)"
  by (simp_all add: close_session_def Let_def split: option.split)

lemma invalidate_frame [simp]:
  "nd_identity (invalidate_session_if p e r s) = nd_identity s"
  "nd_incarnation (invalidate_session_if p e r s) = nd_incarnation s"
  "nd_config (invalidate_session_if p e r s) = nd_config s"
  "nd_observer (invalidate_session_if p e r s) = nd_observer s"
  "nd_peers (invalidate_session_if p e r s) = nd_peers s"
  "nd_routes (invalidate_session_if p e r s) = nd_routes s"
  "nd_network_id (invalidate_session_if p e r s) = nd_network_id s"
  "nd_snapshot_generation (invalidate_session_if p e r s) = nd_snapshot_generation s"
  "nd_snapshot_expires_at (invalidate_session_if p e r s) = nd_snapshot_expires_at s"
  "nd_local_ipv4 (invalidate_session_if p e r s) = nd_local_ipv4 s"
  "nd_local_ipv6 (invalidate_session_if p e r s) = nd_local_ipv6 s"
  "nd_stun_waiters (invalidate_session_if p e r s) = nd_stun_waiters s"
  "nd_workers (invalidate_session_if p e r s) = nd_workers s"
  "nd_receive (invalidate_session_if p e r s) = nd_receive s"
  "nd_stopping (invalidate_session_if p e r s) = nd_stopping s"
  "nd_started (invalidate_session_if p e r s) = nd_started s"
  "nd_spawned (invalidate_session_if p e r s) = nd_spawned s"
  "nd_sent (invalidate_session_if p e r s) = nd_sent s"
  "nd_samples (invalidate_session_if p e r s) = nd_samples s"
  "nd_ping_answers (invalidate_session_if p e r s) = nd_ping_answers s"
  "nd_stun_answers (invalidate_session_if p e r s) = nd_stun_answers s"
  "length (nd_heap (invalidate_session_if p e r s)) = length (nd_heap s)"
  by (simp_all add: invalidate_session_if_def Let_def split: option.split)

lemma invalidate_session_frame [simp]:
  "nd_identity (invalidate_session p r s) = nd_identity s"
  "nd_incarnation (invalidate_session p r s) = nd_incarnation s"
  "nd_config (invalidate_session p r s) = nd_config s"
  "nd_observer (invalidate_session p r s) = nd_observer s"
  "nd_peers (invalidate_session p r s) = nd_peers s"
  "nd_routes (invalidate_session p r s) = nd_routes s"
  "nd_network_id (invalidate_session p r s) = nd_network_id s"
  "nd_snapshot_generation (invalidate_session p r s) = nd_snapshot_generation s"
  "nd_snapshot_expires_at (invalidate_session p r s) = nd_snapshot_expires_at s"
  "nd_local_ipv4 (invalidate_session p r s) = nd_local_ipv4 s"
  "nd_local_ipv6 (invalidate_session p r s) = nd_local_ipv6 s"
  "nd_stun_waiters (invalidate_session p r s) = nd_stun_waiters s"
  "nd_workers (invalidate_session p r s) = nd_workers s"
  "nd_receive (invalidate_session p r s) = nd_receive s"
  "nd_stopping (invalidate_session p r s) = nd_stopping s"
  "nd_started (invalidate_session p r s) = nd_started s"
  "nd_spawned (invalidate_session p r s) = nd_spawned s"
  "nd_sent (invalidate_session p r s) = nd_sent s"
  "nd_samples (invalidate_session p r s) = nd_samples s"
  "nd_ping_answers (invalidate_session p r s) = nd_ping_answers s"
  "nd_stun_answers (invalidate_session p r s) = nd_stun_answers s"
  "length (nd_heap (invalidate_session p r s)) = length (nd_heap s)"
  by (simp_all add: invalidate_session_def)

lemma retire_frame [simp]:
  "nd_identity (snd (retire_peer p s)) = nd_identity s"
  "nd_incarnation (snd (retire_peer p s)) = nd_incarnation s"
  "nd_config (snd (retire_peer p s)) = nd_config s"
  "nd_observer (snd (retire_peer p s)) = nd_observer s"
  "nd_peers (snd (retire_peer p s)) = nd_peers s"
  "nd_routes (snd (retire_peer p s)) = nd_routes s"
  "nd_network_id (snd (retire_peer p s)) = nd_network_id s"
  "nd_snapshot_generation (snd (retire_peer p s)) = nd_snapshot_generation s"
  "nd_snapshot_expires_at (snd (retire_peer p s)) = nd_snapshot_expires_at s"
  "nd_local_ipv4 (snd (retire_peer p s)) = nd_local_ipv4 s"
  "nd_local_ipv6 (snd (retire_peer p s)) = nd_local_ipv6 s"
  "nd_control (snd (retire_peer p s)) = nd_control s"
  "nd_data (snd (retire_peer p s)) = nd_data s"
  "nd_stun_waiters (snd (retire_peer p s)) = nd_stun_waiters s"
  "nd_workers (snd (retire_peer p s)) = nd_workers s"
  "nd_receive (snd (retire_peer p s)) = nd_receive s"
  "nd_stopping (snd (retire_peer p s)) = nd_stopping s"
  "nd_started (snd (retire_peer p s)) = nd_started s"
  "nd_spawned (snd (retire_peer p s)) = nd_spawned s"
  "nd_sent (snd (retire_peer p s)) = nd_sent s"
  "nd_samples (snd (retire_peer p s)) = nd_samples s"
  "nd_ping_answers (snd (retire_peer p s)) = nd_ping_answers s"
  "nd_stun_answers (snd (retire_peer p s)) = nd_stun_answers s"
  "length (nd_heap (snd (retire_peer p s))) = length (nd_heap s)"
  by (simp_all add: retire_peer_def Let_def split: option.split)

lemma schedule_frame [simp]:
  "nd_identity (schedule_reconnect p s) = nd_identity s"
  "nd_incarnation (schedule_reconnect p s) = nd_incarnation s"
  "nd_config (schedule_reconnect p s) = nd_config s"
  "nd_observer (schedule_reconnect p s) = nd_observer s"
  "nd_peers (schedule_reconnect p s) = nd_peers s"
  "nd_routes (schedule_reconnect p s) = nd_routes s"
  "nd_network_id (schedule_reconnect p s) = nd_network_id s"
  "nd_snapshot_generation (schedule_reconnect p s) = nd_snapshot_generation s"
  "nd_snapshot_expires_at (schedule_reconnect p s) = nd_snapshot_expires_at s"
  "nd_local_ipv4 (schedule_reconnect p s) = nd_local_ipv4 s"
  "nd_local_ipv6 (schedule_reconnect p s) = nd_local_ipv6 s"
  "nd_stun_waiters (schedule_reconnect p s) = nd_stun_waiters s"
  "nd_workers (schedule_reconnect p s) = nd_workers s"
  "nd_sessions (schedule_reconnect p s) = nd_sessions s"
  "nd_receive (schedule_reconnect p s) = nd_receive s"
  "nd_stopping (schedule_reconnect p s) = nd_stopping s"
  "nd_started (schedule_reconnect p s) = nd_started s"
  "nd_sent (schedule_reconnect p s) = nd_sent s"
  "nd_samples (schedule_reconnect p s) = nd_samples s"
  "nd_ping_answers (schedule_reconnect p s) = nd_ping_answers s"
  "nd_stun_answers (schedule_reconnect p s) = nd_stun_answers s"
  "length (nd_heap (schedule_reconnect p s)) = length (nd_heap s)"
  by (simp_all add: schedule_reconnect_def Let_def)

lemma invalidate_session_eq:
  "invalidate_session_if p expected request s =
    (if (case expected of None \<Rightarrow> False | Some e \<Rightarrow> session_id_of (peer_at s p) \<noteq> Some e) then s
     else
       let s2 = close_session p s;
           disconnected = (session_id_of (peer_at s p) \<noteq> None);
           had_attempt = (ps_attempt (peer_at s2 p) \<noteq> None);
           s3 = upd_peer p (\<lambda>q. q\<lparr>ps_attempt := None, ps_queue := []\<rparr>) s2;
           s4 = (if request \<and> (disconnected \<or> had_attempt)
             then upd_peer p (\<lambda>q. q\<lparr>ps_reconnect := (ps_reconnect q)\<lparr>rc_requested := True, rc_attempts := 0\<rparr>\<rparr>) s3
             else s3);
           s5 = upd_peer p (\<lambda>q. q\<lparr>ps_connecting := False\<rparr>) s4
       in if disconnected then snd (emit (PeerDisconnected (pi_node_id (ps_info (peer_at s5 p)))) s5) else s5)"
  unfolding invalidate_session_if_def close_session_def Let_def session_id_of_def
  by (cases "ps_active (peer_at s p)"; cases expected) auto

lemma inv_invalidate: "node_inv s \<Longrightarrow> p < length (nd_heap s) \<Longrightarrow> node_inv (invalidate_session_if p e r s)"
  unfolding invalidate_session_eq Let_def
  by (auto intro!: inv_emit inv_upd_step inv_close_session peer_steps)

lemma inv_invalidate_session: "node_inv s \<Longrightarrow> p < length (nd_heap s) \<Longrightarrow> node_inv (invalidate_session p r s)"
  by (simp add: invalidate_session_def inv_invalidate)

lemma inv_schedule: "node_inv s \<Longrightarrow> node_inv (schedule_reconnect p s)"
  unfolding schedule_reconnect_def Let_def
  by (auto intro!: inv_spawn inv_emit inv_upd_step peer_steps)

lemma inv_retire: "node_inv s \<Longrightarrow> p < length (nd_heap s) \<Longrightarrow> node_inv (snd (retire_peer p s))"
proof -
  assume assms: "node_inv s" "p < length (nd_heap s)"
  let ?s1 = "upd_peer p (\<lambda>q. q\<lparr>ps_is_online := False, ps_reconnect := (ps_reconnect q)\<lparr>rc_requested := False\<rparr>\<rparr>) s"
  have "snd (retire_peer p s) = upd_peer p (\<lambda>q. q\<lparr>ps_attempt := None, ps_queue := []\<rparr>) (close_session p ?s1)"
    unfolding retire_peer_def close_session_def Let_def session_id_of_def by simp
  then show ?thesis using assms by (auto intro!: inv_upd_step inv_close_session peer_steps)
qed

text \<open>Two new entries: a fresh peer on the heap, and a peer under a node id of the table.\<close>

lemma inv_alloc:
  assumes "node_inv s" "peer_ok (nd_config s) q"
  shows "node_inv (s\<lparr>nd_heap := nd_heap s @ [q]\<rparr>)"
proof -
  have at: "peer_at (s\<lparr>nd_heap := nd_heap s @ [q]\<rparr>) p = (if p < length (nd_heap s) then peer_at s p else q)"
    if "p < Suc (length (nd_heap s))" for p
    using that by (auto simp: peer_at_def nth_append)
  show ?thesis
    using assms unfolding node_inv_def tables_ok_def queues_ok_def
    by (auto simp: at less_Suc_eq)
qed

lemma inv_peers:
  assumes "node_inv s" "distinct (map fst ps)"
    and "\<And>n p. map_of ps n = Some p \<Longrightarrow> p < length (nd_heap s) \<and> ps_id (peer_at s p) = n"
  shows "node_inv (s\<lparr>nd_peers := ps, nd_routes := r\<rparr>)"
  using assms unfolding node_inv_def tables_ok_def queues_ok_def by (simp add: peer_at_def)

lemma peer_ok_with_online: "peer_ok config (with_online cred info online key)"
  by (simp add: peer_ok_def with_online_def reconnect_default_def MAX_RECONNECT_ATTEMPTS_def)

end
