(* ===== verification/Vela_Membership.thy ===== *)
theory Vela_Membership
  imports Vela_Node_Inv
begin

section \<open>Membership updates (vela-core)\<close>

text \<open>
  What \<open>register_peer\<close>, \<open>remove_peer\<close> and \<open>apply_snapshot\<close> leave behind: they keep the
  invariant of the node, and an accepted snapshot determines the peers, their state and the
  routes exactly.
\<close>

subsection \<open>Specification\<close>

text \<open>A peer whose session has been dropped.\<close>

definition invalidated :: "bool \<Rightarrow> 'hs peer_state \<Rightarrow> 'hs peer_state" where
  "invalidated request q = q\<lparr>ps_active := None, ps_attempt := None, ps_queue := [],
     ps_reconnect := (if request \<and> (ps_active q \<noteq> None \<or> ps_attempt q \<noteq> None)
       then (ps_reconnect q)\<lparr>rc_requested := True, rc_attempts := 0\<rparr> else ps_reconnect q),
     ps_connecting := False\<rparr>"

text \<open>The state after the loop of \<open>apply_snapshot\<close> has worked through \<open>infos\<close>, started in \<open>s0\<close>: the
  peers of \<open>infos\<close> have their entry, updated in place or fresh, and no other peer has changed.\<close>

definition merged_peer :: "node_id list \<Rightarrow> 'hs node \<Rightarrow> peer_info \<Rightarrow> nat \<Rightarrow> 'hs node \<Rightarrow> bool" where
  "merged_peer online s0 info p s \<longleftrightarrow> p < length (nd_heap s)
     \<and> ps_id (peer_at s p) = pi_node_id info \<and> ps_info (peer_at s p) = info
     \<and> ps_is_online (peer_at s p) = (pi_node_id info \<in> set online)
     \<and> (case map_of (nd_peers s0) (pi_node_id info) of
          Some p0 \<Rightarrow> p = p0 \<and> ps_active (peer_at s p) =
            (if can_retain_session (peer_at s0 p) info then ps_active (peer_at s0 p) else None)
        | None \<Rightarrow> length (nd_heap s0) \<le> p \<and> ps_active (peer_at s p) = None)"

definition merged :: "node_id list \<Rightarrow> 'hs node \<Rightarrow> peer_info list \<Rightarrow> (node_id \<times> nat) list \<Rightarrow> 'hs node \<Rightarrow> bool" where
  "merged online s0 infos replacement s \<longleftrightarrow> node_inv s
     \<and> nd_peers s = nd_peers s0 \<and> nd_config s = nd_config s0 \<and> nd_identity s = nd_identity s0
     \<and> nd_snapshot_generation s = nd_snapshot_generation s0
     \<and> length (nd_heap s0) \<le> length (nd_heap s)
     \<and> (\<forall>p < length (nd_heap s0). (\<forall>info \<in> set infos. map_of (nd_peers s0) (pi_node_id info) \<noteq> Some p)
          \<longrightarrow> peer_at s p = peer_at s0 p)
     \<and> map fst replacement = map pi_node_id infos
     \<and> (\<forall>info \<in> set infos. \<exists>p. map_of replacement (pi_node_id info) = Some p
          \<and> merged_peer online s0 info p s)"

subsection \<open>Invalidation and reconnection\<close>

lemma close_session_at:
  assumes "p < length (nd_heap s)"
  shows "peer_at (close_session p s) q = (if q = p then (peer_at s p)\<lparr>ps_active := None\<rparr> else peer_at s q)"
  using assms by (simp add: close_session_def Let_def peer_at_upd split: option.split)

lemma invalidate_at:
  assumes "p < length (nd_heap s)"
  shows "peer_at (invalidate_session p request s) q =
    (if q = p then invalidated request (peer_at s p) else peer_at s q)"
  using assms unfolding invalidate_session_def invalidate_session_eq Let_def
  by (simp add: close_session_at peer_at_upd invalidated_def session_id_of_def)

lemma schedule_view:
  assumes "\<And>q r. v (q\<lparr>ps_reconnect := r\<rparr>) = v q"
  shows "v (peer_at (schedule_reconnect p s) q) = v (peer_at s q)"
  unfolding schedule_reconnect_def Let_def by (simp add: peers.view_upd [of _ _ v] assms)

lemma schedule_views [simp]:
  "ps_id (peer_at (schedule_reconnect p s) q) = ps_id (peer_at s q)"
  "ps_info (peer_at (schedule_reconnect p s) q) = ps_info (peer_at s q)"
  "ps_is_online (peer_at (schedule_reconnect p s) q) = ps_is_online (peer_at s q)"
  "ps_active (peer_at (schedule_reconnect p s) q) = ps_active (peer_at s q)"
  by (rule schedule_view; simp)+

subsection \<open>Registering and removing a peer\<close>

lemma inv_upd_online: "node_inv s \<Longrightarrow> node_inv (upd_peer p (\<lambda>q. q\<lparr>ps_is_online := b\<rparr>) s)"
  by (auto intro!: inv_upd_step peer_steps)

lemma inv_add_peer:
  assumes "node_inv s"
  shows "node_inv (s\<lparr>nd_heap := nd_heap s @ [with_online cred info online key],
    nd_peers := AList.update (pi_node_id info) (length (nd_heap s)) (nd_peers s), nd_routes := r\<rparr>)"
proof -
  let ?s = "s\<lparr>nd_heap := nd_heap s @ [with_online cred info online key]\<rparr>"
  have "node_inv ?s" using assms peer_ok_with_online by (rule inv_alloc)
  then have "node_inv (?s\<lparr>nd_peers := AList.update (pi_node_id info) (length (nd_heap s)) (nd_peers s), nd_routes := r\<rparr>)"
  proof (rule inv_peers)
    show "distinct (map fst (AList.update (pi_node_id info) (length (nd_heap s)) (nd_peers s)))"
      using assms by (simp add: distinct_update node_inv_def tables_ok_def)
    show "p < length (nd_heap ?s) \<and> ps_id (peer_at ?s p) = n"
      if "map_of (AList.update (pi_node_id info) (length (nd_heap s)) (nd_peers s)) n = Some p" for n p
      using that node_inv_known [OF assms, of n p]
      by (auto simp: update_conv' peer_at_def nth_append with_online_def split: if_splits)
  qed
  then show ?thesis by simp
qed

lemma inv_register_peer: "node_inv s \<Longrightarrow> node_inv (snd (register_peer env info s))"
proof -
  assume inv: "node_inv s"
  let ?key = "nc_server_public_key (nd_config s)"
  have "node_inv (snd (register_peer env info s))" if "map_of (nd_peers s) (pi_node_id info) = None"
    using inv inv_add_peer [OF inv] that
    by (auto simp: register_peer_def Let_def split: sum.split)
  moreover have "node_inv (snd (register_peer env info s))" if p: "map_of (nd_peers s) (pi_node_id info) = Some p" for p
  proof -
    define s1 where "s1 = s\<lparr>nd_heap := nd_heap s @ [with_online (ne_cred env) info True ?key],
      nd_peers := AList.update (pi_node_id info) (length (nd_heap s)) (nd_peers s),
      nd_routes := insert_routes (info_addresses info) (pi_node_id info)
        (remove_routes (info_addresses (ps_info (peer_at s p))) (nd_routes s))\<rparr>"
    have "node_inv s1" "p < length (nd_heap s1)"
      using inv_add_peer [OF inv] node_inv_known [OF inv p] by (simp_all add: s1_def)
    then have "node_inv (snd (retire_peer p s1))" by (rule inv_retire)
    then show ?thesis
      using inv p inv_upd_online [OF inv, of p True]
      by (auto simp: register_peer_def Let_def s1_def [symmetric] case_prod_beta intro!: inv_emit
        split: sum.split)
  qed
  ultimately show ?thesis by (cases "map_of (nd_peers s) (pi_node_id info)") auto
qed

lemma inv_remove_peer: "node_inv s \<Longrightarrow> node_inv (snd (remove_peer n s))"
proof (cases "map_of (nd_peers s) n")
  case (Some p)
  assume inv: "node_inv s"
  define s1 where "s1 = s\<lparr>nd_peers := AList.delete n (nd_peers s),
    nd_routes := remove_routes (info_addresses (ps_info (peer_at s p))) (nd_routes s)\<rparr>"
  have "node_inv s1"
    unfolding s1_def
  proof (rule inv_peers [OF inv])
    show "distinct (map fst (AList.delete n (nd_peers s)))"
      using inv by (simp add: distinct_delete node_inv_def tables_ok_def)
    show "p < length (nd_heap s) \<and> ps_id (peer_at s p) = m"
      if "map_of (AList.delete n (nd_peers s)) m = Some p" for m p
      using that node_inv_known [OF inv, of m p] by (auto simp: map_of_delete split: if_splits)
  qed
  moreover have "p < length (nd_heap s1)" using node_inv_known [OF inv Some] by (simp add: s1_def)
  ultimately have "node_inv (snd (emit (PeerDisconnected n) (snd (retire_peer p s1))))"
    by (intro inv_emit inv_retire)
  then show ?thesis using Some by (simp add: remove_peer_def Let_def s1_def [symmetric])
qed (simp add: remove_peer_def)

subsection \<open>Applying a snapshot\<close>

lemma update_new: "k \<notin> fst ` set xs \<Longrightarrow> AList.update k v xs = xs @ [(k, v)]"
  by (induction xs) auto

text \<open>A peer that the node already has: what the loop makes of it.\<close>

definition refreshed ::
  "'hs node_env \<Rightarrow> node_id list \<Rightarrow> 256 word option \<Rightarrow> peer_info \<Rightarrow> 'hs peer_state \<Rightarrow> 'hs peer_state" where
  "refreshed env online key info q =
    (let q1 = (if can_retain_session q info then q else invalidated True q);
         q2 = (update_info (ne_cred env) info key q1)\<lparr>ps_is_online := (pi_node_id info \<in> set online)\<rparr>
     in if pi_node_id info \<in> set online \<and> rc_requested (ps_reconnect q2)
        then q2\<lparr>ps_reconnect := (ps_reconnect q2)\<lparr>rc_attempts := 0\<rparr>\<rparr> else q2)"

lemma refreshed_views [simp]:
  "ps_id (refreshed env online key info q) = ps_id q"
  "ps_info (refreshed env online key info q) = info"
  "ps_is_online (refreshed env online key info q) \<longleftrightarrow> pi_node_id info \<in> set online"
  "ps_active (refreshed env online key info q) =
    (if can_retain_session q info then ps_active q else None)"
  by (simp_all add: refreshed_def Let_def update_info_def invalidated_def)

lemma merge_known:
  assumes "map_of old (pi_node_id info) = Some p" "p < length (nd_heap s)"
    and "merge_peer env online old info replacement reconnect s = (replacement', reconnect', s')"
  shows "replacement' = AList.update (pi_node_id info) p replacement"
    and "peer_at s' q = (if q = p then refreshed env online (nc_server_public_key (nd_config s)) info (peer_at s p)
      else peer_at s q)"
    and "length (nd_heap s') = length (nd_heap s)" "nd_peers s' = nd_peers s" "nd_config s' = nd_config s"
    and "nd_identity s' = nd_identity s" "nd_snapshot_generation s' = nd_snapshot_generation s"
  using assms unfolding merge_peer_def Let_def
  by (auto simp: invalidate_at peer_at_upd refreshed_def Let_def)

lemma inv_merge_known:
  assumes "node_inv s" "map_of old (pi_node_id info) = Some p" "p < length (nd_heap s)"
    and "ps_id (peer_at s p) = pi_node_id info"
    and "merge_peer env online old info replacement reconnect s = (replacement', reconnect', s')"
  shows "node_inv s'"
proof -
  define s1 where "s1 = (if \<not> can_retain_session (peer_at s p) info then invalidate_session p True s else s)"
  have "node_inv s1" using assms(1,3) by (simp add: s1_def inv_invalidate_session)
  moreover have "ps_id (peer_at s1 p) = pi_node_id info"
    using assms(3,4) by (simp add: s1_def invalidate_at invalidated_def)
  ultimately have updated:
    "node_inv (upd_peer p (\<lambda>q. (update_info (ne_cred env) info key q)\<lparr>ps_is_online := b\<rparr>) s1)" for key b
    by (intro inv_upd peer_steps) simp_all
  have "node_inv (upd_peer p (\<lambda>q. q\<lparr>ps_reconnect := (ps_reconnect q)\<lparr>rc_attempts := 0\<rparr>\<rparr>)
      (upd_peer p (\<lambda>q. (update_info (ne_cred env) info key q)\<lparr>ps_is_online := b\<rparr>) s1))" for key b
    using updated by (rule inv_upd_step) (rule peer_steps)
  moreover have "\<exists>b. s' = (let s2 = upd_peer p (\<lambda>q. (update_info (ne_cred env) info
      (nc_server_public_key (nd_config s)) q)\<lparr>ps_is_online := pi_node_id info \<in> set online\<rparr>) s1
    in if b then upd_peer p (\<lambda>q. q\<lparr>ps_reconnect := (ps_reconnect q)\<lparr>rc_attempts := 0\<rparr>\<rparr>) s2 else s2)"
    using assms(2,5) unfolding merge_peer_def Let_def option.case s1_def
    by (simp only: option.simps prod.inject) blast
  ultimately show ?thesis using updated by (auto simp: Let_def)
qed

lemma merged_peer_cong:
  assumes "merged_peer online s0 info q s" "peer_at s' q = peer_at s q" "length (nd_heap s) \<le> length (nd_heap s')"
  shows "merged_peer online s0 info q s'"
  using assms(1,3) unfolding merged_peer_def assms(2) by simp

lemma merged_entry:
  assumes "merged online s0 infos replacement s" "i \<in> set infos" "map_of replacement (pi_node_id i) = Some q"
  shows "merged_peer online s0 i q s"
proof -
  obtain q' where "map_of replacement (pi_node_id i) = Some q'" "merged_peer online s0 i q' s"
    using assms(1,2) unfolding merged_def by blast
  then show ?thesis using assms(3) by simp
qed

lemma merged_extend:
  assumes m: "merged online s0 infos replacement s" and inv: "node_inv s'"
    and frame: "nd_peers s' = nd_peers s" "nd_config s' = nd_config s" "nd_identity s' = nd_identity s"
      "nd_snapshot_generation s' = nd_snapshot_generation s"
    and heap: "length (nd_heap s) \<le> length (nd_heap s')"
    and new: "pi_node_id info \<notin> pi_node_id ` set infos"
    and entry: "merged_peer online s0 info p s'"
    and own: "\<And>i q. i \<in> set infos \<Longrightarrow> map_of replacement (pi_node_id i) = Some q \<Longrightarrow> peer_at s' q = peer_at s q"
    and rest: "\<And>q. q < length (nd_heap s0) \<Longrightarrow> map_of (nd_peers s0) (pi_node_id info) \<noteq> Some q \<Longrightarrow> peer_at s' q = peer_at s q"
  shows "merged online s0 (infos @ [info]) (AList.update (pi_node_id info) p replacement) s'"
proof -
  have keys: "fst ` set replacement = pi_node_id ` set infos"
    using m unfolding merged_def by (metis list.set_map)
  then have repl: "AList.update (pi_node_id info) p replacement = replacement @ [(pi_node_id info, p)]"
    using new by (simp add: update_new)
  have none: "map_of replacement (pi_node_id info) = None"
    using new keys by (metis map_of_eq_None_iff)
  have old: "\<exists>q. map_of (replacement @ [(pi_node_id info, p)]) (pi_node_id i) = Some q \<and> merged_peer online s0 i q s'"
    if i: "i \<in> set infos" for i
  proof -
    obtain q where q: "map_of replacement (pi_node_id i) = Some q" "merged_peer online s0 i q s"
      using m i unfolding merged_def by blast
    have "merged_peer online s0 i q s'" using q(2) own [OF i q(1)] heap by (rule merged_peer_cong)
    then show ?thesis using q(1) by simp
  qed
  have "peer_at s' q = peer_at s0 q"
    if "q < length (nd_heap s0)" "\<forall>i \<in> set (infos @ [info]). map_of (nd_peers s0) (pi_node_id i) \<noteq> Some q" for q
    using m rest [of q] that unfolding merged_def by simp
  moreover have "map fst (replacement @ [(pi_node_id info, p)]) = map pi_node_id (infos @ [info])"
    using m by (simp add: merged_def)
  moreover have "length (nd_heap s0) \<le> length (nd_heap s')" using m heap by (simp add: merged_def)
  moreover have "\<exists>q. map_of (replacement @ [(pi_node_id info, p)]) (pi_node_id i) = Some q \<and> merged_peer online s0 i q s'"
    if "i \<in> set (infos @ [info])" for i
    using that old none entry by (auto simp: map_add_def)
  ultimately show ?thesis
    using m inv frame unfolding merged_def repl by simp
qed

lemma merged_known:
  assumes inv0: "node_inv s0" and m: "merged online s0 infos replacement s"
    and new: "pi_node_id info \<notin> pi_node_id ` set infos"
    and p: "map_of (nd_peers s0) (pi_node_id info) = Some p"
    and step: "merge_peer env online (nd_peers s0) info replacement reconnect s = (replacement', reconnect', s')"
  shows "merged online s0 (infos @ [info]) replacement' s'"
proof -
  note known = node_inv_known [OF inv0]
  have p_lt: "p < length (nd_heap s0)" and p_id: "ps_id (peer_at s0 p) = pi_node_id info"
    using known [OF p] by simp_all
  have le: "length (nd_heap s0) \<le> length (nd_heap s)" using m unfolding merged_def by blast
  with p_lt have lt: "p < length (nd_heap s)" by simp
  have untouched: "map_of (nd_peers s0) (pi_node_id i) \<noteq> Some p" if "i \<in> set infos" for i
    using known [of "pi_node_id i" p] p_id new that by (metis imageI)
  then have at: "peer_at s p = peer_at s0 p" using m p_lt unfolding merged_def by blast
  note eff = merge_known [OF p lt step]
  show ?thesis
    unfolding eff(1)
  proof (rule merged_extend [OF m _ eff(4-7) _ new])
    have "node_inv s" using m unfolding merged_def by blast
    then show "node_inv s'" using p lt p_id [folded at] step by (rule inv_merge_known)
    show "length (nd_heap s) \<le> length (nd_heap s')" by (simp add: eff(3))
    show "merged_peer online s0 info p s'"
      unfolding merged_peer_def using p lt p_id by (simp add: eff(2,3) at)
    show "peer_at s' q = peer_at s q" if i: "i \<in> set infos" and q: "map_of replacement (pi_node_id i) = Some q" for i q
    proof -
      have "ps_id (peer_at s q) = pi_node_id i"
        using merged_entry [OF m i q] by (simp add: merged_peer_def)
      then have "q \<noteq> p" using at p_id new i by auto
      then show ?thesis by (simp add: eff(2))
    qed
    show "peer_at s' q = peer_at s q" if "map_of (nd_peers s0) (pi_node_id info) \<noteq> Some q" for q
      using that p by (simp add: eff(2))
  qed
qed

lemma merged_fresh:
  assumes m: "merged online s0 infos replacement s"
    and new: "pi_node_id info \<notin> pi_node_id ` set infos"
    and p: "map_of (nd_peers s0) (pi_node_id info) = None"
    and step: "merge_peer env online (nd_peers s0) info replacement reconnect s = (replacement', reconnect', s')"
  shows "merged online s0 (infos @ [info]) replacement' s'"
proof -
  let ?q = "with_online (ne_cred env) info (pi_node_id info \<in> set online) (nc_server_public_key (nd_config s))"
  have s': "s' = s\<lparr>nd_heap := nd_heap s @ [?q]\<rparr>"
    and repl: "replacement' = AList.update (pi_node_id info) (length (nd_heap s)) replacement"
    using step p by (simp_all add: merge_peer_def Let_def)
  have at: "peer_at s' q = peer_at s q" if "q < length (nd_heap s)" for q
    using that by (simp add: s' peer_at_def nth_append)
  have at_new: "peer_at s' (length (nd_heap s)) = ?q"
    by (simp add: s' peer_at_def)
  have le: "length (nd_heap s0) \<le> length (nd_heap s)" using m by (simp add: merged_def)
  show ?thesis
    unfolding repl
  proof (rule merged_extend [OF m _ _ _ _ _ _ new])
    show "node_inv s'"
      unfolding s' using m peer_ok_with_online by (intro inv_alloc) (simp_all add: merged_def)
    show "merged_peer online s0 info (length (nd_heap s)) s'"
      using p le by (simp add: merged_peer_def at_new) (simp add: with_online_def s')
    show "peer_at s' q = peer_at s q" if i: "i \<in> set infos" and q: "map_of replacement (pi_node_id i) = Some q" for i q
      using merged_entry [OF m i q] at by (simp add: merged_peer_def)
    show "peer_at s' q = peer_at s q" if "q < length (nd_heap s0)" for q
      using that le at by simp
  qed (simp_all add: s')
qed

lemma merge_peer_frame:
  assumes "merge_peer env online old info replacement reconnect s = (replacement', reconnect', s')"
  shows "nd_config s' = nd_config s" "nd_identity s' = nd_identity s"
  using assms unfolding merge_peer_def Let_def by (auto split: option.splits)

lemma node_id_of_cong: "nd_identity s' = nd_identity s \<Longrightarrow> node_id_of env s' = node_id_of env s"
  by (simp add: node_id_of_def)

abbreviation others :: "'hs node_env \<Rightarrow> 'hs node \<Rightarrow> peer_info list \<Rightarrow> peer_info list" where
  "others env s infos \<equiv> filter (\<lambda>info. pi_node_id info \<noteq> node_id_of env s) infos"

lemma merge_peers_merged:
  assumes "node_inv s0" "merged online s0 before replacement s"
    "distinct (map pi_node_id (before @ others env s0 infos))"
    "merge_peers env online (nd_peers s0) infos replacement reconnect s = (r, s')"
  shows "node_inv s' \<and> nd_peers s' = nd_peers s0
    \<and> (\<forall>replacement' reconnect'. r = Inr (replacement', reconnect')
        \<longrightarrow> merged online s0 (before @ others env s0 infos) replacement' s')"
  using assms(2-4)
proof (induction infos arbitrary: before replacement reconnect s)
  case Nil
  then show ?case by (simp add: merged_def) blast
next
  case (Cons info infos)
  have base: "node_inv s \<and> nd_peers s = nd_peers s0" and ident: "node_id_of env s = node_id_of env s0"
    using Cons.prems(1) unfolding merged_def by (blast, metis node_id_of_cong)
  show ?case
  proof (cases "\<exists>e. r = Inl e \<and> s' = s")
    case True
    then show ?thesis using base by auto
  next
    case False
    show ?thesis
    proof (cases "pi_node_id info = node_id_of env s0")
      case True
      then have "merge_peers env online (nd_peers s0) infos replacement reconnect s = (r, s')"
        using Cons.prems(3) False ident by (auto split: sum.splits)
      then show ?thesis using Cons.IH [of before] Cons.prems(1,2) True by simp
    next
      case neq: False
      obtain replacement1 reconnect1 s1 where
        step: "merge_peer env online (nd_peers s0) info replacement reconnect s = (replacement1, reconnect1, s1)"
        by (metis prod_cases3)
      then have rest: "merge_peers env online (nd_peers s0) infos replacement1 reconnect1 s1 = (r, s')"
        using Cons.prems(3) False neq ident by (auto split: sum.splits)
      have new: "pi_node_id info \<notin> pi_node_id ` set before" using Cons.prems(2) neq by auto
      have "merged online s0 (before @ [info]) replacement1 s1"
        using merged_known [OF assms(1) Cons.prems(1) new _ step] merged_fresh [OF Cons.prems(1) new _ step]
        by (cases "map_of (nd_peers s0) (pi_node_id info)") auto
      then show ?thesis using Cons.IH [of "before @ [info]", OF _ _ rest] Cons.prems(2) neq by simp
    qed
  qed
qed

lemma merge_peers_ok:
  assumes "\<forall>info \<in> set infos. validate_peer_info (cp_blake3 (ne_cp env)) info = Inr ()
    \<and> validate_peer_membership (ne_cp env) (ne_cred env) (ne_now env) info (nc_server_public_key (nd_config s)) = Inr ()"
  shows "\<exists>x s'. merge_peers env online old infos replacement reconnect s = (Inr x, s')"
  using assms
proof (induction infos arbitrary: replacement reconnect s)
  case (Cons info infos)
  obtain replacement1 reconnect1 s1 where
    step: "merge_peer env online old info replacement reconnect s = (replacement1, reconnect1, s1)"
    by (metis prod_cases3)
  show ?case
    using Cons.IH [of s replacement reconnect] Cons.IH [of s1 replacement1 reconnect1] Cons.prems
      merge_peer_frame [OF step] step by simp
qed simp

subsection \<open>The routes of a snapshot\<close>

lemma insert_routes_fold:
  "insert_routes addresses peer t = fold (\<lambda>(a, p). route_insert a p) (map (\<lambda>a. (a, peer)) addresses) t"
  by (simp add: insert_routes_def fold_map comp_def)

definition route_entries :: "peer_info list \<Rightarrow> (ip_addr \<times> node_id) list" where
  "route_entries infos = concat (map (\<lambda>info. map (\<lambda>a. (a, pi_node_id info)) (info_addresses info)) infos)"

lemma snapshot_routes_fold:
  "snapshot_routes s locals replacement =
    fold (\<lambda>(a, p). route_insert a p) (route_entries (map (\<lambda>(_, p). ps_info (peer_at s p)) replacement))
      (route_table_new locals)"
proof -
  have "fold (\<lambda>(_, p) t. let info = ps_info (peer_at s p) in insert_routes (info_addresses info) (pi_node_id info) t)
      replacement t = fold (\<lambda>(a, p). route_insert a p)
        (route_entries (map (\<lambda>(_, p). ps_info (peer_at s p)) replacement)) t" for t
    by (induction replacement arbitrary: t)
      (auto simp: route_entries_def insert_routes_fold Let_def)
  then show ?thesis by (simp add: snapshot_routes_def)
qed

lemma info_address_set:
  "IpV4 a \<in> set (concat (map info_addresses infos)) \<longleftrightarrow> a \<in> set (addresses4 infos)"
  "IpV6 b \<in> set (concat (map info_addresses infos)) \<longleftrightarrow> b \<in> set (addresses6 infos)"
  by (induction infos) (auto simp: virtual_addresses_def split: option.splits)

lemma distinct_info_addresses:
  "distinct (addresses4 infos) \<Longrightarrow> distinct (addresses6 infos) \<Longrightarrow> distinct (concat (map info_addresses infos))"
proof (induction infos)
  case (Cons info infos)
  have "distinct (info_addresses info)"
    by (simp add: virtual_addresses_def split: option.split)
  moreover have "set (info_addresses info) \<inter> set (concat (map info_addresses infos)) = {}"
    using Cons.prems info_address_set [of _ infos]
    by (auto simp: virtual_addresses_def split: option.splits simp del: set_concat)
  moreover have "distinct (concat (map info_addresses infos))"
    using Cons.prems by (intro Cons.IH) (auto split: option.splits)
  ultimately show ?case by simp
qed simp

lemma distinct_concat_filter: "distinct (concat (map f xs)) \<Longrightarrow> distinct (concat (map f (filter P xs)))"
  by (induction xs) (auto dest: disjoint_iff [THEN iffD1])

lemma route_entries_keys: "map fst (route_entries infos) = concat (map info_addresses infos)"
  by (induction infos) (simp_all add: route_entries_def comp_def)

lemma route_entries_set:
  "(a, n) \<in> set (route_entries infos) \<longleftrightarrow> (\<exists>info \<in> set infos. pi_node_id info = n \<and> a \<in> set (info_addresses info))"
  by (auto simp: route_entries_def)

lemma rt_local_fold [simp]: "rt_local (fold (\<lambda>(a, p). route_insert a p) xs t) = rt_local t"
  by (induction xs arbitrary: t) (auto simp: route_insert_def)

lemma snapshot_route:
  assumes "map (\<lambda>(_, p). ps_info (peer_at s p)) replacement = infos"
    and "distinct (concat (map info_addresses infos))"
  shows "route_peer_for (snapshot_routes s locals replacement) a = Some n \<longleftrightarrow>
      (\<exists>info \<in> set infos. pi_node_id info = n \<and> a \<in> set (info_addresses info))"
    and "is_local (snapshot_routes s locals replacement) a \<longleftrightarrow> a \<in> set locals"
proof -
  have "distinct (map fst (route_entries infos))" using assms(2) by (simp add: route_entries_keys)
  moreover have "route_peer_for (route_table_new locals) b = None" for b
    by (simp add: route_peer_for_def route_table_new_def)
  ultimately have "route_peer_for (snapshot_routes s locals replacement) a = map_of (route_entries infos) a"
    by (simp add: snapshot_routes_fold assms(1) routes.lookup_fold_put split: option.split)
  then show "route_peer_for (snapshot_routes s locals replacement) a = Some n \<longleftrightarrow>
      (\<exists>info \<in> set infos. pi_node_id info = n \<and> a \<in> set (info_addresses info))"
    using \<open>distinct (map fst (route_entries infos))\<close>
    by (simp add: map_of_eq_Some_iff route_entries_set del: distinct_map)
  show "is_local (snapshot_routes s locals replacement) a \<longleftrightarrow> a \<in> set locals"
    by (simp add: snapshot_routes_fold is_local_def route_table_new_def)
qed

subsection \<open>The end of an update\<close>

lemma drop_old_peer_at:
  assumes "p < length (nd_heap s)"
  shows "peer_at (drop_old_peer replacement (n, p) s) q =
    (if q = p \<and> map_of replacement n = None
     then invalidated False ((peer_at s p)\<lparr>ps_is_online := False,
       ps_reconnect := (ps_reconnect (peer_at s p))\<lparr>rc_requested := False\<rparr>\<rparr>)
     else peer_at s q)"
  using assms by (auto simp: drop_old_peer_def invalidate_at peer_at_upd)

lemma drop_old_peer_frame [simp]:
  "nd_peers (drop_old_peer replacement e s) = nd_peers s"
  "nd_routes (drop_old_peer replacement e s) = nd_routes s"
  "nd_snapshot_generation (drop_old_peer replacement e s) = nd_snapshot_generation s"
  "nd_snapshot_expires_at (drop_old_peer replacement e s) = nd_snapshot_expires_at s"
  "length (nd_heap (drop_old_peer replacement e s)) = length (nd_heap s)"
  by (simp_all add: drop_old_peer_def case_prod_beta)

lemma inv_drop_old_peer:
  "node_inv s \<Longrightarrow> snd e < length (nd_heap s) \<Longrightarrow> node_inv (drop_old_peer replacement e s)"
  unfolding drop_old_peer_def Let_def case_prod_beta
  by (auto intro!: inv_invalidate_session inv_upd_step peer_steps)

text \<open>What dropping the peers of \<open>olds\<close> without a replacement does.\<close>

definition dropped ::
  "(node_id \<times> nat) list \<Rightarrow> (node_id \<times> nat) list \<Rightarrow> 'hs node \<Rightarrow> 'hs node \<Rightarrow> bool" where
  "dropped replacement olds s s' \<longleftrightarrow> node_inv s' \<and> nd_peers s' = nd_peers s \<and> nd_routes s' = nd_routes s
    \<and> nd_snapshot_generation s' = nd_snapshot_generation s
    \<and> nd_snapshot_expires_at s' = nd_snapshot_expires_at s
    \<and> (\<forall>q. (\<forall>(n, p) \<in> set olds. p = q \<longrightarrow> map_of replacement n \<noteq> None) \<longrightarrow> peer_at s' q = peer_at s q)
    \<and> (\<forall>q. ps_active (peer_at s q) = None \<longrightarrow> ps_active (peer_at s' q) = None)
    \<and> (\<forall>(n, p) \<in> set olds. map_of replacement n = None \<longrightarrow> ps_active (peer_at s' p) = None)"

lemma drop_old_peers:
  assumes "node_inv s" "\<forall>(n, p) \<in> set olds. p < length (nd_heap s)"
  shows "dropped replacement olds s (fold (drop_old_peer replacement) olds s)"
  using assms
proof (induction olds arbitrary: s)
  case (Cons e olds)
  obtain n p where e: "e = (n, p)" by (cases e)
  let ?s = "drop_old_peer replacement e s"
  have lt: "p < length (nd_heap s)" using Cons.prems(2) e by simp
  have "node_inv ?s" using Cons.prems(1) lt by (intro inv_drop_old_peer) (simp_all add: e)
  moreover have "\<forall>(n, p) \<in> set olds. p < length (nd_heap ?s)" using Cons.prems(2) by auto
  ultimately have IH: "dropped replacement olds ?s (fold (drop_old_peer replacement) olds ?s)"
    by (rule Cons.IH)
  have at: "peer_at ?s q = (if q = p \<and> map_of replacement n = None
     then invalidated False ((peer_at s p)\<lparr>ps_is_online := False,
       ps_reconnect := (ps_reconnect (peer_at s p))\<lparr>rc_requested := False\<rparr>\<rparr>)
     else peer_at s q)" for q
    using drop_old_peer_at [OF lt] by (simp add: e)
  have none: "ps_active (peer_at ?s q) = None" if "ps_active (peer_at s q) = None" for q
    using that by (simp add: at invalidated_def)
  have head: "ps_active (peer_at ?s p) = None" if "map_of replacement n = None"
    using that by (simp add: at invalidated_def)
  have same: "peer_at ?s q = peer_at s q" if "p = q \<longrightarrow> map_of replacement n \<noteq> None" for q
    using that by (auto simp: at)
  show ?case
    using IH none head same unfolding dropped_def by (simp add: e)
qed (simp add: dropped_def)

lemma schedule_all_frame:
  "nd_peers (fold (\<lambda>(n, p). schedule_reconnect p) xs s) = nd_peers s
   \<and> nd_routes (fold (\<lambda>(n, p). schedule_reconnect p) xs s) = nd_routes s
   \<and> nd_snapshot_generation (fold (\<lambda>(n, p). schedule_reconnect p) xs s) = nd_snapshot_generation s
   \<and> nd_snapshot_expires_at (fold (\<lambda>(n, p). schedule_reconnect p) xs s) = nd_snapshot_expires_at s
   \<and> ps_info (peer_at (fold (\<lambda>(n, p). schedule_reconnect p) xs s) q) = ps_info (peer_at s q)
   \<and> ps_is_online (peer_at (fold (\<lambda>(n, p). schedule_reconnect p) xs s) q) = ps_is_online (peer_at s q)
   \<and> ps_active (peer_at (fold (\<lambda>(n, p). schedule_reconnect p) xs s) q) = ps_active (peer_at s q)"
  by (induction xs arbitrary: s) (simp_all add: case_prod_beta)

lemmas schedule_all_simps [simp] = schedule_all_frame [THEN conjunct1]
  schedule_all_frame [THEN conjunct2, THEN conjunct1]
  schedule_all_frame [THEN conjunct2, THEN conjunct2, THEN conjunct1]
  schedule_all_frame [THEN conjunct2, THEN conjunct2, THEN conjunct2, THEN conjunct1]
  schedule_all_frame [THEN conjunct2, THEN conjunct2, THEN conjunct2, THEN conjunct2, THEN conjunct1]
  schedule_all_frame [THEN conjunct2, THEN conjunct2, THEN conjunct2, THEN conjunct2, THEN conjunct2, THEN conjunct1]
  schedule_all_frame [THEN conjunct2, THEN conjunct2, THEN conjunct2, THEN conjunct2, THEN conjunct2, THEN conjunct2]

lemma inv_schedule_all: "node_inv s \<Longrightarrow> node_inv (fold (\<lambda>(n, p). schedule_reconnect p) xs s)"
  by (induction xs arbitrary: s) (auto simp: inv_schedule)

text \<open>The peers of a snapshot, in the order of the replacement table.\<close>

lemma merged_infos:
  assumes "merged online s0 infos replacement s" "distinct (map pi_node_id infos)"
  shows "map (\<lambda>(_, p). ps_info (peer_at s p)) replacement = infos"
proof (rule nth_equalityI)
  have keys: "map fst replacement = map pi_node_id infos" using assms(1) by (simp add: merged_def)
  from arg_cong [OF this, of length]
  show len: "length (map (\<lambda>(_, p). ps_info (peer_at s p)) replacement) = length infos" by simp
  fix i assume "i < length (map (\<lambda>(_, p). ps_info (peer_at s p)) replacement)"
  then have i: "i < length replacement" "i < length infos" using len by simp_all
  obtain n p where e: "replacement ! i = (n, p)" by (cases "replacement ! i")
  have n: "n = pi_node_id (infos ! i)" using arg_cong [OF keys, of "\<lambda>l. l ! i"] i e by simp
  have "map_of replacement (pi_node_id (infos ! i)) = Some p"
    using assms(2) keys i e n nth_mem [OF i(1)] by (simp add: map_of_eq_Some_iff)
  from merged_entry [OF assms(1) nth_mem [OF i(2)] this]
  show "map (\<lambda>(_, p). ps_info (peer_at s p)) replacement ! i = infos ! i"
    using i e by (simp add: merged_peer_def)
qed

lemma merged_start: "node_inv s \<Longrightarrow> merged online s [] [] s"
  by (simp add: merged_def)

lemma check_snapshot_facts:
  assumes "check_snapshot env snapshot s = Inr local"
  shows "snapshot_ok (cp_blake3 (ne_cp env)) snapshot" "local \<in> set (sn_peers snapshot)"
    "pi_node_id local = node_id_of env s" "nd_snapshot_generation s \<le> sn_generation snapshot"
    "info_addresses local \<noteq> []" "ne_now env < sn_expires_at snapshot"
proof -
  have "snapshot_validate (cp_blake3 (ne_cp env)) snapshot = Inr ()"
    using assms unfolding check_snapshot_def Let_def
    by (auto split: sum.splits option.splits if_splits)
  then show "snapshot_ok (cp_blake3 (ne_cp env)) snapshot" by (simp add: snapshot_validate_iff)
  have "find (\<lambda>peer. pi_node_id peer = node_id_of env s) (sn_peers snapshot) = Some local"
    and "nd_snapshot_generation s \<le> sn_generation snapshot" "info_addresses local \<noteq> []"
      "ne_now env < sn_expires_at snapshot"
    using assms unfolding check_snapshot_def Let_def
    by (auto split: sum.splits option.splits if_splits)
  then show "local \<in> set (sn_peers snapshot)" "pi_node_id local = node_id_of env s"
    "nd_snapshot_generation s \<le> sn_generation snapshot" "info_addresses local \<noteq> []"
    "ne_now env < sn_expires_at snapshot"
    by (auto simp: find_Some_iff)
qed

text \<open>An accepted snapshot: the state before the removed peers are dropped.\<close>

lemma apply_snapshot_merged:
  assumes inv: "node_inv s" and ok: "apply_snapshot env snapshot s = (Inr (), s')"
  obtains local replacement reconnect s1 s2 where
    "check_snapshot env snapshot s = Inr local"
    "merged (sn_online_peers snapshot) s (others env s (sn_peers snapshot)) replacement s1"
    "s2 = s1\<lparr>nd_routes := snapshot_routes s1 (info_addresses local) replacement,
              nd_peers := replacement, nd_network_id := sn_network_id snapshot,
              nd_local_ipv4 := pi_virtual_ipv4 local, nd_local_ipv6 := pi_virtual_ipv6 local,
              nd_snapshot_generation := sn_generation snapshot,
              nd_snapshot_expires_at := sn_expires_at snapshot\<rparr>"
    "s' = fold (\<lambda>(n, p). schedule_reconnect p) (reconnect :: (node_id \<times> nat) list)
      (fold (drop_old_peer replacement) (nd_peers s) s2)"
proof -
  obtain local where chk: "check_snapshot env snapshot s = Inr local"
    using ok by (cases "check_snapshot env snapshot s") (auto simp: apply_snapshot_def)
  obtain r s1 where m: "merge_peers env (sn_online_peers snapshot) (nd_peers s) (sn_peers snapshot) [] [] s = (r, s1)"
    by (meson surj_pair)
  have dist: "distinct (map pi_node_id ([] @ others env s (sn_peers snapshot)))"
    using check_snapshot_facts(1) [OF chk] by (simp add: snapshot_ok_def distinct_map_filter)
  note merge_peers_merged [OF inv merged_start [OF inv] dist m]
  moreover obtain replacement reconnect where r: "r = Inr (replacement, reconnect)"
    using ok chk m by (cases r) (auto simp: apply_snapshot_def)
  ultimately have "merged (sn_online_peers snapshot) s (others env s (sn_peers snapshot)) replacement s1"
    "nd_peers s1 = nd_peers s" by simp_all
  with chk ok m r show ?thesis
    by (intro that [where replacement = replacement and reconnect = reconnect and ?s1.0 = s1])
      (auto simp: apply_snapshot_def Let_def)
qed

lemma merged_removed:
  assumes inv: "node_inv s" and m: "merged online s infos replacement s1"
    and q: "map_of replacement n = Some q" and old: "(n', q) \<in> set (nd_peers s)"
  shows "map_of replacement n' \<noteq> None"
proof -
  have old': "map_of (nd_peers s) n' = Some q"
    using old inv by (simp add: node_inv_def tables_ok_def map_of_eq_Some_iff)
  have "n \<in> fst ` set replacement" using q by (metis domI dom_map_of_conv_image_fst)
  then obtain info where info: "info \<in> set infos" "n = pi_node_id info"
    using m unfolding merged_def by (metis (no_types, lifting) image_iff list.set_map)
  have "merged_peer online s info q s1" using merged_entry [OF m info(1)] q info(2) by simp
  then have "n' = n"
    using node_inv_known [OF inv old'] node_inv_known [OF inv, of n q] info(2)
    by (cases "map_of (nd_peers s) n") (auto simp: merged_peer_def)
  then show ?thesis using q by simp
qed

lemma merged_tables:
  assumes "merged online s0 infos replacement s" "distinct (map pi_node_id infos)"
  shows "distinct (map fst replacement)" "map_of replacement n = Some p \<Longrightarrow> p < length (nd_heap s) \<and> ps_id (peer_at s p) = n"
proof -
  have fst_repl: "map fst replacement = map pi_node_id infos" using assms(1) unfolding merged_def by blast
  then show "distinct (map fst replacement)" using assms(2) by simp
  assume p: "map_of replacement n = Some p"
  then have "n \<in> set (map fst replacement)" by (metis domI dom_map_of_conv_image_fst list.set_map)
  then obtain info where "info \<in> set infos" "n = pi_node_id info" unfolding fst_repl by auto
  with merged_entry [OF assms(1) this(1)] p
  show "p < length (nd_heap s) \<and> ps_id (peer_at s p) = n" by (simp add: merged_peer_def)
qed

lemma apply_snapshot_effect:
  assumes inv: "node_inv s" and ok: "apply_snapshot env snapshot s = (Inr (), s')"
  obtains local replacement s1 where
    "check_snapshot env snapshot s = Inr local"
    "merged (sn_online_peers snapshot) s (others env s (sn_peers snapshot)) replacement s1"
    "node_inv s'" "nd_peers s' = replacement"
    "nd_routes s' = snapshot_routes s1 (info_addresses local) replacement"
    "nd_snapshot_generation s' = sn_generation snapshot" "nd_snapshot_expires_at s' = sn_expires_at snapshot"
    "\<forall>n q. map_of replacement n = Some q \<longrightarrow> ps_info (peer_at s' q) = ps_info (peer_at s1 q)
       \<and> ps_is_online (peer_at s' q) = ps_is_online (peer_at s1 q) \<and> ps_active (peer_at s' q) = ps_active (peer_at s1 q)"
    "\<forall>n p. map_of (nd_peers s) n = Some p \<longrightarrow> map_of replacement n = None \<longrightarrow> ps_active (peer_at s' p) = None"
proof -
  obtain local replacement and reconnect :: "(node_id \<times> nat) list" and s1 s2 where
    chk: "check_snapshot env snapshot s = Inr local"
    and m: "merged (sn_online_peers snapshot) s (others env s (sn_peers snapshot)) replacement s1"
    and s2: "s2 = s1\<lparr>nd_routes := snapshot_routes s1 (info_addresses local) replacement,
              nd_peers := replacement, nd_network_id := sn_network_id snapshot,
              nd_local_ipv4 := pi_virtual_ipv4 local, nd_local_ipv6 := pi_virtual_ipv6 local,
              nd_snapshot_generation := sn_generation snapshot,
              nd_snapshot_expires_at := sn_expires_at snapshot\<rparr>"
    and s': "s' = fold (\<lambda>(n, p). schedule_reconnect p) reconnect (fold (drop_old_peer replacement) (nd_peers s) s2)"
    by (rule apply_snapshot_merged [OF inv ok])
  define s3 where "s3 = fold (drop_old_peer replacement) (nd_peers s) s2"
  have dist: "distinct (map pi_node_id (others env s (sn_peers snapshot)))"
    using check_snapshot_facts(1) [OF chk] by (simp add: snapshot_ok_def distinct_map_filter)
  have inv1: "node_inv s1" and le: "length (nd_heap s) \<le> length (nd_heap s1)"
    using m unfolding merged_def by blast+
  have "node_inv (s1\<lparr>nd_peers := replacement, nd_routes := snapshot_routes s1 (info_addresses local) replacement\<rparr>)"
    using inv1 merged_tables [OF m dist] by (rule inv_peers)
  then have inv2: "node_inv s2" by (rule node_inv_cong [rotated -1]) (simp_all add: s2)
  have "p < length (nd_heap s2)" if "(n, p) \<in> set (nd_peers s)" for n p
  proof -
    have "map_of (nd_peers s) n = Some p"
      using that inv by (simp add: node_inv_def tables_ok_def map_of_eq_Some_iff)
    then show ?thesis using node_inv_known [OF inv] le by (fastforce simp: s2)
  qed
  then have d: "dropped replacement (nd_peers s) s2 s3"
    unfolding s3_def using inv2 by (intro drop_old_peers) auto
  have s'3: "s' = fold (\<lambda>(n, p). schedule_reconnect p) reconnect s3" by (simp add: s' s3_def)
  have at2: "peer_at s2 p = peer_at s1 p" for p by (simp add: s2 peer_at_def)
  have keep: "peer_at s3 q = peer_at s1 q" if "map_of replacement n = Some q" for n q
    using d merged_removed [OF inv m that] unfolding dropped_def at2 [symmetric] by blast
  have gone: "ps_active (peer_at s3 p) = None" if "map_of (nd_peers s) n = Some p" "map_of replacement n = None" for n p
    using d map_of_SomeD [OF that(1)] that(2) unfolding dropped_def by fastforce
  have s3: "nd_peers s3 = nd_peers s2" "nd_routes s3 = nd_routes s2" "node_inv s3"
    "nd_snapshot_generation s3 = nd_snapshot_generation s2" "nd_snapshot_expires_at s3 = nd_snapshot_expires_at s2"
    using d unfolding dropped_def by blast+
  show ?thesis
  proof (rule that [OF chk m])
    show "node_inv s'" unfolding s'3 using s3(3) by (rule inv_schedule_all)
    show "nd_peers s' = replacement" "nd_routes s' = snapshot_routes s1 (info_addresses local) replacement"
      "nd_snapshot_generation s' = sn_generation snapshot" "nd_snapshot_expires_at s' = sn_expires_at snapshot"
      by (simp_all add: s'3 s3 s2)
    show "\<forall>n q. map_of replacement n = Some q \<longrightarrow> ps_info (peer_at s' q) = ps_info (peer_at s1 q)
        \<and> ps_is_online (peer_at s' q) = ps_is_online (peer_at s1 q) \<and> ps_active (peer_at s' q) = ps_active (peer_at s1 q)"
      using keep by (simp add: s'3)
    show "\<forall>n p. map_of (nd_peers s) n = Some p \<longrightarrow> map_of replacement n = None \<longrightarrow> ps_active (peer_at s' p) = None"
      using gone by (simp add: s'3)
  qed
qed

subsection \<open>Which snapshots are accepted\<close>

lemma validate_peer_info_ok:
  "snapshot_ok blake3 snapshot \<Longrightarrow> info \<in> set (sn_peers snapshot) \<Longrightarrow> validate_peer_info blake3 info = Inr ()"
  by (simp add: snapshot_ok_def validate_peer_info_def)

lemma find_distinct: "distinct (map f xs) \<Longrightarrow> x \<in> set xs \<Longrightarrow> find (\<lambda>y. f y = f x) xs = Some x"
  by (induction xs) force+

lemma check_snapshot_accepts:
  assumes "snapshot_ok (cp_blake3 (ne_cp env)) snapshot"
    and "\<And>key. nc_server_public_key (nd_config s) = Some key \<Longrightarrow> verify_snapshot (ne_cp env) snapshot key (ne_now env) = Inr ()"
    and "ne_now env < sn_expires_at snapshot"
    and "nc_network_id (nd_config s) = 0 \<or> nc_network_id (nd_config s) = sn_network_id snapshot"
    and "nd_snapshot_generation s \<le> sn_generation snapshot"
    and local: "local \<in> set (sn_peers snapshot)" "pi_node_id local = node_id_of env s" "info_addresses local \<noteq> []"
  shows "check_snapshot env snapshot s = Inr local"
proof -
  have "distinct (map pi_node_id (sn_peers snapshot))" using assms(1) by (simp add: snapshot_ok_def)
  then have "find (\<lambda>peer. pi_node_id peer = node_id_of env s) (sn_peers snapshot) = Some local"
    using find_distinct [of pi_node_id "sn_peers snapshot" local] local by simp
  moreover have "snapshot_validate (cp_blake3 (ne_cp env)) snapshot = Inr ()"
    using assms(1) by (simp add: snapshot_validate_iff)
  ultimately show ?thesis
    using assms validate_peer_info_ok [OF assms(1) local(1)]
    unfolding check_snapshot_def Let_def
    by (cases "nc_server_public_key (nd_config s)") (auto simp: not_less not_le)
qed

lemma apply_snapshot_accepts:
  assumes "check_snapshot env snapshot s = Inr local"
    and "\<forall>info \<in> set (sn_peers snapshot).
      validate_peer_membership (ne_cp env) (ne_cred env) (ne_now env) info (nc_server_public_key (nd_config s)) = Inr ()"
  shows "\<exists>s'. apply_snapshot env snapshot s = (Inr (), s')"
proof -
  have "\<exists>x s'. merge_peers env (sn_online_peers snapshot) (nd_peers s) (sn_peers snapshot) [] [] s = (Inr x, s')"
    using assms(2) validate_peer_info_ok [OF check_snapshot_facts(1) [OF assms(1)]] by (intro merge_peers_ok) blast
  then show ?thesis using assms(1) by (auto simp: apply_snapshot_def Let_def)
qed

subsection \<open>A concrete node\<close>

text \<open>For the witnesses: Noise states are the lists of payloads exchanged so far, every datagram is
  sent, and credentials do not parse.\<close>

definition sample_noise :: "bytes list noise_prims" where
  "sample_noise =
    \<lparr>np_initiator = (\<lambda>_ _. Some []), np_responder = (\<lambda>_. Some []),
     np_write = (\<lambda>_ hs payload. Some (hs @ [payload], payload)),
     np_read = (\<lambda>_ hs message. Some (hs @ [message], message)),
     np_finished = (\<lambda>hs. length hs = 2), np_hash = concat\<rparr>"

definition sample_node_env :: "bytes list node_env" where
  "sample_node_env =
    \<lparr>ne_cp = sample_prims, ne_np = sample_noise, ne_cred = (\<lambda>_. None), ne_now = 100, ne_instant = 0,
     ne_io = (\<lambda>_. None), ne_batch = (\<lambda>_ n. (n, None)), ne_random = (\<lambda>_. 7), ne_nonce = (\<lambda>_. 5),
     ne_error_text = (\<lambda>_. [])\<rparr>"

definition fresh_node :: "node_config \<Rightarrow> 256 word \<Rightarrow> bytes list node" where
  "fresh_node config signing =
    projr (node_build (Some \<lparr>id_signing = signing, id_noise_static = signing\<rparr>) (Some 1) True config False
      \<lparr>id_signing = 0, id_noise_static = 0\<rparr> 0 None (Some 4))"

definition sample_info :: "256 word \<Rightarrow> peer_info" where
  "sample_info signing =
    \<lparr>pi_node_id = NodeId (signing + 2), pi_incarnation = 1, pi_signing_public = signing + 1,
     pi_noise_public = signing + 1, pi_candidates = [Host (SockV4 0x0A000000 (ucast signing))],
     pi_virtual_ipv4 = Some (0x0A580000 + ucast signing), pi_virtual_ipv6 = None, pi_credential = [],
     pi_capabilities = []\<rparr>"

definition pair_snapshot :: network_snapshot where
  "pair_snapshot =
    \<lparr>sn_network_id = 9, sn_generation = 3,
     sn_virtual_ipv4 = Some \<lparr>c4_address = 0x0A580000, c4_prefix_len = 16\<rparr>, sn_virtual_ipv6 = None,
     sn_doh_servers = [], sn_stun_servers = [], sn_peers = [sample_info 10, sample_info 20],
     sn_online_peers = [NodeId 22], sn_expires_at = 1000, sn_signature = []\<rparr>"

lemma node_inv_build:
  assumes "node_build i n provider config observer g r b (parallelism :: nat option) = Inr s"
  shows "node_inv s"
proof -
  have "nd_heap s = []" "nd_peers s = []" "nd_sessions s = []" "nd_data s = []"
    and "nd_workers s = replicate (data_worker_count parallelism) []"
    using assms by (auto simp: node_build_def split: if_splits option.splits)
  moreover have "0 < data_worker_count parallelism"
    by (auto simp: data_worker_count_def DATA_WORKER_MIN_def DATA_WORKER_MAX_def split: option.split)
  ultimately show ?thesis by (simp add: node_inv_def tables_ok_def queues_ok_def)
qed

lemma node_inv_fresh: "nc_crypto_policy config \<noteq> RequireHybrid \<Longrightarrow> node_inv (fresh_node config signing)"
  unfolding fresh_node_def
  by (rule node_inv_build [of "Some \<lparr>id_signing = signing, id_noise_static = signing\<rparr>" "Some 1" True config False
    "\<lparr>id_signing = 0, id_noise_static = 0\<rparr>" 0 None "Some 4"]) (simp add: node_build_def)

subsection \<open>Properties\<close>

text \<open>The peers and routes after a snapshot.\<close>

lemma apply_snapshot_view:
  assumes inv: "node_inv s" and ok: "apply_snapshot env snapshot s = (Inr (), s')"
  shows "dom (map_of (nd_peers s')) = pi_node_id ` set (sn_peers snapshot) - {node_id_of env s}"
    and "route_peer_for (nd_routes s') a = Some n \<longleftrightarrow> (\<exists>info \<in> set (sn_peers snapshot).
      pi_node_id info = n \<and> n \<noteq> node_id_of env s \<and> a \<in> set (info_addresses info))"
    and "\<exists>local \<in> set (sn_peers snapshot). pi_node_id local = node_id_of env s
        \<and> (\<forall>a. is_local (nd_routes s') a \<longleftrightarrow> a \<in> set (info_addresses local))"
proof -
  obtain local replacement s1 where
    chk: "check_snapshot env snapshot s = Inr local"
    and m: "merged (sn_online_peers snapshot) s (others env s (sn_peers snapshot)) replacement s1"
    and peers: "nd_peers s' = replacement"
    and routes: "nd_routes s' = snapshot_routes s1 (info_addresses local) replacement"
    by (rule apply_snapshot_effect [OF inv ok])
  note snap = check_snapshot_facts [OF chk]
  let ?infos = "others env s (sn_peers snapshot)"
  have dist: "distinct (map pi_node_id ?infos)"
    using snap(1) by (simp add: snapshot_ok_def distinct_map_filter)
  have addr: "distinct (concat (map info_addresses ?infos))"
    using snap(1) by (intro distinct_concat_filter distinct_info_addresses) (simp_all add: snapshot_ok_def)
  have "map fst replacement = map pi_node_id ?infos" using m unfolding merged_def by blast
  then have "fst ` set replacement = pi_node_id ` set ?infos" by (metis list.set_map)
  then show "dom (map_of (nd_peers s')) = pi_node_id ` set (sn_peers snapshot) - {node_id_of env s}"
    unfolding dom_map_of_conv_image_fst peers by auto
  note r = snapshot_route [OF merged_infos [OF m dist] addr, of "info_addresses local"]
  show "route_peer_for (nd_routes s') a = Some n \<longleftrightarrow> (\<exists>info \<in> set (sn_peers snapshot).
      pi_node_id info = n \<and> n \<noteq> node_id_of env s \<and> a \<in> set (info_addresses info))"
    unfolding routes r(1) by auto
  show "\<exists>local \<in> set (sn_peers snapshot). pi_node_id local = node_id_of env s
        \<and> (\<forall>a. is_local (nd_routes s') a \<longleftrightarrow> a \<in> set (info_addresses local))"
    using snap(2,3) by (intro bexI [of _ local]) (simp_all add: routes r(2))
qed

text \<open>C3: an accepted snapshot replaces the membership view exactly: the node knows the peers of the
  snapshot other than itself and no others, with the state the snapshot gives them; a session
  survives only for a peer that may retain it; peers the snapshot no longer names have no
  session; and an address is routed exactly to the peer the snapshot gives it to, the node's own
  addresses being local. The generation never goes back.\<close>

theorem apply_snapshot_exact:
  assumes inv: "node_inv s" and ok: "apply_snapshot env snapshot s = (Inr (), s')"
  shows "node_inv s'
    \<and> nd_snapshot_generation s \<le> nd_snapshot_generation s'
    \<and> nd_snapshot_generation s' = sn_generation snapshot
    \<and> nd_snapshot_expires_at s' = sn_expires_at snapshot
    \<and> dom (map_of (nd_peers s')) = pi_node_id ` set (sn_peers snapshot) - {node_id_of env s}
    \<and> (\<forall>info \<in> set (sn_peers snapshot). pi_node_id info \<noteq> node_id_of env s \<longrightarrow>
        (\<exists>p. map_of (nd_peers s') (pi_node_id info) = Some p
          \<and> ps_info (peer_at s' p) = info
          \<and> (ps_is_online (peer_at s' p) \<longleftrightarrow> pi_node_id info \<in> set (sn_online_peers snapshot))
          \<and> ps_active (peer_at s' p) =
             (if map_of (nd_peers s) (pi_node_id info) = Some p \<and> can_retain_session (peer_at s p) info
              then ps_active (peer_at s p) else None)))
    \<and> (\<forall>n p. map_of (nd_peers s) n = Some p \<and> map_of (nd_peers s') n = None
        \<longrightarrow> ps_active (peer_at s' p) = None)
    \<and> (\<forall>a n. route_peer_for (nd_routes s') a = Some n \<longleftrightarrow>
        (\<exists>info \<in> set (sn_peers snapshot). pi_node_id info = n \<and> n \<noteq> node_id_of env s
          \<and> a \<in> set (info_addresses info)))
    \<and> (\<exists>local \<in> set (sn_peers snapshot). pi_node_id local = node_id_of env s
        \<and> (\<forall>a. is_local (nd_routes s') a \<longleftrightarrow> a \<in> set (info_addresses local)))"
proof -
  obtain local replacement s1 where
    chk: "check_snapshot env snapshot s = Inr local"
    and m: "merged (sn_online_peers snapshot) s (others env s (sn_peers snapshot)) replacement s1"
    and inv': "node_inv s'" and peers: "nd_peers s' = replacement"
    and scalars: "nd_snapshot_generation s' = sn_generation snapshot" "nd_snapshot_expires_at s' = sn_expires_at snapshot"
    and keep: "\<forall>n q. map_of replacement n = Some q \<longrightarrow> ps_info (peer_at s' q) = ps_info (peer_at s1 q)
       \<and> ps_is_online (peer_at s' q) = ps_is_online (peer_at s1 q) \<and> ps_active (peer_at s' q) = ps_active (peer_at s1 q)"
    and gone: "\<forall>n p. map_of (nd_peers s) n = Some p \<longrightarrow> map_of replacement n = None \<longrightarrow> ps_active (peer_at s' p) = None"
    by (rule apply_snapshot_effect [OF inv ok])
  have generation: "nd_snapshot_generation s \<le> sn_generation snapshot" using check_snapshot_facts(4) [OF chk] .
  have entry: "\<exists>p. map_of replacement (pi_node_id info) = Some p \<and> ps_info (peer_at s' p) = info
      \<and> (ps_is_online (peer_at s' p) \<longleftrightarrow> pi_node_id info \<in> set (sn_online_peers snapshot))
      \<and> ps_active (peer_at s' p) =
         (if map_of (nd_peers s) (pi_node_id info) = Some p \<and> can_retain_session (peer_at s p) info
          then ps_active (peer_at s p) else None)"
    if "info \<in> set (sn_peers snapshot)" "pi_node_id info \<noteq> node_id_of env s" for info
  proof -
    have i: "info \<in> set (others env s (sn_peers snapshot))" using that by simp
    obtain p where p: "map_of replacement (pi_node_id info) = Some p"
      using m i unfolding merged_def by blast
    then have "ps_active (peer_at s' p) =
         (if map_of (nd_peers s) (pi_node_id info) = Some p \<and> can_retain_session (peer_at s p) info
          then ps_active (peer_at s p) else None)"
      using merged_entry [OF m i p] keep
      by (cases "map_of (nd_peers s) (pi_node_id info)") (simp_all add: merged_peer_def)
    then show ?thesis
      using p merged_entry [OF m i p] keep unfolding merged_peer_def by blast
  qed
  have "\<forall>n p. map_of (nd_peers s) n = Some p \<and> map_of replacement n = None \<longrightarrow> ps_active (peer_at s' p) = None"
    using gone by blast
  then show ?thesis
    using inv' generation entry apply_snapshot_view [OF inv ok] unfolding peers scalars by blast
qed

lemma node_id_of_fresh: "node_id_of sample_node_env (fresh_node node_config_default signing) = NodeId (signing + 2)"
  by (simp add: node_id_of_def fresh_node_def node_build_def identity_public_def sample_node_env_def
    sample_prims_def node_config_default_def)

lemma pair_snapshot_accepted:
  "\<exists>s'. apply_snapshot sample_node_env pair_snapshot (fresh_node node_config_default 10) = (Inr (), s')"
proof -
  have "snapshot_ok (cp_blake3 sample_prims) pair_snapshot"
    by (simp add: snapshot_ok_def pair_snapshot_def sample_info_def sample_prims_def addresses4_def addresses6_def
      map_filter_simps cidr4_canonical_def cidr4_contains_def)
  then have "check_snapshot sample_node_env pair_snapshot (fresh_node node_config_default 10) = Inr (sample_info 10)"
    by (intro check_snapshot_accepts)
      (simp_all add: node_id_of_fresh, simp_all add: fresh_node_def node_build_def sample_node_env_def
        node_config_default_def pair_snapshot_def sample_info_def virtual_addresses_def)
  then show ?thesis
    by (rule apply_snapshot_accepts)
      (simp add: validate_peer_membership_def fresh_node_def node_build_def node_config_default_def)
qed

theorem apply_snapshot_exact_witness:
  "\<exists>s'. apply_snapshot sample_node_env pair_snapshot (fresh_node node_config_default 10) = (Inr (), s')
    \<and> route_peer_for (nd_routes s') (IpV4 0x0A580014) = Some (NodeId 22)
    \<and> dom (map_of (nd_peers s')) = {NodeId 22}"
proof -
  let ?s = "fresh_node node_config_default 10"
  obtain s' where ok: "apply_snapshot sample_node_env pair_snapshot ?s = (Inr (), s')"
    using pair_snapshot_accepted by blast
  have id: "node_id_of sample_node_env ?s = NodeId 12" by (simp add: node_id_of_fresh)
  have "node_inv ?s" by (rule node_inv_fresh) (simp add: node_config_default_def)
  note exact = apply_snapshot_exact [OF this ok]
  have "dom (map_of (nd_peers s')) = {NodeId 22}"
    using exact by (simp add: id pair_snapshot_def sample_info_def)
  moreover have "route_peer_for (nd_routes s') (IpV4 0x0A580014) = Some (NodeId 22) \<longleftrightarrow>
      (\<exists>info \<in> set (sn_peers pair_snapshot). pi_node_id info = NodeId 22 \<and> NodeId 22 \<noteq> NodeId 12
        \<and> IpV4 0x0A580014 \<in> set (info_addresses info))"
    using exact unfolding id by blast
  then have "route_peer_for (nd_routes s') (IpV4 0x0A580014) = Some (NodeId 22)"
    by (simp add: pair_snapshot_def sample_info_def virtual_addresses_def)
  ultimately show ?thesis using ok by blast
qed

end
