(* ===== verification/Vela_Dns.thy ===== *)
theory Vela_Dns
  imports Vela_Proto
begin

section \<open>DNS over HTTPS (vela-dns)\<close>

text \<open>
  \<open>vela-dns/src/lib.rs\<close>: the resolver loop over servers and record types, the choice of the
  request path, the JSON answer filter and the parser of DNS messages. The HTTPS exchange of
  \<open>query\<close> is the parameter \<open>query\<close> on an abstract world that is threaded through the calls;
  URL and JSON syntax and the text form of IP addresses are parameters. The message parser
  is modelled with its panics and proved never to panic, to terminate, and to return only
  addresses of the family asked for.
\<close>

datatype dns_error =
    InvalidHost
  | InvalidEndpoint string string
  | DnsClient string
  | DnsRequest string
  | InvalidDnsResponse string
  | NoRecords string

subsection \<open>Resolving\<close>

definition DEFAULT_DOH_SERVER :: string where
  "DEFAULT_DOH_SERVER = ''https://doh.pub''"

definition default_servers :: "string list" where
  "default_servers = [DEFAULT_DOH_SERVER]"

text \<open>\<open>if !addresses.contains(&address) { addresses.push(address) }\<close> for all values.\<close>

definition push_new :: "'a list \<Rightarrow> 'a list \<Rightarrow> 'a list" where
  "push_new addresses values = fold (\<lambda>a as. if a \<in> set as then as else as @ [a]) values addresses"

type_synonym 'w query_fn = "'w \<Rightarrow> string \<Rightarrow> u16 \<Rightarrow> (dns_error + ip_addr list) \<times> 'w"

text \<open>The loop over the record types A and AAAA for one server.\<close>

fun query_types ::
  "'w query_fn \<Rightarrow> string \<Rightarrow> u16 list \<Rightarrow> bool \<Rightarrow> ip_addr list \<Rightarrow> dns_error option \<Rightarrow> 'w \<Rightarrow>
   bool \<times> ip_addr list \<times> dns_error option \<times> 'w" where
  "query_types query server [] had addresses last_error w = (had, addresses, last_error, w)"
| "query_types query server (record_type # types) had addresses last_error w =
    (case query w server record_type of
       (Inr values, w') \<Rightarrow> query_types query server types True (push_new addresses values) last_error w'
     | (Inl e, w') \<Rightarrow> query_types query server types had addresses (Some e) w')"

fun resolve_servers ::
  "'w query_fn \<Rightarrow> string \<Rightarrow> string list \<Rightarrow> ip_addr list \<Rightarrow> dns_error option \<Rightarrow> 'w \<Rightarrow>
   (dns_error + ip_addr list) \<times> 'w" where
  "resolve_servers query host [] addresses last_error w =
    (Inl (case last_error of Some e \<Rightarrow> e | None \<Rightarrow> NoRecords host), w)"
| "resolve_servers query host (server # servers) addresses last_error w =
    (let (server_had_response, addresses', last_error', w') =
         query_types query server [1, 28] False addresses last_error w
     in if server_had_response \<and> addresses' \<noteq> [] then (Inr addresses', w')
        else resolve_servers query host servers addresses' last_error' w')"

definition resolve ::
  "(string \<Rightarrow> ip_addr option) \<Rightarrow> (string \<Rightarrow> 'w query_fn) \<Rightarrow> string \<Rightarrow> string list \<Rightarrow> 'w \<Rightarrow>
   (dns_error + ip_addr list) \<times> 'w" where
  "resolve parse_ip query host servers w =
    (case parse_ip host of
       Some address \<Rightarrow> (Inr [address], w)
     | None \<Rightarrow>
        if host = [] then (Inl InvalidHost, w)
        else let servers = (if servers = [] then default_servers else servers)
          in resolve_servers (query host) host servers [] None w)"

definition resolve_with_default_doh ::
  "'w query_fn \<Rightarrow> string \<Rightarrow> 'w \<Rightarrow> (dns_error + ip_addr list) \<times> 'w" where
  "resolve_with_default_doh query host w =
    (let (had, addresses, last_error, w') =
         query_types query DEFAULT_DOH_SERVER [1, 28] False [] None w
     in if addresses = []
        then (Inl (case last_error of Some e \<Rightarrow> e | None \<Rightarrow> NoRecords host), w')
        else (Inr addresses, w'))"

text \<open>A parsed URL and the request the resolver makes of it.\<close>

record url =
  url_scheme :: string
  url_host :: "string option"
  url_path :: string
  url_query :: "(string \<times> string) list"

definition endpoint ::
  "(string \<Rightarrow> string + url) \<Rightarrow> string \<Rightarrow> string \<Rightarrow> u16 \<Rightarrow> dns_error + url" where
  "endpoint url_parse server host record_type =
    (case url_parse server of
       Inl reason \<Rightarrow> Inl (InvalidEndpoint server reason)
     | Inr u \<Rightarrow>
        if url_scheme u \<noteq> ''https'' then Inl (InvalidEndpoint server ''DoH endpoint must use https'')
        else let u' = (if url_path u = [] \<or> url_path u = ''/''
               then u\<lparr>url_path := (if url_host u = Some ''doh.pub'' then ''/resolve'' else ''/dns-query'')\<rparr>
               else u)
          in Inr (u'\<lparr>url_query := url_query u' @ [(''name'', host),
               (''type'', if record_type = 1 then ''A'' else ''AAAA'')]\<rparr>))"

subsection \<open>Answers\<close>

record json_answer =
  ja_record_type :: u16
  ja_data :: string

record json_response =
  jr_status :: u16
  jr_answers :: "json_answer list"

definition parse_json_response ::
  "(bytes \<Rightarrow> string + json_response) \<Rightarrow> (string \<Rightarrow> ip_addr option) \<Rightarrow> bytes \<Rightarrow> u16 \<Rightarrow>
   dns_error + ip_addr list" where
  "parse_json_response json_parse parse_ip input record_type =
    (case json_parse input of
       Inl e \<Rightarrow> Inl (InvalidDnsResponse (''invalid DNS JSON: '' @ e))
     | Inr response \<Rightarrow>
        if jr_status response \<noteq> 0
        then Inl (InvalidDnsResponse (''DNS response code is '' @ decimal (unat (jr_status response))))
        else Inr (List.map_filter (\<lambda>a. parse_ip (ja_data a))
               (filter (\<lambda>a. ja_record_type a = record_type) (jr_answers response))))"

function skip_name :: "bytes \<Rightarrow> nat \<Rightarrow> dns_error + nat" where
  "skip_name input offset =
    (if \<not> offset < length input then Inl (InvalidDnsResponse ''DNS name is truncated'')
     else let len = input ! offset in
       if len AND 0xC0 = 0xC0 then
         if offset + 1 \<ge> length input then Inl (InvalidDnsResponse ''DNS name pointer is truncated'')
         else Inr (offset + 2)
       else if len AND 0xC0 \<noteq> 0 \<or> len > 63 then Inl (InvalidDnsResponse ''invalid DNS name label'')
       else if len = 0 then Inr (offset + 1)
       else let offset' = offset + 1 + unat len in
         if offset' > length input then Inl (InvalidDnsResponse ''DNS name label is truncated'')
         else skip_name input offset')"
  by pat_completeness auto

termination
  by (relation "measure (\<lambda>(input, offset). Suc (length input) - offset)") auto

declare skip_name.simps [simp del]

fun skip_questions :: "bytes \<Rightarrow> nat \<Rightarrow> nat \<Rightarrow> dns_error + nat" where
  "skip_questions input 0 offset = Inr offset"
| "skip_questions input (Suc n) offset =
    (case skip_name input offset of
       Inl e \<Rightarrow> Inl e
     | Inr offset' \<Rightarrow>
        if offset' + 4 > length input then Inl (InvalidDnsResponse ''DNS question is truncated'')
        else skip_questions input n (offset' + 4))"

text \<open>The address of one answer whose data is \<open>input[offset..offset + len]\<close>.\<close>

definition answer_address :: "bytes \<Rightarrow> nat \<Rightarrow> nat \<Rightarrow> u16 \<Rightarrow> ip_addr option option" where
  "answer_address input offset len record_type =
    (if record_type = 1 \<and> len = 4 then
       do { b \<leftarrow> slice input offset (offset + 4); Some (Some (IpV4 (word_be b))) }
     else if record_type = 28 \<and> len = 16 then
       do { b \<leftarrow> slice input offset (offset + len); Some (Some (IpV6 (word_be b))) }
     else Some None)"

fun parse_answers ::
  "bytes \<Rightarrow> u16 \<Rightarrow> nat \<Rightarrow> nat \<Rightarrow> ip_addr list \<Rightarrow> (dns_error + ip_addr list) option" where
  "parse_answers input record_type 0 offset addresses = Some (Inr addresses)"
| "parse_answers input record_type (Suc n) offset addresses =
    (case skip_name input offset of
       Inl e \<Rightarrow> Some (Inl e)
     | Inr offset1 \<Rightarrow>
        if offset1 + 10 > length input then Some (Inl (InvalidDnsResponse ''DNS answer is truncated''))
        else do {
          answer_type \<leftarrow> read_u16 input offset1;
          cls \<leftarrow> read_u16 input (offset1 + 2);
          len_field \<leftarrow> read_u16 input (offset1 + 8);
          let len = unat len_field;
          let offset2 = offset1 + 10;
          if offset2 + len > length input
          then Some (Inl (InvalidDnsResponse ''DNS answer data is truncated''))
          else if cls = 1 \<and> answer_type = record_type then do {
            address \<leftarrow> answer_address input offset2 len record_type;
            parse_answers input record_type n (offset2 + len)
              (case address of Some a \<Rightarrow> addresses @ [a] | None \<Rightarrow> addresses)
          }
          else parse_answers input record_type n (offset2 + len) addresses
        })"

definition parse_response :: "bytes \<Rightarrow> u16 \<Rightarrow> (dns_error + ip_addr list) option" where
  "parse_response input record_type =
    (if length input < 12 then Some (Inl (InvalidDnsResponse ''DNS header is truncated''))
     else do {
       flags \<leftarrow> read_u16 input 2;
       if flags AND 0x8000 = 0 then Some (Inl (InvalidDnsResponse ''DNS response bit is not set''))
       else let response_code = flags AND 0x000F in
         if response_code \<noteq> 0
         then Some (Inl (InvalidDnsResponse (''DNS response code is '' @ decimal (unat response_code))))
         else do {
           questions \<leftarrow> read_u16 input 4;
           answers \<leftarrow> read_u16 input 6;
           case skip_questions input (unat questions) 12 of
             Inl e \<Rightarrow> Some (Inl e)
           | Inr offset \<Rightarrow> parse_answers input record_type (unat answers) offset []
         }
     })"

text \<open>The family a record type asks for.\<close>

definition family_ok :: "u16 \<Rightarrow> ip_addr \<Rightarrow> bool" where
  "family_ok record_type a =
    (case a of IpV4 _ \<Rightarrow> record_type = 1 | IpV6 _ \<Rightarrow> record_type = 28)"

subsection \<open>Lemmas\<close>

lemma answer_address_total:
  "offset + len \<le> length input \<Longrightarrow> \<exists>r. answer_address input offset len t = Some r
     \<and> pred_option (family_ok t) r"
  by (auto simp: answer_address_def family_ok_def)

lemma parse_answers_total:
  "\<exists>r. parse_answers input t n offset addresses = Some r
     \<and> (\<forall>as. r = Inr as \<longrightarrow> list_all (family_ok t) addresses \<longrightarrow> list_all (family_ok t) as)"
proof (induction n arbitrary: offset addresses)
  case (Suc n)
  show ?case
  proof (cases "skip_name input offset")
    case (Inr o1)
    show ?thesis
    proof (cases "o1 + 10 \<le> length input")
      case True
      let ?len = "unat (u16_be (input ! (o1 + 8)) (input ! (o1 + 8 + 1)))"
      obtain r where r: "o1 + 10 + ?len \<le> length input \<Longrightarrow>
          answer_address input (o1 + 10) ?len t = Some r \<and> pred_option (family_ok t) r"
        using answer_address_total by blast
      let ?more = "case r of Some a \<Rightarrow> addresses @ [a] | None \<Rightarrow> addresses"
      show ?thesis
        using Inr True r Suc.IH [of "o1 + 10 + ?len" ?more] Suc.IH [of "o1 + 10 + ?len" addresses]
        by (cases r) (auto simp: Let_def)
    next
      case False
      then show ?thesis using Inr by simp
    qed
  qed simp
qed simp

lemma parse_response_total:
  "\<exists>r. parse_response input t = Some r \<and> (\<forall>as. r = Inr as \<longrightarrow> list_all (family_ok t) as)"
proof (cases "length input < 12")
  case True
  then show ?thesis by (simp add: parse_response_def)
next
  case False
  then show ?thesis
    using parse_answers_total [of input t _ _ "[]"]
    by (auto simp: parse_response_def Let_def split: sum.split)
qed

text \<open>Resolving collects addresses without duplicates and fails only without any.\<close>

lemma distinct_push_new: "distinct as \<Longrightarrow> distinct (push_new as vs) \<and> set (push_new as vs) = set as \<union> set vs"
  unfolding push_new_def by (induction vs arbitrary: as) auto

lemma query_types_distinct:
  "distinct as \<Longrightarrow> query_types query server ts had as err w = (had', as', err', w') \<Longrightarrow>
   distinct as' \<and> set as \<subseteq> set as'"
proof (induction query server ts had as err w rule: query_types.induct)
  case (2 query server t ts had as err w)
  then show ?case using distinct_push_new [of as]
    by (auto split: prod.splits sum.splits)
qed simp

lemma resolve_servers_result:
  "distinct as \<Longrightarrow> resolve_servers query host servers as err w = (Inr out, w') \<Longrightarrow>
   distinct out \<and> out \<noteq> []"
proof (induction query host servers as err w rule: resolve_servers.induct)
  case (2 query host server servers as err w)
  obtain had as' err' w1 where q: "query_types query server [1, 28] False as err w = (had, as', err', w1)"
    by (metis prod_cases4)
  then show ?case
    using 2 query_types_distinct [OF 2(2) q] by (auto split: if_splits)
qed simp

lemma resolve_result:
  "resolve parse_ip query host servers w = (Inr out, w') \<Longrightarrow> distinct out \<and> out \<noteq> []"
  using resolve_servers_result [of "[]"] by (fastforce simp: resolve_def Let_def split: option.splits if_splits)

subsection \<open>Properties\<close>

text \<open>C35: parsing a DNS message of any content ends without a panic, in an error or in a list
  of addresses that all have the family of the record type asked for; and what \<open>resolve\<close>
  returns is never empty and never holds an address twice.\<close>

theorem dns_parsing_safe:
  "(\<exists>r. parse_response input t = Some r \<and> (\<forall>as. r = Inr as \<longrightarrow> list_all (family_ok t) as))
   \<and> (resolve parse_ip query host servers w = (Inr out, w') \<longrightarrow> distinct out \<and> out \<noteq> [])"
  using parse_response_total [of input t] resolve_result [of parse_ip query host servers w out w']
  by simp

theorem dns_parsing_safe_witness:
  "resolve (\<lambda>_. None) (\<lambda>_ w _ t. (if t = 1 then Inr [IpV4 7, IpV4 7] else Inl InvalidHost, w)) ''h'' [] ()
     = (Inr [IpV4 7], ()) \<and> distinct [IpV4 7]"
proof -
  have "resolve (\<lambda>_. None) (\<lambda>_ w _ t. (if t = 1 then Inr [IpV4 7, IpV4 7] else Inl InvalidHost, w)) ''h'' [] ()
     = (Inr [IpV4 7], ())"
    by (simp add: resolve_def default_servers_def push_new_def)
  then show ?thesis
    using dns_parsing_safe [of "[]" 1 "\<lambda>_. None"
        "\<lambda>_ w _ t. (if t = 1 then Inr [IpV4 7, IpV4 7] else Inl InvalidHost, w)" "''h''" "[]" "()" "[IpV4 7]" "()"]
    by blast
qed

end
