(* ===== verification/Vela_Coord.thy ===== *)
theory Vela_Coord
  imports Vela_Crypto Vela_Dns "HOL-Library.AList"
begin

section \<open>The coordination server (vela-coord)\<close>

text \<open>
  \<open>vela-coord/src/lib.rs\<close>: registration, candidate updates, lookups, invites, revocation,
  address allocation, snapshots and their broadcast. The SQLite tables are association lists
  with distinct keys, \<open>ORDER BY node_id\<close> is sorting by key, and the integer casts of the
  columns are those of the source (\<open>as i64\<close> keeps the 64 bits, comparisons are signed). The
  JSON columns hold the values themselves. Channels are modelled by what is sent: every
  handler returns the messages it puts on the control channels of connections, and the watch
  channel of a connection is the latest snapshot it was given. A handler runs to completion
  before the next one starts; the two steps of a revocation are also given separately.

  Parameters: the primitives of \<open>crypto_prims\<close>, base64, and the JSON form of a credential; the
  clock (\<open>unix_time\<close>), random tokens, and which connections are still open are arguments.
\<close>

subsection \<open>State\<close>

definition VIRTUAL_IPV4_NETWORK_BASE :: u32 where
  "VIRTUAL_IPV4_NETWORK_BASE = 0x0AFE0000"

definition VIRTUAL_IPV4_PREFIX_LEN :: u8 where
  "VIRTUAL_IPV4_PREFIX_LEN = 16"

definition VIRTUAL_IPV4_USABLE_HOSTS :: u32 where
  "VIRTUAL_IPV4_USABLE_HOSTS = 65534"

datatype coord_error =
    CoordDatabase
  | CoordSerialization
  | CoordInvalidPeer
  | AddressPoolExhausted
  | SnapshotGenerationOverflow
  | InviteRequired
  | InvalidInvite
  | InviteExpired
  | InvalidCredential
  | PeerNotRegistered
  | NotRegistered
  | UnsupportedMessage
  | CoordConnectionClosed

record coord_env =
  ce_prims :: crypto_prims
  ce_b64_encode :: b64_enc
  ce_b64_decode :: b64_dec
  ce_cred_to_json :: "membership_credential \<Rightarrow> bytes"
  ce_cred_of_json :: "bytes \<Rightarrow> membership_credential option"

text \<open>Rows of the tables \<open>peers\<close> and \<open>invites\<close>.\<close>

record peer_row =
  row_signing_public :: "256 word"
  row_noise_public :: "256 word"
  row_incarnation :: u64
  row_candidates :: "candidate list"
  row_virtual_ipv4 :: "u32 option"
  row_virtual_ipv6 :: "u128 option"
  row_credential :: bytes
  row_capabilities :: "peer_capability list"
  row_revoked :: bool
  row_name :: string
  row_notes :: string
  row_last_seen :: u64

record invite_row =
  iv_id :: string
  iv_expires_at :: u64
  iv_used :: bool
  iv_name :: string
  iv_notes :: string
  iv_created_at :: u64
  iv_revoked :: bool
  iv_download_token_hash :: "256 word"
  iv_download_used :: bool

record coord_state =
  co_tenant :: string
  co_signer :: server_signer
  co_peers :: "(node_id \<times> peer_row) list"
  co_invites :: "(256 word \<times> invite_row) list"
  co_meta_generation :: u64
  co_generation :: u64
  co_online :: "(node_id \<times> u64 list) list"
  co_runtime_status :: "(node_id \<times> (u64 \<times> u16) list) list"
  co_pending :: bool
  co_running :: bool
  co_doh_servers :: "string list"
  co_stun_servers :: "string list"
  co_watch :: "(u64 \<times> network_snapshot) list"

type_synonym outbox = "(u64 \<times> control_message) list"

record stored_peer =
  sp_node_id :: node_id
  sp_incarnation :: u64
  sp_name :: string
  sp_signing_public :: "256 word"
  sp_noise_public :: "256 word"
  sp_candidates :: "candidate list"
  sp_virtual_ipv4 :: "u32 option"
  sp_virtual_ipv6 :: "u128 option"
  sp_credential :: bytes
  sp_capabilities :: "peer_capability list"
  sp_last_seen :: u64

record created_invite =
  ci_id :: string
  ci_invite_token :: string
  ci_download_token :: string
  ci_name :: string
  ci_notes :: string
  ci_created_at :: u64
  ci_expires_at :: u64

record invite_registration =
  ir_name :: string
  ir_notes :: string
  ir_credential :: membership_credential

subsection \<open>Tables\<close>

text \<open>\<open>last_seen.max(0) as u64\<close> of the stored \<open>i64\<close>.\<close>

definition clamp_i64 :: "u64 \<Rightarrow> u64" where
  "clamp_i64 w = (if sint w < 0 then 0 else w)"

definition stored_of_row :: "node_id \<Rightarrow> peer_row \<Rightarrow> stored_peer" where
  "stored_of_row node_id r =
    \<lparr>sp_node_id = node_id, sp_incarnation = row_incarnation r, sp_name = row_name r,
     sp_signing_public = row_signing_public r, sp_noise_public = row_noise_public r,
     sp_candidates = row_candidates r, sp_virtual_ipv4 = row_virtual_ipv4 r,
     sp_virtual_ipv6 = row_virtual_ipv6 r, sp_credential = row_credential r,
     sp_capabilities = row_capabilities r, sp_last_seen = clamp_i64 (row_last_seen r)\<rparr>"

definition load_peer :: "coord_state \<Rightarrow> node_id \<Rightarrow> stored_peer option" where
  "load_peer s node_id =
    (case map_of (co_peers s) node_id of
       Some r \<Rightarrow> if row_revoked r then None else Some (stored_of_row node_id r)
     | None \<Rightarrow> None)"

definition load_peers :: "coord_state \<Rightarrow> stored_peer list" where
  "load_peers s =
    map (\<lambda>(n, r). stored_of_row n r)
      (sort_key fst (filter (\<lambda>(n, r). \<not> row_revoked r) (co_peers s)))"

definition list_peers :: "coord_state \<Rightarrow> node_id list" where
  "list_peers s = map fst (sort_key fst (filter (\<lambda>(n, r). \<not> row_revoked r) (co_peers s)))"

text \<open>The upsert of \<open>update_peer\<close>: name, notes and \<open>last_seen\<close> keep their values or defaults, and
  addresses are only replaced by new ones.\<close>

definition coalesce :: "'a option \<Rightarrow> 'a option \<Rightarrow> 'a option" where
  "coalesce a b = (case a of None \<Rightarrow> b | Some x \<Rightarrow> Some x)"

definition row_of_stored :: "stored_peer \<Rightarrow> peer_row option \<Rightarrow> peer_row" where
  "row_of_stored peer old =
    \<lparr>row_signing_public = sp_signing_public peer, row_noise_public = sp_noise_public peer,
     row_incarnation = sp_incarnation peer, row_candidates = sp_candidates peer,
     row_virtual_ipv4 = coalesce (sp_virtual_ipv4 peer) (Option.bind old row_virtual_ipv4),
     row_virtual_ipv6 = coalesce (sp_virtual_ipv6 peer) (Option.bind old row_virtual_ipv6),
     row_credential = sp_credential peer, row_capabilities = sp_capabilities peer,
     row_revoked = False,
     row_name = (case old of None \<Rightarrow> [] | Some r \<Rightarrow> row_name r),
     row_notes = (case old of None \<Rightarrow> [] | Some r \<Rightarrow> row_notes r),
     row_last_seen = (case old of None \<Rightarrow> 0 | Some r \<Rightarrow> row_last_seen r)\<rparr>"

definition update_peer :: "coord_state \<Rightarrow> stored_peer \<Rightarrow> coord_state" where
  "update_peer s peer =
    s\<lparr>co_peers := AList.update (sp_node_id peer)
        (row_of_stored peer (map_of (co_peers s) (sp_node_id peer))) (co_peers s)\<rparr>"

definition update_peer_metadata :: "coord_state \<Rightarrow> node_id \<Rightarrow> string \<Rightarrow> string \<Rightarrow> bool \<times> coord_state" where
  "update_peer_metadata s node_id name notes =
    (map_of (co_peers s) node_id \<noteq> None,
     s\<lparr>co_peers := AList.map_entry node_id (\<lambda>r. r\<lparr>row_name := name, row_notes := notes\<rparr>) (co_peers s)\<rparr>)"

definition touch_peer :: "u64 \<Rightarrow> coord_state \<Rightarrow> node_id \<Rightarrow> coord_state" where
  "touch_peer unix_time s node_id =
    s\<lparr>co_peers := AList.map_entry node_id (\<lambda>r. r\<lparr>row_last_seen := unix_time\<rparr>) (co_peers s)\<rparr>"

definition public_peer :: "coord_env \<Rightarrow> stored_peer \<Rightarrow> public_peer_info" where
  "public_peer env peer =
    \<lparr>pp_node_id = sp_node_id peer, pp_incarnation = sp_incarnation peer,
     pp_signing_public = ce_b64_encode env (to_be 32 (sp_signing_public peer)),
     pp_noise_public = ce_b64_encode env (to_be 32 (sp_noise_public peer)),
     pp_candidates = sp_candidates peer, pp_virtual_ipv4 = sp_virtual_ipv4 peer,
     pp_virtual_ipv6 = sp_virtual_ipv6 peer,
     pp_credential = ce_b64_encode env (sp_credential peer),
     pp_capabilities = sp_capabilities peer\<rparr>"

definition private_peer :: "stored_peer \<Rightarrow> peer_info" where
  "private_peer peer =
    \<lparr>pi_node_id = sp_node_id peer, pi_incarnation = sp_incarnation peer,
     pi_signing_public = sp_signing_public peer, pi_noise_public = sp_noise_public peer,
     pi_candidates = sp_candidates peer, pi_virtual_ipv4 = sp_virtual_ipv4 peer,
     pi_virtual_ipv6 = sp_virtual_ipv6 peer, pi_credential = sp_credential peer,
     pi_capabilities = sp_capabilities peer\<rparr>"

subsection \<open>Addresses\<close>

text \<open>The start of the search is the first word of the hash of the node id.\<close>

definition allocation_start :: "coord_env \<Rightarrow> node_id \<Rightarrow> u32" where
  "allocation_start env node_id =
    word_be (take 4 (to_be 32 (cp_blake3 (ce_prims env) (node_as_bytes node_id))))
      mod VIRTUAL_IPV4_USABLE_HOSTS"

definition host_at :: "u32 \<Rightarrow> nat \<Rightarrow> u32" where
  "host_at start offset = 1 + (start + word_of_nat offset) mod VIRTUAL_IPV4_USABLE_HOSTS"

definition address_used :: "coord_state \<Rightarrow> u32 \<Rightarrow> bool" where
  "address_used s address \<longleftrightarrow> (\<exists>(n, r) \<in> set (co_peers s). row_virtual_ipv4 r = Some address)"

text \<open>The loop over the offsets, from \<open>offset\<close> for \<open>n\<close> more rounds.\<close>

fun allocate_loop :: "coord_state \<Rightarrow> u32 \<Rightarrow> nat \<Rightarrow> nat \<Rightarrow> coord_error + u32" where
  "allocate_loop s start offset 0 = Inl AddressPoolExhausted"
| "allocate_loop s start offset (Suc n) =
    (let address = VIRTUAL_IPV4_NETWORK_BASE + host_at start offset in
     if address_used s address then allocate_loop s start (Suc offset) n else Inr address)"

definition allocate_virtual_ipv4 :: "coord_env \<Rightarrow> coord_state \<Rightarrow> node_id \<Rightarrow> coord_error + u32" where
  "allocate_virtual_ipv4 env s node_id =
    allocate_loop s (allocation_start env node_id) 0 (unat VIRTUAL_IPV4_USABLE_HOSTS)"

definition virtual_ipv4_host :: "u32 \<Rightarrow> u32 option" where
  "virtual_ipv4_host address =
    (if address < VIRTUAL_IPV4_NETWORK_BASE then None
     else let host = address - VIRTUAL_IPV4_NETWORK_BASE in
       if 1 \<le> host \<and> host \<le> VIRTUAL_IPV4_USABLE_HOSTS then Some host else None)"

fun allocate_used_loop :: "u32 \<Rightarrow> u32 set \<Rightarrow> nat \<Rightarrow> nat \<Rightarrow> coord_error + (u32 \<times> u32 set)" where
  "allocate_used_loop start used offset 0 = Inl AddressPoolExhausted"
| "allocate_used_loop start used offset (Suc n) =
    (let host = host_at start offset in
     if host \<in> used then allocate_used_loop start used (Suc offset) n
     else Inr (VIRTUAL_IPV4_NETWORK_BASE + host, insert host used))"

definition allocate_virtual_ipv4_from_used ::
  "coord_env \<Rightarrow> node_id \<Rightarrow> u32 set \<Rightarrow> coord_error + (u32 \<times> u32 set)" where
  "allocate_virtual_ipv4_from_used env node_id used =
    allocate_used_loop (allocation_start env node_id) used 0 (unat VIRTUAL_IPV4_USABLE_HOSTS)"

text \<open>The loop of \<open>migrate_virtual_ipv4\<close> over the rows in the order of the node ids: it collects
  the addresses to write.\<close>

fun migrate_loop ::
  "coord_env \<Rightarrow> u32 set \<Rightarrow> (node_id \<times> u32) list \<Rightarrow> (node_id \<times> u32 option) list \<Rightarrow>
   coord_error + (node_id \<times> u32) list" where
  "migrate_loop env used updates [] = Inr updates"
| "migrate_loop env used updates ((node_id, stored_address) # rest) =
    (case Option.bind stored_address virtual_ipv4_host of
       Some host \<Rightarrow>
         if host \<notin> used then migrate_loop env (insert host used) updates rest
         else (case allocate_virtual_ipv4_from_used env node_id used of
                 Inl e \<Rightarrow> Inl e
               | Inr (address, used') \<Rightarrow> migrate_loop env used' (updates @ [(node_id, address)]) rest)
     | None \<Rightarrow>
         (case allocate_virtual_ipv4_from_used env node_id used of
            Inl e \<Rightarrow> Inl e
          | Inr (address, used') \<Rightarrow> migrate_loop env used' (updates @ [(node_id, address)]) rest))"

definition migrate_virtual_ipv4 :: "coord_env \<Rightarrow> coord_state \<Rightarrow> coord_error + coord_state" where
  "migrate_virtual_ipv4 env s =
    (case migrate_loop env {} [] (map (\<lambda>(n, r). (n, row_virtual_ipv4 r)) (sort_key fst (co_peers s))) of
       Inl e \<Rightarrow> Inl e
     | Inr updates \<Rightarrow>
        Inr (s\<lparr>co_peers := fold (\<lambda>(n, a). AList.map_entry n (\<lambda>r. r\<lparr>row_virtual_ipv4 := Some a\<rparr>))
          updates (co_peers s)\<rparr>))"

subsection \<open>Snapshots\<close>

definition network_snapshot_of ::
  "coord_env \<Rightarrow> u64 \<Rightarrow> coord_state \<Rightarrow> node_id list \<Rightarrow> network_snapshot" where
  "network_snapshot_of env unix_time s online_peers =
    sign_snapshot (ce_prims env) (co_signer s)
      \<lparr>sn_network_id = word_be (take 16 (to_be 32 (cp_blake3 (ce_prims env) (as_bytes (co_tenant s))))),
       sn_generation = co_generation s,
       sn_virtual_ipv4 = Some \<lparr>c4_address = VIRTUAL_IPV4_NETWORK_BASE,
         c4_prefix_len = VIRTUAL_IPV4_PREFIX_LEN\<rparr>,
       sn_virtual_ipv6 = None,
       sn_doh_servers = co_doh_servers s,
       sn_stun_servers = co_stun_servers s,
       sn_peers = map private_peer (load_peers s),
       sn_online_peers = online_peers,
       sn_expires_at = saturating_add unix_time 3600,
       sn_signature = []\<rparr>"

definition bump_snapshot :: "coord_state \<Rightarrow> coord_error + coord_state" where
  "bump_snapshot s =
    (if unat (co_generation s) + 1 \<ge> 2 ^ 64 then Inl SnapshotGenerationOverflow
     else let generation = co_generation s + 1 in
       if unat generation \<ge> 2 ^ 63 then Inl SnapshotGenerationOverflow
       else Inr (s\<lparr>co_meta_generation := generation, co_generation := generation\<rparr>))"

definition online_peer_ids :: "coord_state \<Rightarrow> node_id list" where
  "online_peer_ids s = sort (map fst (co_online s))"

text \<open>\<open>broadcast_snapshot\<close> only schedules; the loop of the broadcast task is a step relation
  below. The result says whether a task is started.\<close>

definition broadcast_snapshot :: "coord_state \<Rightarrow> bool \<times> coord_state" where
  "broadcast_snapshot s =
    (\<not> co_running s, s\<lparr>co_pending := True, co_running := True\<rparr>)"

definition broadcast_snapshot_now :: "coord_env \<Rightarrow> u64 \<Rightarrow> coord_state \<Rightarrow> coord_state" where
  "broadcast_snapshot_now env unix_time s =
    (let senders = concat (map snd (co_online s));
         snapshot = network_snapshot_of env unix_time s (map fst (co_online s))
     in s\<lparr>co_watch := fold (\<lambda>c. AList.update c snapshot) senders (co_watch s)\<rparr>)"

subsection \<open>Invites\<close>

definition create_invite ::
  "coord_env \<Rightarrow> u64 \<Rightarrow> string \<Rightarrow> string \<Rightarrow> string \<Rightarrow> coord_state \<Rightarrow> string \<Rightarrow> string \<Rightarrow> u64 \<Rightarrow>
   (coord_error + created_invite) \<times> coord_state" where
  "create_invite env unix_time invite_token download_token invite_id s name notes ttl_seconds =
    (let token_hash = cp_blake3 (ce_prims env) (as_bytes invite_token);
         download_token_hash = cp_blake3 (ce_prims env) (as_bytes download_token);
         expires_at = saturating_add unix_time ttl_seconds
     in if map_of (co_invites s) token_hash \<noteq> None \<or> invite_id \<in> iv_id ` snd ` set (co_invites s)
        then (Inl CoordDatabase, s)
        else (Inr \<lparr>ci_id = invite_id, ci_invite_token = invite_token, ci_download_token = download_token,
                ci_name = name, ci_notes = notes, ci_created_at = unix_time, ci_expires_at = expires_at\<rparr>,
              s\<lparr>co_invites := co_invites s @ [(token_hash,
                \<lparr>iv_id = invite_id, iv_expires_at = expires_at, iv_used = False, iv_name = name,
                 iv_notes = notes, iv_created_at = unix_time, iv_revoked = False,
                 iv_download_token_hash = download_token_hash, iv_download_used = False\<rparr>)]\<rparr>))"

definition register_with_invite ::
  "coord_env \<Rightarrow> u64 \<Rightarrow> coord_state \<Rightarrow> node_id \<Rightarrow> 256 word \<Rightarrow> 256 word \<Rightarrow> string \<Rightarrow>
   (coord_error + invite_registration) \<times> coord_state" where
  "register_with_invite env unix_time s node_id signing_public noise_public token =
    (let hash = cp_blake3 (ce_prims env) (as_bytes token) in
     case map_of (co_invites s) hash of
       None \<Rightarrow> (Inl InvalidInvite, s)
     | Some iv \<Rightarrow>
        if iv_revoked iv \<or> iv_used iv \<or> sint (iv_expires_at iv) < sint unix_time
        then (Inl InviteExpired, s)
        else (Inr \<lparr>ir_name = iv_name iv, ir_notes = iv_notes iv,
                ir_credential = credential_sign (ce_prims env) (co_signer s)
                  (credential_unsigned unix_time
                    \<lparr>pid_node_id = node_id, pid_signing_public = signing_public,
                     pid_noise_public = noise_public\<rparr>
                    (co_tenant s) (saturating_add unix_time (365 * 24 * 3600))
                    (signer_key_id (ce_prims env) (co_signer s)))\<rparr>,
              s\<lparr>co_invites := AList.map_entry hash
                 (\<lambda>iv. iv\<lparr>iv_used := True, iv_download_used := True\<rparr>) (co_invites s)\<rparr>))"

definition download_matches :: "256 word \<Rightarrow> u64 \<Rightarrow> invite_row \<Rightarrow> bool" where
  "download_matches hash unix_time iv \<longleftrightarrow> iv_download_token_hash iv = hash
     \<and> \<not> iv_download_used iv \<and> \<not> iv_revoked iv \<and> \<not> iv_used iv
     \<and> sint (iv_expires_at iv) > sint unix_time"

definition consume_download_token ::
  "coord_env \<Rightarrow> u64 \<Rightarrow> coord_state \<Rightarrow> string \<Rightarrow> bool \<times> coord_state" where
  "consume_download_token env unix_time s token =
    (let hash = cp_blake3 (ce_prims env) (as_bytes token) in
     (\<exists>(h, iv) \<in> set (co_invites s). download_matches hash unix_time iv,
      s\<lparr>co_invites := map (\<lambda>(h, iv). (h, if download_matches hash unix_time iv
          then iv\<lparr>iv_download_used := True\<rparr> else iv)) (co_invites s)\<rparr>))"

subsection \<open>Revocation, deletion, configuration\<close>

definition disconnect_peer :: "coord_state \<Rightarrow> node_id \<Rightarrow> outbox \<times> coord_state" where
  "disconnect_peer s node_id =
    (let senders = (case map_of (co_online s) node_id of None \<Rightarrow> [] | Some cs \<Rightarrow> cs)
     in (map (\<lambda>c. (c, Revoke node_id)) senders,
         s\<lparr>co_online := AList.delete node_id (co_online s)\<rparr>))"

text \<open>After the row was changed: bump the generation, cut the peer's connections, schedule a
  broadcast.\<close>

definition drop_peer :: "coord_state \<Rightarrow> node_id \<Rightarrow> (coord_error + bool) \<times> outbox \<times> coord_state" where
  "drop_peer s node_id =
    (case bump_snapshot s of
       Inl e \<Rightarrow> (Inl e, [], s)
     | Inr s' \<Rightarrow>
        let (out, s'') = disconnect_peer s' node_id
        in (Inr True, out, snd (broadcast_snapshot s'')))"

definition mark_revoked :: "coord_state \<Rightarrow> node_id \<Rightarrow> coord_state" where
  "mark_revoked s node_id =
    s\<lparr>co_peers := AList.map_entry node_id (\<lambda>r. r\<lparr>row_revoked := True\<rparr>) (co_peers s)\<rparr>"

definition revoke_peer_inner :: "coord_state \<Rightarrow> node_id \<Rightarrow> (coord_error + bool) \<times> outbox \<times> coord_state" where
  "revoke_peer_inner s node_id =
    (if load_peer s node_id = None then (Inr False, [], s)
     else drop_peer (mark_revoked s node_id) node_id)"

definition revoke_peer :: "coord_state \<Rightarrow> node_id \<Rightarrow> (coord_error + unit) \<times> outbox \<times> coord_state" where
  "revoke_peer s node_id =
    (case revoke_peer_inner s node_id of
       (Inl e, out, s') \<Rightarrow> (Inl e, out, s')
     | (Inr b, out, s') \<Rightarrow> (if \<not> b then Inl PeerNotRegistered else Inr (), out, s'))"

definition delete_peer_inner :: "coord_state \<Rightarrow> node_id \<Rightarrow> (coord_error + bool) \<times> outbox \<times> coord_state" where
  "delete_peer_inner s node_id =
    (if map_of (co_peers s) node_id = None then (Inr False, [], s)
     else drop_peer (s\<lparr>co_peers := AList.delete node_id (co_peers s)\<rparr>) node_id)"

definition update_network_config ::
  "coord_state \<Rightarrow> string list \<Rightarrow> string list \<Rightarrow> (coord_error + unit) \<times> coord_state" where
  "update_network_config s doh stun =
    (if co_doh_servers s = doh \<and> co_stun_servers s = stun then (Inr (), s)
     else let s1 = s\<lparr>co_doh_servers := doh, co_stun_servers := stun\<rparr> in
       case bump_snapshot s1 of
         Inl e \<Rightarrow> (Inl e, s1)
       | Inr s2 \<Rightarrow> (Inr (), snd (broadcast_snapshot s2)))"

subsection \<open>Messages\<close>

definition decode_key :: "coord_env \<Rightarrow> string \<Rightarrow> coord_error + 256 word" where
  "decode_key env value =
    (case ce_b64_decode env value of
       Inl _ \<Rightarrow> Inl CoordInvalidPeer
     | Inr bytes \<Rightarrow> if length bytes = 32 then Inr (word_be bytes) else Inl CoordInvalidPeer)"

text \<open>The credential a registration ends with: a new one for an invite, or the stored one after
  the presented one was verified.\<close>

definition register_credential ::
  "coord_env \<Rightarrow> u64 \<Rightarrow> coord_state \<Rightarrow> node_id \<Rightarrow> 256 word \<Rightarrow> 256 word \<Rightarrow> string \<Rightarrow> string option \<Rightarrow>
   (coord_error + (bytes \<times> invite_registration option)) \<times> coord_state" where
  "register_credential env unix_time s node_id signing_public noise_public credential invite_token =
    (if credential = [] then
       (case invite_token of
          None \<Rightarrow> (Inl InviteRequired, s)
        | Some token \<Rightarrow>
           (case register_with_invite env unix_time s node_id signing_public noise_public token of
              (Inl e, s') \<Rightarrow> (Inl e, s')
            | (Inr registration, s') \<Rightarrow>
               (Inr (ce_cred_to_json env (ir_credential registration), Some registration), s')))
     else
       (case ce_b64_decode env credential of
          Inl _ \<Rightarrow> (Inl InvalidCredential, s)
        | Inr credential_bytes \<Rightarrow>
       (case ce_cred_of_json env credential_bytes of
          None \<Rightarrow> (Inl CoordSerialization, s)
        | Some c \<Rightarrow>
       (case credential_verify (ce_prims env) c (signer_public (ce_prims env) (co_signer s)) unix_time of
          Inl _ \<Rightarrow> (Inl InvalidCredential, s)
        | Inr _ \<Rightarrow>
           if mc_node_id c \<noteq> node_id \<or> mc_signing_public c \<noteq> signing_public
              \<or> mc_noise_public c \<noteq> noise_public \<or> mc_tenant c \<noteq> co_tenant s
           then (Inl InvalidCredential, s)
           else (case load_peer s node_id of
                   None \<Rightarrow> (Inl PeerNotRegistered, s)
                 | Some peer \<Rightarrow> (Inr (sp_credential peer, None), s))))))"

definition peer_changed :: "stored_peer option \<Rightarrow> stored_peer \<Rightarrow> bool" where
  "peer_changed previous peer =
    (case previous of
       None \<Rightarrow> True
     | Some p \<Rightarrow> sp_incarnation p \<noteq> sp_incarnation peer \<or> sp_candidates p \<noteq> sp_candidates peer
         \<or> sp_signing_public p \<noteq> sp_signing_public peer \<or> sp_noise_public p \<noteq> sp_noise_public peer)"

text \<open>\<open>online.entry(node_id).or_default().insert(connection_id, ..)\<close>.\<close>

definition add_online :: "coord_state \<Rightarrow> node_id \<Rightarrow> u64 \<Rightarrow> coord_state" where
  "add_online s node_id connection_id =
    (let cs = (case map_of (co_online s) node_id of None \<Rightarrow> [] | Some cs \<Rightarrow> cs)
     in s\<lparr>co_online := AList.update node_id
          (if connection_id \<in> set cs then cs else cs @ [connection_id]) (co_online s)\<rparr>)"

text \<open>The part of a registration that writes: it starts from the credential and the previous
  row. The address is allocated before it is known whether one is needed, as in the source,
  where the argument of \<open>or\<close> is evaluated first.\<close>

definition register_store ::
  "coord_env \<Rightarrow> u64 \<Rightarrow> coord_state \<Rightarrow> stored_peer \<Rightarrow> bytes \<Rightarrow> invite_registration option \<Rightarrow>
   (coord_error + bool) \<times> coord_state" where
  "register_store env unix_time s peer stored_credential invite_registration =
    (let node_id = sp_node_id peer; previous_peer = load_peer s node_id in
     case allocate_virtual_ipv4 env s node_id of
       Inl e \<Rightarrow> (Inl e, s)
     | Inr fresh \<Rightarrow>
        let peer' = peer\<lparr>sp_virtual_ipv4 := coalesce (Option.bind previous_peer sp_virtual_ipv4) (Some fresh),
              sp_credential := stored_credential,
              sp_last_seen := (case previous_peer of None \<Rightarrow> 0 | Some p \<Rightarrow> sp_last_seen p)\<rparr>;
            s1 = update_peer s peer';
            s2 = (case invite_registration of
                None \<Rightarrow> s1
              | Some registration \<Rightarrow>
                 snd (update_peer_metadata s1 node_id (ir_name registration) (ir_notes registration)));
            s3 = touch_peer unix_time s2 node_id
        in case bump_snapshot s3 of
             Inl e \<Rightarrow> (Inl e, s3)
           | Inr s4 \<Rightarrow> (Inr (peer_changed previous_peer peer'), s4))"

definition handle_register ::
  "coord_env \<Rightarrow> u64 \<Rightarrow> (u64 \<Rightarrow> bool) \<Rightarrow> u64 \<Rightarrow> coord_state \<Rightarrow> node_id \<Rightarrow> u64 \<Rightarrow> string \<Rightarrow> string \<Rightarrow>
   string \<Rightarrow> string option \<Rightarrow> candidate list \<Rightarrow> peer_capability list \<Rightarrow>
   (coord_error + node_id option) \<times> outbox \<times> coord_state" where
  "handle_register env unix_time is_open connection_id s node_id incarnation signing noise
      credential invite_token candidates capabilities =
    (case decode_key env signing of
       Inl e \<Rightarrow> (Inl e, [], s)
     | Inr signing_public \<Rightarrow>
    (case decode_key env noise of
       Inl e \<Rightarrow> (Inl e, [], s)
     | Inr noise_public \<Rightarrow>
    if NodeId (cp_blake3 (ce_prims env) (to_be 32 signing_public)) \<noteq> node_id
    then (Inl CoordInvalidPeer, [], s)
    else (case register_credential env unix_time s node_id signing_public noise_public credential invite_token of
       (Inl e, s1) \<Rightarrow> (Inl e, [], s1)
     | (Inr (stored_credential, invite_registration), s1) \<Rightarrow>
    (case register_store env unix_time s1
        \<lparr>sp_node_id = node_id, sp_incarnation = incarnation, sp_name = [],
         sp_signing_public = signing_public, sp_noise_public = noise_public,
         sp_candidates = candidates, sp_virtual_ipv4 = None, sp_virtual_ipv6 = None,
         sp_credential = [], sp_capabilities = capabilities, sp_last_seen = 0\<rparr>
        stored_credential invite_registration of
       (Inl e, s2) \<Rightarrow> (Inl e, [], s2)
     | (Inr changed, s2) \<Rightarrow>
        let was_online = map_of (co_online s2) node_id \<noteq> None;
            s3 = add_online s2 node_id connection_id;
            peers = map (public_peer env) (filter (\<lambda>p. sp_node_id p \<noteq> node_id) (load_peers s3));
            snapshot = network_snapshot_of env unix_time s3 (online_peer_ids s3)
        in if \<not> is_open connection_id then (Inl CoordConnectionClosed, [], s3)
           else (Inr (Some node_id),
             [(connection_id, RegisterOk (ce_b64_encode env stored_credential) peers snapshot)],
             if \<not> was_online \<or> changed then snd (broadcast_snapshot s3) else s3)))))"

definition handle_update_candidates ::
  "coord_env \<Rightarrow> u64 \<Rightarrow> (u64 \<Rightarrow> bool) \<Rightarrow> u64 \<Rightarrow> coord_state \<Rightarrow> node_id option \<Rightarrow> candidate list \<Rightarrow>
   (coord_error + node_id option) \<times> outbox \<times> coord_state" where
  "handle_update_candidates env unix_time is_open connection_id s registered candidates =
    (case registered of
       None \<Rightarrow> (Inl NotRegistered, [], s)
     | Some node_id \<Rightarrow>
    (case load_peer s node_id of
       None \<Rightarrow> (Inl PeerNotRegistered, [], s)
     | Some peer \<Rightarrow>
        let candidates_changed = sp_candidates peer \<noteq> candidates;
            s1 = update_peer s (peer\<lparr>sp_candidates := candidates\<rparr>);
            s2 = touch_peer unix_time s1 node_id
        in if candidates_changed then
             (case bump_snapshot s2 of
                Inl e \<Rightarrow> (Inl e, [], s2)
              | Inr s3 \<Rightarrow> (Inr registered, [], snd (broadcast_snapshot s3)))
           else if \<not> is_open connection_id then (Inl CoordConnectionClosed, [], s2)
           else (Inr registered,
             [(connection_id, Snapshot (network_snapshot_of env unix_time s2 (online_peer_ids s2)))], s2)))"

definition set_runtime_status :: "coord_state \<Rightarrow> node_id \<Rightarrow> u64 \<Rightarrow> u16 \<Rightarrow> coord_state" where
  "set_runtime_status s node_id connection_id virtual_mtu =
    s\<lparr>co_runtime_status := AList.update node_id
        (AList.update connection_id virtual_mtu
          (case map_of (co_runtime_status s) node_id of None \<Rightarrow> [] | Some m \<Rightarrow> m))
        (co_runtime_status s)\<rparr>"

definition handle_lookup_peer ::
  "coord_env \<Rightarrow> (u64 \<Rightarrow> bool) \<Rightarrow> u64 \<Rightarrow> coord_state \<Rightarrow> node_id option \<Rightarrow> node_id \<Rightarrow>
   (coord_error + node_id option) \<times> outbox" where
  "handle_lookup_peer env is_open connection_id s registered node_id =
    (case registered of
       None \<Rightarrow> (Inl NotRegistered, [])
     | Some requester \<Rightarrow>
    (case load_peer s node_id of
       None \<Rightarrow> (Inl PeerNotRegistered, [])
     | Some target \<Rightarrow>
    (case load_peer s requester of
       None \<Rightarrow> (Inl PeerNotRegistered, [])
     | Some requester_info \<Rightarrow>
        if \<not> is_open connection_id then (Inl CoordConnectionClosed, [])
        else let target_senders = (case map_of (co_online s) node_id of None \<Rightarrow> [] | Some cs \<Rightarrow> cs)
          in (Inr registered,
              (connection_id, PeerInfo (public_peer env target))
              # map (\<lambda>c. (c, ConnectSignal (public_peer env requester_info) node_id)) target_senders))))"

definition peer_summary_of :: "coord_state \<Rightarrow> stored_peer \<Rightarrow> peer_summary" where
  "peer_summary_of s peer =
    \<lparr>ps_node_id = sp_node_id peer, ps_name = sp_name peer,
     ps_online = (map_of (co_online s) (sp_node_id peer) \<noteq> None),
     ps_last_seen = (if sp_last_seen peer > 0 then Some (sp_last_seen peer) else None),
     ps_virtual_ipv4 = sp_virtual_ipv4 peer, ps_virtual_ipv6 = sp_virtual_ipv6 peer,
     ps_capabilities = sp_capabilities peer\<rparr>"

definition handle_message ::
  "coord_env \<Rightarrow> u64 \<Rightarrow> (u64 \<Rightarrow> bool) \<Rightarrow> u64 \<Rightarrow> node_id option \<Rightarrow> control_message \<Rightarrow> coord_state \<Rightarrow>
   (coord_error + node_id option) \<times> outbox \<times> coord_state" where
  "handle_message env unix_time is_open connection_id registered request s =
    (case request of
       Register node_id incarnation signing noise credential invite_token candidates capabilities \<Rightarrow>
         handle_register env unix_time is_open connection_id s node_id incarnation signing noise
           credential invite_token candidates capabilities
     | UpdateCandidates candidates \<Rightarrow>
         handle_update_candidates env unix_time is_open connection_id s registered candidates
     | RuntimeStatus virtual_mtu \<Rightarrow>
         (case registered of
            None \<Rightarrow> (Inl NotRegistered, [], s)
          | Some node_id \<Rightarrow>
             (Inr registered, [], set_runtime_status s node_id connection_id virtual_mtu))
     | RequestSnapshot \<Rightarrow>
         if registered = None then (Inl NotRegistered, [], s)
         else if \<not> is_open connection_id then (Inl CoordConnectionClosed, [], s)
         else (Inr registered, [(connection_id,
           SnapshotResponse (network_snapshot_of env unix_time s (online_peer_ids s)))], s)
     | LookupPeer node_id \<Rightarrow>
         (case handle_lookup_peer env is_open connection_id s registered node_id of
            (r, out) \<Rightarrow> (r, out, s))
     | ListPeers \<Rightarrow>
         (case registered of
            None \<Rightarrow> (Inl NotRegistered, [], s)
          | Some requester \<Rightarrow>
             if \<not> is_open connection_id then (Inl CoordConnectionClosed, [], s)
             else (Inr registered, [(connection_id, ListPeersOk (map (peer_summary_of s)
               (filter (\<lambda>p. sp_node_id p \<noteq> requester) (load_peers s))))], s))
     | Ping n \<Rightarrow>
         if \<not> is_open connection_id then (Inl CoordConnectionClosed, [], s)
         else (Inr registered, [(connection_id, Pong n)], s)
     | Pong n \<Rightarrow>
         (Inr registered, [],
          case registered of None \<Rightarrow> s | Some node_id \<Rightarrow> touch_peer unix_time s node_id)
     | _ \<Rightarrow> (Inl UnsupportedMessage, [], s))"

text \<open>The end of \<open>handle_socket\<close>: forget the connection of the node it is registered as.\<close>

definition remove_connection :: "(node_id \<times> 'c list) list \<Rightarrow> ('c \<Rightarrow> bool) \<Rightarrow> node_id \<Rightarrow> bool \<times> (node_id \<times> 'c list) list" where
  "remove_connection m is_conn node_id =
    (case map_of m node_id of
       None \<Rightarrow> (False, m)
     | Some cs \<Rightarrow>
        let cs' = filter (\<lambda>c. \<not> is_conn c) cs in
        if cs' = [] then (True, AList.delete node_id m) else (False, AList.update node_id cs' m))"

definition close_socket :: "coord_state \<Rightarrow> u64 \<Rightarrow> node_id option \<Rightarrow> coord_state" where
  "close_socket s connection_id registered =
    (case registered of
       None \<Rightarrow> s
     | Some node_id \<Rightarrow>
        let (became_offline, online') = remove_connection (co_online s) (\<lambda>c. c = connection_id) node_id;
            (_, status') = remove_connection (co_runtime_status s) (\<lambda>(c, _). c = connection_id) node_id;
            s1 = s\<lparr>co_online := online', co_runtime_status := status'\<rparr>
        in if became_offline then
             (case bump_snapshot s1 of Inl _ \<Rightarrow> s1 | Inr s2 \<Rightarrow> snd (broadcast_snapshot s2))
           else s1)"

subsection \<open>Connections\<close>

definition CONTROL_HEARTBEAT_TIMEOUT_SECONDS :: u64 where
  "CONTROL_HEARTBEAT_TIMEOUT_SECONDS = 45"

text \<open>A tick of the heartbeat task: fail, or send a ping with a random nonce; the task ends, and
  the connection with it, when the answer is \<open>None\<close>. \<open>accepted\<close> says whether the bounded
  control channel took the ping.\<close>

definition heartbeat_tick :: "u64 \<Rightarrow> u64 \<Rightarrow> u64 \<Rightarrow> bool \<Rightarrow> control_message option" where
  "heartbeat_tick unix_time last_pong_at n accepted =
    (if saturating_sub unix_time last_pong_at \<ge> CONTROL_HEARTBEAT_TIMEOUT_SECONDS then None
     else if \<not> accepted then None
     else Some (Ping n))"

text \<open>\<open>error.as_control()\<close>; the texts are those of the \<open>error\<close> attributes, and \<open>detail\<close> is the
  text of a wrapped error.\<close>

fun coord_error_text :: "string \<Rightarrow> coord_error \<Rightarrow> string" where
  "coord_error_text detail CoordDatabase = ''database error: '' @ detail"
| "coord_error_text detail CoordSerialization = ''serialization error: '' @ detail"
| "coord_error_text detail CoordInvalidPeer = ''invalid peer''"
| "coord_error_text detail AddressPoolExhausted = ''virtual address pool is exhausted''"
| "coord_error_text detail SnapshotGenerationOverflow = ''snapshot generation counter is exhausted''"
| "coord_error_text detail InviteRequired = ''invite token required''"
| "coord_error_text detail InvalidInvite = ''invalid invite token''"
| "coord_error_text detail InviteExpired = ''invite token expired or already used''"
| "coord_error_text detail InvalidCredential = ''invalid membership credential''"
| "coord_error_text detail PeerNotRegistered = ''peer is not registered''"
| "coord_error_text detail NotRegistered = ''connection is not registered''"
| "coord_error_text detail UnsupportedMessage = ''unsupported control message''"
| "coord_error_text detail CoordConnectionClosed = ''connection closed''"

definition error_message :: "string \<Rightarrow> string \<Rightarrow> control_message" where
  "error_message code message = ControlError code message"

definition as_control :: "string \<Rightarrow> coord_error \<Rightarrow> control_message" where
  "as_control detail e = error_message ''server_error'' (coord_error_text detail e)"

text \<open>What \<open>handle_socket\<close> keeps of a connection, and one round of its loop on a text message.
  \<open>parse\<close> is the JSON parser; its error is the text sent back.\<close>

record socket_state =
  so_connection_id :: u64
  so_registered :: "node_id option"
  so_last_pong_at :: u64

definition handle_text ::
  "coord_env \<Rightarrow> (string \<Rightarrow> string + control_message) \<Rightarrow> string \<Rightarrow> u64 \<Rightarrow> (u64 \<Rightarrow> bool) \<Rightarrow>
   socket_state \<Rightarrow> coord_state \<Rightarrow> string \<Rightarrow> outbox \<times> socket_state \<times> coord_state" where
  "handle_text env parse detail unix_time is_open c s text =
    (case parse text of
       Inl message \<Rightarrow>
         ([(so_connection_id c, error_message ''invalid_message'' message)], c, s)
     | Inr request \<Rightarrow>
        let c' = (case request of Pong _ \<Rightarrow> c\<lparr>so_last_pong_at := unix_time\<rparr> | _ \<Rightarrow> c) in
        case handle_message env unix_time is_open (so_connection_id c) (so_registered c) request s of
          (Inr next_registered, out, s') \<Rightarrow> (out, c'\<lparr>so_registered := next_registered\<rparr>, s')
        | (Inl e, out, s') \<Rightarrow> (out @ [(so_connection_id c, as_control detail e)], c', s'))"

subsection \<open>The broadcast task\<close>

text \<open>Where the task of \<open>snapshot_broadcast_loop\<close> is: not started or returned, asleep, about to
  call \<open>broadcast_snapshot_now\<close>, about to look whether to go on. A step is a locked section or
  the broadcast, whose failure (\<open>ok\<close> false) keeps the request pending.\<close>

datatype loop_pc = LoopStopped | LoopSleep | LoopSend | LoopCheck

fun broadcast_loop_step :: "coord_env \<Rightarrow> u64 \<Rightarrow> bool \<Rightarrow> loop_pc \<times> coord_state \<Rightarrow> loop_pc \<times> coord_state" where
  "broadcast_loop_step env unix_time ok (LoopStopped, s) = (LoopStopped, s)"
| "broadcast_loop_step env unix_time ok (LoopSleep, s) =
    (if \<not> co_pending s then (LoopStopped, s\<lparr>co_running := False\<rparr>)
     else (LoopSend, s\<lparr>co_pending := False\<rparr>))"
| "broadcast_loop_step env unix_time ok (LoopSend, s) =
    (LoopCheck, if ok then broadcast_snapshot_now env unix_time s else s\<lparr>co_pending := True\<rparr>)"
| "broadcast_loop_step env unix_time ok (LoopCheck, s) =
    (if co_pending s then (LoopSleep, s) else (LoopStopped, s\<lparr>co_running := False\<rparr>))"

subsection \<open>Opening the database\<close>

text \<open>The stored tables, with the settings and the generation as they may be missing.\<close>

record coord_db =
  db_peers :: "(node_id \<times> peer_row) list"
  db_invites :: "(256 word \<times> invite_row) list"
  db_generation :: "u64 option"
  db_doh_servers :: "string list option"
  db_stun_servers :: "string list option"

definition repair_invite :: "256 word \<Rightarrow> invite_row \<Rightarrow> invite_row" where
  "repair_invite token_hash iv =
    (let iv1 = (if iv_id iv = [] then iv\<lparr>iv_id := hex_encode (to_be 32 token_hash)\<rparr> else iv)
     in if iv_created_at iv1 = 0 then iv1\<lparr>iv_created_at := iv_expires_at iv1\<rparr> else iv1)"

definition stored_generation :: "u64 option \<Rightarrow> u64" where
  "stored_generation v =
    (case v of None \<Rightarrow> 1 | Some w \<Rightarrow> if sint w < 0 \<or> w = 0 then 1 else w)"

definition load_network_config ::
  "string list option \<Rightarrow> string list option \<Rightarrow> string list \<Rightarrow> string list \<Rightarrow> string list \<times> string list" where
  "load_network_config stored_doh stored_stun doh_servers stun_servers =
    (let doh_default = (if doh_servers = [] then default_servers else doh_servers)
     in (case stored_doh of Some (x # xs) \<Rightarrow> x # xs | _ \<Rightarrow> doh_default,
         case stored_stun of Some xs \<Rightarrow> xs | None \<Rightarrow> stun_servers))"

definition open_server ::
  "coord_env \<Rightarrow> string \<Rightarrow> server_signer \<Rightarrow> string list \<Rightarrow> string list \<Rightarrow> coord_db \<Rightarrow>
   coord_error + coord_state" where
  "open_server env tenant signer doh_servers stun_servers db =
    (let (doh, stun) = load_network_config (db_doh_servers db) (db_stun_servers db) doh_servers stun_servers
     in migrate_virtual_ipv4 env
      \<lparr>co_tenant = tenant, co_signer = signer, co_peers = db_peers db,
       co_invites = map (\<lambda>(h, iv). (h, repair_invite h iv)) (db_invites db),
       co_meta_generation = (case db_generation db of None \<Rightarrow> 1 | Some w \<Rightarrow> w),
       co_generation = stored_generation (db_generation db),
       co_online = [], co_runtime_status = [], co_pending = False, co_running = False,
       co_doh_servers = doh, co_stun_servers = stun, co_watch = []\<rparr>)"

end
