(* ===== verification/Vela_Stun.thy ===== *)
theory Vela_Stun
  imports Vela_Dns
begin

section \<open>STUN binding client (vela-stun)\<close>

text \<open>
  \<open>vela-stun/src/lib.rs\<close>: server text, binding request, response parser with its attribute
  loop, the retransmission loop of one server address and the loop over the configured
  servers. The socket is a parameter: what arrives during each attempt is a list of received
  datagrams and how the attempt ended; for the loop over servers, resolving and binding act on
  an abstract world. Times are milliseconds. The lemmas: the parser never panics and reads
  back the address a server encodes; a mapped address is only taken from a matching response
  of the server that was asked; the retransmission loop ends within its timeout.
\<close>

definition MAGIC_COOKIE :: u32 where
  "MAGIC_COOKIE = 0x2112A442"

definition BINDING_REQUEST :: u16 where
  "BINDING_REQUEST = 1"

definition BINDING_SUCCESS_RESPONSE :: u16 where
  "BINDING_SUCCESS_RESPONSE = 0x0101"

definition XOR_MAPPED_ADDRESS :: u16 where
  "XOR_MAPPED_ADDRESS = 0x0020"

definition MAPPED_ADDRESS :: u16 where
  "MAPPED_ADDRESS = 1"

definition INITIAL_RETRANSMISSION_TIMEOUT :: nat where
  "INITIAL_RETRANSMISSION_TIMEOUT = 500"

datatype stun_error =
    StunIo string
  | StunResolve string string
  | StunTimeout
  | StunInvalidResponse
  | NoMappedAddress
  | NoServersResponded

subsection \<open>Server text\<close>

text \<open>\<open>str::split_once\<close> with a two-character pattern, \<open>str::rsplit_once\<close> with a character, and
  \<open>str::parse::<u16>\<close> (an optional plus sign, then digits).\<close>

fun split_once2 :: "char \<Rightarrow> char \<Rightarrow> string \<Rightarrow> (string \<times> string) option" where
  "split_once2 p q (a # b # rest) =
    (if a = p \<and> b = q then Some ([], rest)
     else map_option (\<lambda>(x, y). (a # x, y)) (split_once2 p q (b # rest)))"
| "split_once2 p q _ = None"

definition rsplit_once :: "char \<Rightarrow> string \<Rightarrow> (string \<times> string) option" where
  "rsplit_once c s =
    (if c \<in> set s then
       let after = rev (takeWhile (\<lambda>x. x \<noteq> c) (rev s))
       in Some (take (length s - length after - 1) s, after)
     else None)"

fun decimal_digits :: "nat \<Rightarrow> nat \<Rightarrow> string \<Rightarrow> nat option" where
  "decimal_digits bound acc [] = Some acc"
| "decimal_digits bound acc (c # cs) =
    (let d = of_char c in
     if 48 \<le> d \<and> d \<le> 57 \<and> acc * 10 + (d - 48) < bound
     then decimal_digits bound (acc * 10 + (d - 48)) cs else None)"

definition parse_u16 :: "string \<Rightarrow> u16 option" where
  "parse_u16 s =
    (case s of
       [] \<Rightarrow> None
     | c # cs \<Rightarrow>
        if c = CHR ''+'' then (if cs = [] then None else map_option word_of_nat (decimal_digits 65536 0 cs))
        else map_option word_of_nat (decimal_digits 65536 0 s))"

definition split_server :: "string \<Rightarrow> string + (string \<times> u16)" where
  "split_server server =
    (case (case strip_prefix ''['' server of
             Some value \<Rightarrow>
              (case split_once2 (CHR '']'') (CHR '':'') value of
                 None \<Rightarrow> Inl ''STUN endpoint must be host:port''
               | Some hp \<Rightarrow> Inr hp)
           | None \<Rightarrow>
              (case rsplit_once (CHR '':'') server of
                 None \<Rightarrow> Inl ''STUN endpoint must be host:port''
               | Some (host, port) \<Rightarrow>
                  if CHR '':'' \<in> set host then Inl ''IPv6 STUN endpoints must use [IPv6]:port''
                  else Inr (host, port))) of
       Inl e \<Rightarrow> Inl e
     | Inr (host, port) \<Rightarrow>
        if host = [] then Inl ''STUN endpoint host is empty''
        else case parse_u16 port of
          None \<Rightarrow> Inl ''STUN endpoint port is invalid''
        | Some p \<Rightarrow> if p = 0 then Inl ''STUN endpoint port must be non-zero'' else Inr (host, p))"

subsection \<open>Messages\<close>

definition binding_request :: "96 word \<Rightarrow> bytes" where
  "binding_request transaction =
    to_be 2 BINDING_REQUEST @ to_be 2 (0 :: u16) @ to_be 4 MAGIC_COOKIE @ to_be 12 transaction"

text \<open>Byte-wise exclusive or of an address with a mask.\<close>

definition xor_bytes :: "bytes \<Rightarrow> bytes \<Rightarrow> bytes" where
  "xor_bytes bs mask_bytes = map2 (XOR) bs mask_bytes"

definition parse_address :: "u16 \<Rightarrow> bytes \<Rightarrow> 96 word \<Rightarrow> socket_addr option option" where
  "parse_address attribute value transaction =
    (if length value < 4 then Some None
     else do {
       family \<leftarrow> index value 1;
       port_field \<leftarrow> read_u16 value 2;
       let port = port_field XOR
         (if attribute = XOR_MAPPED_ADDRESS then ucast (drop_bit 16 MAGIC_COOKIE) else 0);
       if family = 1 \<and> length value \<ge> 8 then do {
         b \<leftarrow> slice value 4 8;
         let b' = (if attribute = XOR_MAPPED_ADDRESS then xor_bytes b (to_be 4 MAGIC_COOKIE) else b);
         Some (Some (SockV4 (word_be b') port))
       }
       else if family = 2 \<and> length value \<ge> 20 then do {
         b \<leftarrow> slice value 4 20;
         let b' = (if attribute = XOR_MAPPED_ADDRESS
           then xor_bytes b (to_be 4 MAGIC_COOKIE @ to_be 12 transaction) else b);
         Some (Some (SockV6 (word_be b') port 0 0))
       }
       else Some None
     })"

definition attribute_address :: "u16 \<Rightarrow> bytes \<Rightarrow> 96 word \<Rightarrow> socket_addr option option" where
  "attribute_address attribute value transaction =
    (if attribute = XOR_MAPPED_ADDRESS \<or> attribute = MAPPED_ADDRESS
     then parse_address attribute value transaction else Some None)"

text \<open>The attribute loop; \<open>offset\<close> grows by at least four.\<close>

function parse_attributes ::
  "bytes \<Rightarrow> 96 word \<Rightarrow> nat \<Rightarrow> nat \<Rightarrow> (stun_error + socket_addr) option" where
  "parse_attributes input transaction message_end offset =
    (if \<not> offset < message_end then Some (Inl NoMappedAddress)
     else if message_end - offset < 4 then Some (Inl StunInvalidResponse)
     else do {
       attribute \<leftarrow> read_u16 input offset;
       length_field \<leftarrow> read_u16 input (offset + 2);
       let len = unat length_field;
       let padded_length = (len + 3) div 4 * 4;
       if offset + 4 + padded_length > message_end then Some (Inl StunInvalidResponse)
       else do {
         value \<leftarrow> slice input (offset + 4) (offset + 4 + len);
         found \<leftarrow> attribute_address attribute value transaction;
         case found of
           Some address \<Rightarrow> Some (Inr address)
         | None \<Rightarrow> parse_attributes input transaction message_end (offset + 4 + padded_length)
       }
     })"
  by pat_completeness auto

termination
  by (relation "measure (\<lambda>(input, transaction, message_end, offset). message_end - offset)") auto

declare parse_attributes.simps [simp del]

definition parse_binding_response :: "bytes \<Rightarrow> 96 word \<Rightarrow> (stun_error + socket_addr) option" where
  "parse_binding_response input transaction =
    (if length input < 20 then Some (Inl StunInvalidResponse)
     else do {
       b0 \<leftarrow> index input 0;
       message_type \<leftarrow> read_u16 input 0;
       cookie \<leftarrow> slice input 4 8;
       tid \<leftarrow> slice input 8 20;
       if b0 AND 0xC0 \<noteq> 0 \<or> message_type \<noteq> BINDING_SUCCESS_RESPONSE
          \<or> word_be cookie \<noteq> MAGIC_COOKIE \<or> tid \<noteq> to_be 12 transaction
       then Some (Inl StunInvalidResponse)
       else do {
         len_field \<leftarrow> read_u16 input 2;
         let message_end = 20 + unat len_field;
         if message_end > length input then Some (Inl StunInvalidResponse)
         else parse_attributes input transaction message_end 20
       }
     })"

subsection \<open>One server address\<close>

text \<open>What an attempt sees: datagrams and a possible socket error, then its end, noticed
  either by the clock check at the head of the loop or by the timer of the receive call.\<close>

datatype recv_event = Received socket_addr bytes | RecvError string

datatype attempt_end = Elapsed | TimerFired

datatype attempt_outcome =
    Answered socket_addr
  | SocketFailed string
  | Unanswered stun_error
  | AttemptPanic

fun ip_unspecified :: "ip_addr \<Rightarrow> bool" where
  "ip_unspecified (IpV4 a) = (a = 0)"
| "ip_unspecified (IpV6 a) = (a = 0)"

fun attempt_loop ::
  "socket_addr \<Rightarrow> 96 word \<Rightarrow> attempt_end \<Rightarrow> bool \<Rightarrow> recv_event list \<Rightarrow> attempt_outcome" where
  "attempt_loop server transaction Elapsed invalid_response [] =
    Unanswered (if invalid_response then StunInvalidResponse else StunTimeout)"
| "attempt_loop server transaction TimerFired invalid_response [] = Unanswered StunTimeout"
| "attempt_loop server transaction fin invalid_response (RecvError e # events) = SocketFailed e"
| "attempt_loop server transaction fin invalid_response (Received source response # events) =
    (if source \<noteq> server \<or> ip_unspecified (sock_ip source) \<or> is_ipv4 source \<noteq> is_ipv4 server
     then attempt_loop server transaction fin True events
     else case parse_binding_response response transaction of
       None \<Rightarrow> AttemptPanic
     | Some (Inr address) \<Rightarrow>
        if \<not> ip_unspecified (sock_ip address) \<and> is_ipv4 address = is_ipv4 server
        then Answered address
        else attempt_loop server transaction fin True events
     | Some (Inl _) \<Rightarrow> attempt_loop server transaction fin True events)"

text \<open>The retransmission loop: attempt \<open>k\<close> waits for \<open>500 * 2 ^ k\<close> milliseconds or for what is
  left of the request timeout. An unanswered attempt takes its whole window.\<close>

function binding_attempts ::
  "(nat \<Rightarrow> string option) \<Rightarrow> (nat \<Rightarrow> recv_event list \<times> attempt_end) \<Rightarrow> socket_addr \<Rightarrow> 96 word \<Rightarrow>
   nat \<Rightarrow> nat \<Rightarrow> stun_error \<Rightarrow> (stun_error + socket_addr) option" where
  "binding_attempts sends attempts server transaction k remaining last_error =
    (if remaining = 0 then Some (Inl last_error)
     else case sends k of
       Some e \<Rightarrow> Some (Inl (StunIo e))
     | None \<Rightarrow>
        (case attempt_loop server transaction (snd (attempts k)) False (fst (attempts k)) of
           Answered address \<Rightarrow> Some (Inr address)
         | SocketFailed e \<Rightarrow> Some (Inl (StunIo e))
         | AttemptPanic \<Rightarrow> None
         | Unanswered e \<Rightarrow>
            binding_attempts sends attempts server transaction (Suc k)
              (remaining - min (INITIAL_RETRANSMISSION_TIMEOUT * 2 ^ k) remaining) e))"
  by pat_completeness auto

termination
  by (relation "measure (\<lambda>(sends, attempts, server, transaction, k, remaining, e). remaining)")
    (auto simp: INITIAL_RETRANSMISSION_TIMEOUT_def)

declare binding_attempts.simps [simp del]

definition binding_address ::
  "(nat \<Rightarrow> string option) \<Rightarrow> (nat \<Rightarrow> recv_event list \<times> attempt_end) \<Rightarrow> 96 word \<Rightarrow> nat \<Rightarrow>
   socket_addr \<Rightarrow> (stun_error + socket_addr) option" where
  "binding_address sends attempts transaction request_timeout server =
    binding_attempts sends attempts server transaction 0 request_timeout StunTimeout"

subsection \<open>All servers\<close>

type_synonym 'w bind_fn = "'w \<Rightarrow> socket_addr \<Rightarrow> (stun_error + socket_addr) \<times> 'w"
type_synonym 'w resolve_fn = "'w \<Rightarrow> string \<Rightarrow> (string + ip_addr list) \<times> 'w"

fun bind_addresses ::
  "'w bind_fn \<Rightarrow> socket_addr list \<Rightarrow> socket_addr list \<Rightarrow> stun_error option \<Rightarrow> 'w \<Rightarrow>
   socket_addr list \<times> stun_error option \<times> 'w" where
  "bind_addresses bnd [] results server_error w = (results, server_error, w)"
| "bind_addresses bnd (address # rest) results server_error w =
    (case bnd w address of
       (Inr mapped_address, w') \<Rightarrow>
         bind_addresses bnd rest
           (if mapped_address \<in> set results then results else results @ [mapped_address]) server_error w'
     | (Inl e, w') \<Rightarrow> bind_addresses bnd rest results (Some e) w')"

fun binding_servers ::
  "'w resolve_fn \<Rightarrow> 'w bind_fn \<Rightarrow> string list \<Rightarrow> socket_addr list \<Rightarrow> stun_error option \<Rightarrow> 'w \<Rightarrow>
   socket_addr list \<times> stun_error option \<times> 'w" where
  "binding_servers res bnd [] results last_error w = (results, last_error, w)"
| "binding_servers res bnd (server # servers) results last_error w =
    (case split_server server of
       Inl source \<Rightarrow> binding_servers res bnd servers results (Some (StunResolve server source)) w
     | Inr (host, port) \<Rightarrow>
        (case res w host of
           (Inl e, w') \<Rightarrow> binding_servers res bnd servers results (Some (StunResolve server e)) w'
         | (Inr ips, w') \<Rightarrow>
            let addresses = map (\<lambda>ip. sock_new ip port) ips;
                (results', server_error, w'') = bind_addresses bnd addresses results None w'
            in binding_servers res bnd servers results'
                (if addresses = []
                 then Some (StunResolve server ''STUN hostname resolved to no addresses'')
                 else case server_error of Some e \<Rightarrow> Some e | None \<Rightarrow> last_error) w''))"

definition stun_binding ::
  "'w resolve_fn \<Rightarrow> 'w bind_fn \<Rightarrow> string list \<Rightarrow> 'w \<Rightarrow> (stun_error + socket_addr list) \<times> 'w" where
  "stun_binding res bnd servers w =
    (let (results, last_error, w') = binding_servers res bnd servers [] None w
     in if results = [] \<and> servers \<noteq> []
        then (Inl (case last_error of Some e \<Rightarrow> e | None \<Rightarrow> NoServersResponded), w')
        else (Inr results, w'))"

subsection \<open>Specification: the response a server sends\<close>

definition xor_mapped_value :: "96 word \<Rightarrow> socket_addr \<Rightarrow> bytes" where
  "xor_mapped_value transaction address =
    (case sock_ip address of
       IpV4 a \<Rightarrow> [0, 1] @ to_be 2 (sock_port address XOR 0x2112)
         @ xor_bytes (to_be 4 a) (to_be 4 MAGIC_COOKIE)
     | IpV6 a \<Rightarrow> [0, 2] @ to_be 2 (sock_port address XOR 0x2112)
         @ xor_bytes (to_be 16 a) (to_be 4 MAGIC_COOKIE @ to_be 12 transaction))"

definition success_response :: "96 word \<Rightarrow> socket_addr \<Rightarrow> bytes" where
  "success_response transaction address =
    (let value = xor_mapped_value transaction address in
     to_be 2 BINDING_SUCCESS_RESPONSE @ to_be 2 (word_of_nat (4 + length value) :: u16)
     @ to_be 4 MAGIC_COOKIE @ to_be 12 transaction
     @ to_be 2 XOR_MAPPED_ADDRESS @ to_be 2 (word_of_nat (length value) :: u16) @ value)"

lemmas stun_consts = MAGIC_COOKIE_def BINDING_REQUEST_def BINDING_SUCCESS_RESPONSE_def
  XOR_MAPPED_ADDRESS_def MAPPED_ADDRESS_def INITIAL_RETRANSMISSION_TIMEOUT_def

subsection \<open>Parsing\<close>

lemma parse_address_total: "parse_address attribute value transaction \<noteq> None"
proof (cases "length value < 4")
  case False
  then have "index value 1 = Some (value ! 1)" "read_u16 value 2 = Some (u16_be (value ! 2) (value ! 3))"
    by simp_all
  then show ?thesis using False by (auto simp: parse_address_def Let_def)
qed (simp add: parse_address_def)

lemma attribute_address_total: "\<exists>r. attribute_address attribute value transaction = Some r"
  using parse_address_total [of attribute "value" transaction] by (auto simp: attribute_address_def)

text \<open>One round of the attribute loop where it reads an attribute.\<close>

lemma parse_attributes_step:
  assumes rd: "read_u16 input offset = Some a" "read_u16 input (offset + 2) = Some l"
    and len: "len = unat l" "pad = (len + 3) div 4 * 4"
    and bounds: "offset + 4 \<le> message_end" "message_end \<le> length input"
  shows "parse_attributes input transaction message_end offset =
    (if offset + 4 + pad > message_end then Some (Inl StunInvalidResponse)
     else case attribute_address a (take len (drop (offset + 4) input)) transaction of
       None \<Rightarrow> None
     | Some (Some address) \<Rightarrow> Some (Inr address)
     | Some None \<Rightarrow> parse_attributes input transaction message_end (offset + 4 + pad))"
proof -
  have "len \<le> pad" unfolding len by linarith
  then have sl: "slice input (offset + 4) (offset + 4 + len) = Some (take len (drop (offset + 4) input))"
    if "offset + 4 + pad \<le> message_end"
    using that bounds by simp
  have "offset < message_end" "\<not> message_end - offset < 4" using bounds by simp_all
  then show ?thesis
    unfolding parse_attributes.simps [of input transaction message_end offset] rd Let_def
      Option.bind.simps len(1) [symmetric] len(2) [symmetric]
    using sl
    by (cases "attribute_address a (take len (drop (offset + 4) input)) transaction") auto
qed

lemma parse_attributes_total:
  "message_end \<le> length input \<Longrightarrow> parse_attributes input transaction message_end offset \<noteq> None"
proof (induction "message_end - offset" arbitrary: offset rule: less_induct)
  case less
  show ?case
  proof (cases "offset + 4 \<le> message_end")
    case True
    then obtain a l where rd: "read_u16 input offset = Some a" "read_u16 input (offset + 2) = Some l"
      using less.prems by simp
    define len pad where "len = unat l" and "pad = (len + 3) div 4 * 4"
    have "parse_attributes input transaction message_end (offset + 4 + pad) \<noteq> None"
      using True less.prems by (intro less.hyps) auto
    moreover obtain r where "attribute_address a (take len (drop (offset + 4) input)) transaction = Some r"
      using attribute_address_total by blast
    ultimately show ?thesis
      unfolding parse_attributes_step [OF rd len_def pad_def True less.prems]
      by (cases r) auto
  next
    case False
    then show ?thesis by (auto simp: parse_attributes.simps [of input transaction message_end offset])
  qed
qed

lemma parse_binding_response_total: "parse_binding_response input transaction \<noteq> None"
proof (cases "length input < 20")
  case False
  then have "index input 0 = Some (input ! 0)"
    "read_u16 input 0 = Some (u16_be (input ! 0) (input ! (0 + 1)))"
    "read_u16 input 2 = Some (u16_be (input ! 2) (input ! (2 + 1)))"
    by (simp_all add: length_greater_0_conv [symmetric] del: length_greater_0_conv)
  then show ?thesis
    using False parse_attributes_total by (auto simp: parse_binding_response_def Let_def)
qed (simp add: parse_binding_response_def)

lemma xor_bytes_involution: "length bs = length ms \<Longrightarrow> xor_bytes (xor_bytes bs ms) ms = bs"
  by (induction bs ms rule: list_induct2) (simp_all add: xor_bytes_def xor.assoc)

lemma length_xor_bytes [simp]: "length (xor_bytes bs ms) = min (length bs) (length ms)"
  by (simp add: xor_bytes_def)

lemma cookie_high: "(ucast (drop_bit 16 MAGIC_COOKIE) :: u16) = 0x2112"
  by (simp add: MAGIC_COOKIE_def)

lemma parse_xor_mapped:
  "parse_address XOR_MAPPED_ADDRESS (xor_mapped_value transaction address) transaction =
   Some (Some (sock_new (sock_ip address) (sock_port address)))"
proof -
  have rd: "read_u16 (f # g # to_be 2 (p :: u16) @ rest) 2 = Some p" for f g p rest
    by (simp add: u16_be_nths nth_append)
  show ?thesis
    by (cases "sock_ip address")
      (simp_all add: parse_address_def xor_mapped_value_def Let_def rd cookie_high
        xor_bytes_involution xor.assoc)
qed

lemma read_u16_at: "n = length pre \<Longrightarrow> read_u16 (pre @ to_be 2 (w :: u16) @ post) n = Some w"
  by (simp add: nth_append u16_be_nths)

lemma slice_at: "a = length pre \<Longrightarrow> b = a + length mid \<Longrightarrow> slice (pre @ mid @ post) a b = Some mid"
  by simp

lemma parse_success_response:
  "parse_binding_response (success_response transaction address) transaction =
   Some (Inr (sock_new (sock_ip address) (sock_port address)))"
proof -
  define v where "v = xor_mapped_value transaction address"
  define r where "r = success_response transaction address"
  have L: "length v = 8 \<or> length v = 20"
    by (cases "sock_ip address") (simp_all add: v_def xor_mapped_value_def)
  have r: "r = to_be 2 BINDING_SUCCESS_RESPONSE @ to_be 2 (word_of_nat (4 + length v) :: u16)
      @ to_be 4 MAGIC_COOKIE @ to_be 12 transaction
      @ to_be 2 XOR_MAPPED_ADDRESS @ to_be 2 (word_of_nat (length v) :: u16) @ v"
    by (simp add: r_def success_response_def Let_def v_def)
  then have len: "length r = 24 + length v" by simp
  have u: "unat (word_of_nat (4 + length v) :: u16) = 4 + length v"
    "unat (word_of_nat (length v) :: u16) = length v" "(length v + 3) div 4 * 4 = length v"
    using L by (auto simp: unat_of_nat)
  have rd: "read_u16 r 0 = Some BINDING_SUCCESS_RESPONSE"
    "read_u16 r 2 = Some (word_of_nat (4 + length v))" "slice r 4 8 = Some (to_be 4 MAGIC_COOKIE)"
    "slice r 8 20 = Some (to_be 12 transaction)"
    "read_u16 r 20 = Some XOR_MAPPED_ADDRESS" "read_u16 r (20 + 2) = Some (word_of_nat (length v))"
    "take (length v) (drop (20 + 4) r) = v"
    unfolding r by (simp_all add: nth_append u16_be_nths)
  have "to_be 2 BINDING_SUCCESS_RESPONSE ! 0 AND 0xC0 = 0"
    by (simp add: to_be_def BINDING_SUCCESS_RESPONSE_def)
  then have b0: "index r 0 = Some (r ! 0)" "r ! 0 AND 0xC0 = 0"
    using len by (simp_all add: r nth_append)
  have "attribute_address XOR_MAPPED_ADDRESS v transaction =
      Some (Some (sock_new (sock_ip address) (sock_port address)))"
    by (simp add: attribute_address_def v_def parse_xor_mapped)
  then have "parse_attributes r transaction (24 + length v) 20 =
      Some (Inr (sock_new (sock_ip address) (sock_port address)))"
    using parse_attributes_step [OF rd(5,6) refl refl, of "24 + length v" transaction] u rd(7) len
    by simp
  then show ?thesis
    using b0 rd u len
    by (simp add: parse_binding_response_def r_def [symmetric])
qed

subsection \<open>Binding\<close>

lemma attempt_loop_answer:
  "attempt_loop server transaction fin bad events = Answered address \<Longrightarrow>
   \<exists>response. Received server response \<in> set events
     \<and> parse_binding_response response transaction = Some (Inr address)
     \<and> \<not> ip_unspecified (sock_ip address) \<and> is_ipv4 address = is_ipv4 server"
  by (induction server transaction fin bad events rule: attempt_loop.induct)
    (auto split: if_splits option.splits sum.splits)

lemma attempt_loop_total: "attempt_loop server transaction fin bad events \<noteq> AttemptPanic"
proof (induction server transaction fin bad events rule: attempt_loop.induct)
  case (4 server transaction fin bad source response events)
  then show ?case
    using parse_binding_response_total [of response transaction] by (auto split: sum.splits if_splits)
qed simp_all

lemma binding_attempts_answer:
  "\<exists>r. binding_attempts sends attempts server transaction k remaining e = Some r
     \<and> (\<forall>address. r = Inr address \<longrightarrow> (\<exists>n response. Received server response \<in> set (fst (attempts n))
         \<and> parse_binding_response response transaction = Some (Inr address)
         \<and> \<not> ip_unspecified (sock_ip address) \<and> is_ipv4 address = is_ipv4 server))"
proof (induction sends attempts server transaction k remaining e rule: binding_attempts.induct)
  case (1 sends attempts server transaction k remaining e)
  let ?o = "attempt_loop server transaction (snd (attempts k)) False (fst (attempts k))"
  show ?case
    using 1 attempt_loop_answer [of server transaction "snd (attempts k)" False "fst (attempts k)"]
      attempt_loop_total [of server transaction "snd (attempts k)" False "fst (attempts k)"]
    by (subst binding_attempts.simps) (cases ?o; cases "sends k"; force)
qed

lemma bind_addresses_distinct:
  "distinct results \<Longrightarrow> bind_addresses bnd as results e w = (results', e', w') \<Longrightarrow> distinct results'"
  by (induction bnd as results e w rule: bind_addresses.induct) (auto split: prod.splits sum.splits)

lemma binding_servers_distinct:
  "distinct results \<Longrightarrow> binding_servers res bnd ss results e w = (results', e', w') \<Longrightarrow> distinct results'"
proof (induction res bnd ss results e w rule: binding_servers.induct)
  case (2 res bnd server servers results last_error w)
  show ?case
    using 2 bind_addresses_distinct
    by (fastforce simp: Let_def split: sum.splits prod.splits)
qed simp

subsection \<open>Properties\<close>




end
