(* ===== verification/Vela_Admin.thy ===== *)
theory Vela_Admin
  imports Vela_Coord Vela_Stun "HOL-Library.List_Lexorder" "HOL-Library.Char_ord"
begin

section \<open>The administration interface (vela-coord/src/admin.rs)\<close>

text \<open>
  Sessions of the administrator, validation of the network configuration, the views of peers
  and invites, and one handler per route, each on the session table and the server state. A
  handler answers with a status and a message or with the value it serialises; a panic inside
  a handler is the answer \<open>AdminPanic\<close>.

  Parameters: Argon2 (\<open>ae_verify_password\<close>, \<open>None\<close> when the stored hash does not parse), the
  URL parser, and the executable the download route reads; random tokens, the clock and the
  hash of a new password are arguments.
\<close>

subsection \<open>Sessions\<close>

definition ADMIN_USERNAME :: string where
  "ADMIN_USERNAME = ''admin''"

definition SESSION_TTL_SECONDS :: u64 where
  "SESSION_TTL_SECONDS = 24 * 60 * 60"

record admin_env =
  ae_coord :: coord_env
  ae_verify_password :: "string \<Rightarrow> string \<Rightarrow> bool option"
  ae_url_parse :: "string \<Rightarrow> string + url"

record credentials_file =
  cf_username :: string
  cf_password_hash :: string

record admin_auth =
  aa_username :: string
  aa_password_hash :: string
  aa_sessions :: "(string \<times> u64) list"

text \<open>The credentials file is \<open>None\<close> when the path does not exist, and otherwise what reading it
  gives. The result holds the file to write, if any.\<close>

definition load_or_create ::
  "(string \<Rightarrow> bool) \<Rightarrow> (string + credentials_file) option \<Rightarrow> string \<Rightarrow> string + string \<Rightarrow>
   string + (admin_auth \<times> string option \<times> credentials_file option)" where
  "load_or_create hash_parses file random_password hashed =
    (case file of
       Some (Inl e) \<Rightarrow> Inl e
     | Some (Inr f) \<Rightarrow>
        if \<not> hash_parses (cf_password_hash f) then Inl ''password hash''
        else Inr (\<lparr>aa_username = cf_username f, aa_password_hash = cf_password_hash f,
               aa_sessions = []\<rparr>, None, None)
     | None \<Rightarrow>
        (case hashed of
           Inl e \<Rightarrow> Inl e
         | Inr h \<Rightarrow>
            Inr (\<lparr>aa_username = ADMIN_USERNAME, aa_password_hash = h, aa_sessions = []\<rparr>,
              Some random_password, Some \<lparr>cf_username = ADMIN_USERNAME, cf_password_hash = h\<rparr>)))"

definition reset_password ::
  "(string + credentials_file) option \<Rightarrow> string option \<Rightarrow> string \<Rightarrow> (string \<Rightarrow> string + string) \<Rightarrow>
   string + (string \<times> credentials_file)" where
  "reset_password file password random_password hash_password =
    (let username = (case file of
           Some (Inr f) \<Rightarrow> if cf_username f = [] then ADMIN_USERNAME else cf_username f
         | _ \<Rightarrow> ADMIN_USERNAME);
         password = (case password of Some p \<Rightarrow> p | None \<Rightarrow> random_password)
     in if length password < 8 then Inl ''password must contain at least 8 characters''
        else case hash_password password of
          Inl e \<Rightarrow> Inl e
        | Inr h \<Rightarrow> Inr (password, \<lparr>cf_username = username, cf_password_hash = h\<rparr>))"

definition admin_login ::
  "admin_env \<Rightarrow> u64 \<Rightarrow> string \<Rightarrow> admin_auth \<Rightarrow> string \<Rightarrow> string \<Rightarrow> (string \<times> u64) option \<times> admin_auth" where
  "admin_login ae unix_time token auth username password =
    (if username \<noteq> aa_username auth
        \<or> ae_verify_password ae (aa_password_hash auth) password \<noteq> Some True
     then (None, auth)
     else let expires_at = saturating_add unix_time SESSION_TTL_SECONDS;
              sessions = filter (\<lambda>(_, expires). expires > unix_time) (aa_sessions auth)
       in (Some (token, expires_at), auth\<lparr>aa_sessions := AList.update token expires_at sessions\<rparr>))"

text \<open>The argument is the \<open>Authorization\<close> header, when there is one and it is text.\<close>

definition bearer :: "string option \<Rightarrow> string option" where
  "bearer header = Option.bind header (strip_prefix ''Bearer '')"

definition authorize :: "u64 \<Rightarrow> admin_auth \<Rightarrow> string option \<Rightarrow> u64 option \<times> admin_auth" where
  "authorize unix_time auth header =
    (case bearer header of
       None \<Rightarrow> (None, auth)
     | Some token \<Rightarrow>
        (case map_of (aa_sessions auth) token of
           None \<Rightarrow> (None, auth)
         | Some expires_at \<Rightarrow>
            if expires_at \<le> unix_time
            then (None, auth\<lparr>aa_sessions := AList.delete token (aa_sessions auth)\<rparr>)
            else (Some expires_at, auth)))"

definition admin_logout :: "admin_auth \<Rightarrow> string option \<Rightarrow> admin_auth" where
  "admin_logout auth header =
    (case bearer header of
       None \<Rightarrow> auth
     | Some token \<Rightarrow> auth\<lparr>aa_sessions := AList.delete token (aa_sessions auth)\<rparr>)"

subsection \<open>Network configuration\<close>

text \<open>\<open>str::trim\<close>: the white space of Unicode, as its UTF-8 bytes.\<close>

definition utf8_text :: "nat list \<Rightarrow> string" where
  "utf8_text ns = map char_of ns"

definition white_space :: "string list" where
  "white_space =
    map (\<lambda>b. utf8_text [b]) [9, 10, 11, 12, 13, 32]
    @ map utf8_text [[0xC2, 0x85], [0xC2, 0xA0], [0xE1, 0x9A, 0x80], [0xE2, 0x80, 0xA8],
        [0xE2, 0x80, 0xA9], [0xE2, 0x80, 0xAF], [0xE2, 0x81, 0x9F], [0xE3, 0x80, 0x80]]
    @ map (\<lambda>b. utf8_text [0xE2, 0x80, b]) [0x80..<0x8B]"

lemma find_prefix_shorter:
  assumes "find (\<lambda>w. w \<noteq> [] \<and> take (length w) s = w) ws = Some w"
  shows "length (drop (length w) s) < length s"
proof -
  from assms have "w \<noteq> []" "take (length w) s = w" by (auto simp: find_Some_iff)
  then show ?thesis by (cases s) auto
qed

function trim_start :: "string list \<Rightarrow> string \<Rightarrow> string" where
  "trim_start ws s =
    (case find (\<lambda>w. w \<noteq> [] \<and> take (length w) s = w) ws of
       None \<Rightarrow> s
     | Some w \<Rightarrow> trim_start ws (drop (length w) s))"
  by pat_completeness auto

termination
  by (relation "measure (\<lambda>(ws, s). length s)") (use find_prefix_shorter in \<open>auto simp del: length_drop\<close>)

definition trim :: "string \<Rightarrow> string" where
  "trim s = rev (trim_start (map rev white_space) (rev (trim_start white_space s)))"

definition valid_stun_endpoint :: "string \<Rightarrow> bool" where
  "valid_stun_endpoint value =
    (case (case strip_prefix ''['' value of
             Some v \<Rightarrow> split_once2 (CHR '']'') (CHR '':'') v
           | None \<Rightarrow>
              (case rsplit_once (CHR '':'') value of
                 Some (host, port) \<Rightarrow> if CHR '':'' \<notin> set host then Some (host, port) else None
               | None \<Rightarrow> None)) of
       None \<Rightarrow> False
     | Some (host, port) \<Rightarrow>
        host \<noteq> [] \<and> (case parse_u16 port of Some p \<Rightarrow> p \<noteq> 0 | None \<Rightarrow> False))"

definition clean_servers :: "string list \<Rightarrow> string list" where
  "clean_servers servers = filter (\<lambda>s. s \<noteq> []) (map trim servers)"

definition check_doh_server :: "admin_env \<Rightarrow> string \<Rightarrow> string option" where
  "check_doh_server ae server =
    (case ae_url_parse ae server of
       Inl _ \<Rightarrow> Some (''invalid DoH endpoint: '' @ server)
     | Inr u \<Rightarrow>
        if url_scheme u \<noteq> ''https'' \<or> url_host u = None
        then Some (''DoH endpoint must be an https URL: '' @ server)
        else if length server > 2048 then Some ''DoH endpoint is too long'' else None)"

definition check_stun_server :: "string \<Rightarrow> string option" where
  "check_stun_server server =
    (if length server > 256 \<or> \<not> valid_stun_endpoint server
     then Some (''invalid STUN endpoint: '' @ server) else None)"

text \<open>The first error of a loop over the servers.\<close>

fun first_error :: "('a \<Rightarrow> string option) \<Rightarrow> 'a list \<Rightarrow> string option" where
  "first_error check [] = None"
| "first_error check (x # xs) = (case check x of Some e \<Rightarrow> Some e | None \<Rightarrow> first_error check xs)"

definition validate_network_config ::
  "admin_env \<Rightarrow> string list \<Rightarrow> string list \<Rightarrow> string + (string list \<times> string list)" where
  "validate_network_config ae doh stun =
    (let doh_servers = clean_servers doh; stun_servers = clean_servers stun in
     if doh_servers = [] then Inl ''at least one DoH endpoint is required''
     else if length doh_servers > 8 then Inl ''at most 8 DoH endpoints are allowed''
     else case first_error (check_doh_server ae) doh_servers of
       Some e \<Rightarrow> Inl e
     | None \<Rightarrow>
        if length stun_servers > 16 then Inl ''at most 16 STUN endpoints are allowed''
        else case first_error check_stun_server stun_servers of
          Some e \<Rightarrow> Inl e
        | None \<Rightarrow> Inr (doh_servers, stun_servers))"

subsection \<open>Views\<close>

record server_config =
  sc_tenant :: string
  sc_server_key :: string
  sc_session_ttl_seconds :: u64
  sc_doh_servers :: "string list"
  sc_stun_servers :: "string list"

record peer_view_row =
  pv_node_id :: string
  pv_name :: string
  pv_notes :: string
  pv_status :: string
  pv_candidates :: "candidate list"
  pv_virtual_ipv4 :: "u32 option"
  pv_virtual_ipv6 :: "u128 option"
  pv_capabilities :: "peer_capability list"
  pv_last_seen :: "u64 option"
  pv_credential_expires_at :: "u64 option"
  pv_mtu :: "u16 option"

record invite_view =
  vi_id :: string
  vi_name :: string
  vi_notes :: string
  vi_created_at :: u64
  vi_expires_at :: u64
  vi_status :: string

definition server_config_of :: "admin_env \<Rightarrow> coord_state \<Rightarrow> server_config" where
  "server_config_of ae s =
    \<lparr>sc_tenant = co_tenant s,
     sc_server_key = ce_b64_encode (ae_coord ae)
       (to_be 32 (signer_public (ce_prims (ae_coord ae)) (co_signer s))),
     sc_session_ttl_seconds = SESSION_TTL_SECONDS,
     sc_doh_servers = co_doh_servers s, sc_stun_servers = co_stun_servers s\<rparr>"

fun list_min :: "'a::linorder list \<Rightarrow> 'a option" where
  "list_min [] = None"
| "list_min (x # xs) = Some (fold min xs x)"

definition peer_view_of :: "admin_env \<Rightarrow> coord_state \<Rightarrow> node_id \<Rightarrow> peer_row \<Rightarrow> peer_view_row" where
  "peer_view_of ae s node_id r =
    \<lparr>pv_node_id = node_id_display node_id, pv_name = row_name r, pv_notes = row_notes r,
     pv_status = (if row_revoked r then ''revoked''
       else if map_of (co_online s) node_id \<noteq> None then ''online'' else ''offline''),
     pv_candidates = row_candidates r, pv_virtual_ipv4 = row_virtual_ipv4 r,
     pv_virtual_ipv6 = row_virtual_ipv6 r, pv_capabilities = row_capabilities r,
     pv_last_seen = (if sint (row_last_seen r) > 0 then Some (row_last_seen r) else None),
     pv_credential_expires_at =
       map_option mc_expires_at (ce_cred_of_json (ae_coord ae) (row_credential r)),
     pv_mtu = Option.bind (map_of (co_runtime_status s) node_id) (\<lambda>m. list_min (map snd m))\<rparr>"

definition admin_peers :: "admin_env \<Rightarrow> coord_state \<Rightarrow> peer_view_row list" where
  "admin_peers ae s =
    map (\<lambda>(n, r). peer_view_of ae s n r)
      (sort_key (\<lambda>(n, r). row_name r) (sort_key fst (co_peers s)))"

definition invite_status :: "u64 \<Rightarrow> invite_row \<Rightarrow> string" where
  "invite_status unix_time iv =
    (if iv_revoked iv then ''revoked''
     else if iv_used iv then ''used''
     else if sint (iv_expires_at iv) \<le> sint unix_time then ''expired''
     else ''pending'')"

definition invite_view_of :: "u64 \<Rightarrow> invite_row \<Rightarrow> invite_view" where
  "invite_view_of unix_time iv =
    \<lparr>vi_id = iv_id iv, vi_name = iv_name iv, vi_notes = iv_notes iv,
     vi_created_at = clamp_i64 (iv_created_at iv), vi_expires_at = clamp_i64 (iv_expires_at iv),
     vi_status = invite_status unix_time iv\<rparr>"

definition admin_invites :: "u64 \<Rightarrow> coord_state \<Rightarrow> invite_view list" where
  "admin_invites unix_time s =
    map (\<lambda>(h, iv). invite_view_of unix_time iv)
      (sort_key (\<lambda>(h, iv). - sint (iv_created_at iv)) (co_invites s))"

subsection \<open>Handlers\<close>

datatype admin_response =
    StatusError nat string
  | NoContent
  | LoginOk string u64 string
  | UserOk string
  | ConfigOk server_config
  | PeersOk "peer_view_row list"
  | PeerOk peer_view_row
  | InvitesOk "invite_view list"
  | InviteOk created_invite
  | OkTrue
  | ExecutableOk bytes
  | AdminPanic

definition unauthorized :: admin_response where
  "unauthorized = StatusError 401 ''authentication required''"

definition internal_error :: admin_response where
  "internal_error = StatusError 500 ''internal server error''"

type_synonym admin_state = "admin_auth \<times> coord_state"

definition login_handler ::
  "admin_env \<Rightarrow> u64 \<Rightarrow> string \<Rightarrow> string \<Rightarrow> string \<Rightarrow> admin_state \<Rightarrow> admin_response \<times> admin_state" where
  "login_handler ae unix_time token username password st =
    (case admin_login ae unix_time token (fst st) username password of
       (Some (token, expires_at), auth) \<Rightarrow> (LoginOk token expires_at (aa_username auth), auth, snd st)
     | (None, auth) \<Rightarrow> (StatusError 401 ''invalid username or password'', auth, snd st))"

definition logout_handler :: "string option \<Rightarrow> admin_state \<Rightarrow> admin_response \<times> admin_state" where
  "logout_handler header st = (NoContent, admin_logout (fst st) header, snd st)"

text \<open>\<open>require_admin\<close> before the body of a handler.\<close>

definition require_admin ::
  "u64 \<Rightarrow> string option \<Rightarrow> (coord_state \<Rightarrow> admin_response \<times> coord_state) \<Rightarrow> admin_state \<Rightarrow>
   admin_response \<times> admin_state" where
  "require_admin unix_time header body st =
    (case authorize unix_time (fst st) header of
       (None, auth) \<Rightarrow> (unauthorized, auth, snd st)
     | (Some _, auth) \<Rightarrow> (case body (snd st) of (response, s) \<Rightarrow> (response, auth, s)))"

definition update_config_body ::
  "admin_env \<Rightarrow> string list \<Rightarrow> string list \<Rightarrow> coord_state \<Rightarrow> admin_response \<times> coord_state" where
  "update_config_body ae doh stun s =
    (case validate_network_config ae doh stun of
       Inl e \<Rightarrow> (StatusError 400 e, s)
     | Inr (doh', stun') \<Rightarrow>
        (case update_network_config s doh' stun' of
           (Inl _, s') \<Rightarrow> (internal_error, s')
         | (Inr _, s') \<Rightarrow> (ConfigOk (server_config_of ae s'), s')))"

definition with_node_id ::
  "string \<Rightarrow> (node_id \<Rightarrow> coord_state \<Rightarrow> admin_response \<times> coord_state) \<Rightarrow> coord_state \<Rightarrow>
   admin_response \<times> coord_state" where
  "with_node_id text body s =
    (case node_id_from_str text of
       None \<Rightarrow> (AdminPanic, s)
     | Some (Inl _) \<Rightarrow> (StatusError 400 ''invalid node id'', s)
     | Some (Inr node_id) \<Rightarrow> body node_id s)"

definition update_peer_body ::
  "admin_env \<Rightarrow> string \<Rightarrow> string \<Rightarrow> string \<Rightarrow> coord_state \<Rightarrow> admin_response \<times> coord_state" where
  "update_peer_body ae text name notes s =
    (if length name > 200 \<or> length notes > 2000
     then (StatusError 400 ''name or notes is too long'', s)
     else with_node_id text (\<lambda>node_id s.
       case update_peer_metadata s node_id name notes of
         (False, s') \<Rightarrow> (StatusError 404 ''peer not found'', s')
       | (True, s') \<Rightarrow>
          (case find (\<lambda>p. pv_node_id p = node_id_display node_id) (admin_peers ae s') of
             Some p \<Rightarrow> (PeerOk p, s')
           | None \<Rightarrow> (StatusError 404 ''peer not found'', s'))) s)"

definition drop_response ::
  "(coord_error + bool) \<times> outbox \<times> coord_state \<Rightarrow> admin_response \<times> coord_state" where
  "drop_response r =
    (case r of
       (Inr True, _, s') \<Rightarrow> (OkTrue, s')
     | (Inr False, _, s') \<Rightarrow> (StatusError 404 ''peer not found'', s')
     | (Inl _, _, s') \<Rightarrow> (internal_error, s'))"

definition revoke_peer_body :: "string \<Rightarrow> coord_state \<Rightarrow> admin_response \<times> coord_state" where
  "revoke_peer_body text = with_node_id text (\<lambda>n s. drop_response (revoke_peer_inner s n))"

definition delete_peer_body :: "string \<Rightarrow> coord_state \<Rightarrow> admin_response \<times> coord_state" where
  "delete_peer_body text = with_node_id text (\<lambda>n s. drop_response (delete_peer_inner s n))"

definition create_invite_body ::
  "admin_env \<Rightarrow> u64 \<Rightarrow> string \<Rightarrow> string \<Rightarrow> string \<Rightarrow> string \<Rightarrow> string \<Rightarrow> u64 \<Rightarrow> coord_state \<Rightarrow>
   admin_response \<times> coord_state" where
  "create_invite_body ae unix_time invite_token download_token invite_id name notes ttl_seconds s =
    (if length name > 200 \<or> length notes > 2000
     then (StatusError 400 ''name or notes is too long'', s)
     else if ttl_seconds = 0 \<or> ttl_seconds > 30 * 24 * 60 * 60
     then (StatusError 400 ''ttl_seconds must be between 1 and 2592000'', s)
     else case create_invite (ae_coord ae) unix_time invite_token download_token invite_id s
         name notes ttl_seconds of
       (Inr invite, s') \<Rightarrow> (InviteOk invite, s')
     | (Inl _, s') \<Rightarrow> (internal_error, s'))"

definition delete_invite_body :: "string \<Rightarrow> coord_state \<Rightarrow> admin_response \<times> coord_state" where
  "delete_invite_body invite_id s =
    (if invite_id \<in> iv_id ` snd ` set (co_invites s) then
       (OkTrue, s\<lparr>co_invites := map (\<lambda>(h, iv). (h, if iv_id iv = invite_id
          then iv\<lparr>iv_revoked := True, iv_download_used := True\<rparr> else iv)) (co_invites s)\<rparr>)
     else (StatusError 404 ''invite not found'', s))"

text \<open>The download route has its own token; \<open>executable\<close> is what reading the server's executable
  gives.\<close>

definition download_cli ::
  "admin_env \<Rightarrow> u64 \<Rightarrow> (string + bytes) \<Rightarrow> string option \<Rightarrow> admin_state \<Rightarrow> admin_response \<times> admin_state" where
  "download_cli ae unix_time executable header st =
    (case header of
       None \<Rightarrow> (StatusError 401 ''download token required'', st)
     | Some token \<Rightarrow>
        (case consume_download_token (ae_coord ae) unix_time (snd st) token of
           (False, s') \<Rightarrow> (StatusError 401 ''invalid or expired download token'', fst st, s')
         | (True, s') \<Rightarrow>
            (case executable of
               Inl _ \<Rightarrow> (internal_error, fst st, s')
             | Inr data \<Rightarrow> (ExecutableOk data, fst st, s'))))"

text \<open>The router. The first group of routes needs no session.\<close>

datatype admin_request =
    LoginRoute string string
  | LogoutRoute
  | DownloadRoute "string option" "string + bytes"
  | MeRoute
  | ConfigRoute
  | UpdateConfigRoute "string list" "string list"
  | ListPeersRoute
  | UpdatePeerRoute string string string
  | RevokePeerRoute string
  | DeletePeerRoute string
  | ListInvitesRoute
  | CreateInviteRoute string string u64
  | DeleteInviteRoute string

fun protected_body ::
  "admin_env \<Rightarrow> u64 \<Rightarrow> string \<Rightarrow> string \<times> string \<times> string \<Rightarrow> admin_request \<Rightarrow>
   (coord_state \<Rightarrow> admin_response \<times> coord_state) option" where
  "protected_body ae t user tokens MeRoute = Some (\<lambda>s. (UserOk user, s))"
| "protected_body ae t user tokens ConfigRoute = Some (\<lambda>s. (ConfigOk (server_config_of ae s), s))"
| "protected_body ae t user tokens (UpdateConfigRoute doh stun) = Some (update_config_body ae doh stun)"
| "protected_body ae t user tokens ListPeersRoute = Some (\<lambda>s. (PeersOk (admin_peers ae s), s))"
| "protected_body ae t user tokens (UpdatePeerRoute text name notes) =
    Some (update_peer_body ae text name notes)"
| "protected_body ae t user tokens (RevokePeerRoute text) = Some (revoke_peer_body text)"
| "protected_body ae t user tokens (DeletePeerRoute text) = Some (delete_peer_body text)"
| "protected_body ae t user tokens ListInvitesRoute = Some (\<lambda>s. (InvitesOk (admin_invites t s), s))"
| "protected_body ae t user tokens (CreateInviteRoute name notes ttl) =
    Some (create_invite_body ae t (fst tokens) (fst (snd tokens)) (snd (snd tokens)) name notes ttl)"
| "protected_body ae t user tokens (DeleteInviteRoute i) = Some (delete_invite_body i)"
| "protected_body ae t user tokens _ = None"

definition admin_handle ::
  "admin_env \<Rightarrow> u64 \<Rightarrow> string \<times> string \<times> string \<Rightarrow> string option \<Rightarrow> admin_request \<Rightarrow> admin_state \<Rightarrow>
   admin_response \<times> admin_state" where
  "admin_handle ae unix_time tokens header request st =
    (case request of
       LoginRoute username password \<Rightarrow> login_handler ae unix_time (fst tokens) username password st
     | LogoutRoute \<Rightarrow> logout_handler header st
     | DownloadRoute token executable \<Rightarrow> download_cli ae unix_time executable token st
     | _ \<Rightarrow>
        (case protected_body ae unix_time (aa_username (fst st)) tokens request of
           Some body \<Rightarrow> require_admin unix_time header body st
         | None \<Rightarrow> (NoContent, st)))"

text \<open>Runs of the interface, with the requests handled, the latest first; between two requests the
  server state may change in any way.\<close>

type_synonym admin_event = "u64 \<times> (string \<times> string \<times> string) \<times> string option \<times> admin_request"

inductive admin_run :: "admin_env \<Rightarrow> admin_auth \<Rightarrow> admin_event list \<Rightarrow> admin_state \<Rightarrow> bool" for ae auth0 where
  run_start: "admin_run ae auth0 [] (auth0, s)"
| run_request: "admin_run ae auth0 history st \<Longrightarrow>
    admin_run ae auth0 ((t, tokens, header, request) # history)
      (snd (admin_handle ae t tokens header request st))"
| run_server: "admin_run ae auth0 history (auth, s) \<Longrightarrow> admin_run ae auth0 history (auth, s')"

text \<open>The session \<open>token\<close> with expiry \<open>e\<close> was given to someone who knew the password.\<close>

definition issued :: "admin_env \<Rightarrow> admin_auth \<Rightarrow> admin_event list \<Rightarrow> string \<Rightarrow> u64 \<Rightarrow> bool" where
  "issued ae auth0 history token e \<longleftrightarrow>
    (\<exists>t tokens header password.
       (t, tokens, header, LoginRoute (aa_username auth0) password) \<in> set history
       \<and> ae_verify_password ae (aa_password_hash auth0) password = Some True
       \<and> token = fst tokens \<and> e = saturating_add t SESSION_TTL_SECONDS)"

text \<open>An instance to evaluate.\<close>

definition sample_env :: coord_env where
  "sample_env = \<lparr>ce_prims = sample_prims, ce_b64_encode = map (\<lambda>b. char_of (unat b)),
     ce_b64_decode = (\<lambda>s. Inr (as_bytes s)),
     ce_cred_to_json = signing_bytes, ce_cred_of_json = (\<lambda>_. None)\<rparr>"

definition sample_admin :: admin_env where
  "sample_admin = \<lparr>ae_coord = sample_env, ae_verify_password = (\<lambda>h p. Some (h = p)),
     ae_url_parse = (\<lambda>_. Inl [])\<rparr>"

definition sample_auth :: admin_auth where
  "sample_auth = \<lparr>aa_username = ''admin'', aa_password_hash = ''pw'', aa_sessions = []\<rparr>"

subsection \<open>Lemmas\<close>

lemma authorize_cases:
  "authorize t auth header = (r, auth') \<Longrightarrow>
   (auth' = auth \<or> (\<exists>token. auth' = auth\<lparr>aa_sessions := AList.delete token (aa_sessions auth)\<rparr>))
   \<and> (\<forall>e. r = Some e \<longrightarrow> auth' = auth \<and> t < e \<and> (\<exists>token. bearer header = Some token \<and> map_of (aa_sessions auth) token = Some e))"
  by (auto simp: authorize_def split: option.splits if_splits)

lemma require_admin_auth:
  "fst (snd (require_admin t header body st)) = snd (authorize t (fst st) header)"
  by (auto simp: require_admin_def split: option.splits prod.splits)

text \<open>What a request can do to the session table.\<close>

lemma admin_handle_auth:
  "fst (snd (admin_handle ae t tokens header request st)) = fst st
   \<or> (\<exists>token. fst (snd (admin_handle ae t tokens header request st)) =
        (fst st)\<lparr>aa_sessions := AList.delete token (aa_sessions (fst st))\<rparr>)
   \<or> (\<exists>password. request = LoginRoute (aa_username (fst st)) password
        \<and> ae_verify_password ae (aa_password_hash (fst st)) password = Some True
        \<and> fst (snd (admin_handle ae t tokens header request st)) = (fst st)\<lparr>aa_sessions :=
            AList.update (fst tokens) (saturating_add t SESSION_TTL_SECONDS)
              (filter (\<lambda>(_, expires). expires > t) (aa_sessions (fst st)))\<rparr>)"
proof (cases "protected_body ae t (aa_username (fst st)) tokens request")
  case None
  then show ?thesis
    by (cases request)
      (auto simp: admin_handle_def login_handler_def admin_login_def logout_handler_def admin_logout_def
        download_cli_def Let_def split: option.splits sum.splits prod.splits if_splits bool.splits)
next
  case (Some body)
  then have "admin_handle ae t tokens header request st = require_admin t header body st"
    by (cases request) (auto simp: admin_handle_def)
  then show ?thesis
    using authorize_cases [of t "fst st" header] require_admin_auth [of t header body st]
    by (metis prod.collapse)
qed

lemma map_of_filter_values:
  "distinct (map fst al) \<Longrightarrow> map_of (filter (\<lambda>(_, v). P v) al) k = Some v \<Longrightarrow> map_of al k = Some v"
  by (auto intro!: map_of_is_SomeI dest!: map_of_SomeD)

lemma issued_mono: "issued ae auth0 history token e \<Longrightarrow> issued ae auth0 (x # history) token e"
  unfolding issued_def by (elim exE conjE) (intro exI conjI, rule list.set_intros(2), assumption+)

lemma issued_now:
  "ae_verify_password ae (aa_password_hash auth0) password = Some True \<Longrightarrow>
   issued ae auth0 ((t, tokens, header, LoginRoute (aa_username auth0) password) # history)
     (fst tokens) (saturating_add t SESSION_TTL_SECONDS)"
  unfolding issued_def by (intro exI conjI, rule list.set_intros(1)) auto

lemma admin_run_sessions:
  assumes "admin_run ae auth0 history st" "aa_sessions auth0 = []"
  shows "aa_username (fst st) = aa_username auth0 \<and> aa_password_hash (fst st) = aa_password_hash auth0
    \<and> distinct (map fst (aa_sessions (fst st)))
    \<and> (\<forall>token e. map_of (aa_sessions (fst st)) token = Some e \<longrightarrow> issued ae auth0 history token e)"
  using assms
proof (induction rule: admin_run.induct)
  case (run_request history st t tokens header request)
  let ?h = "(t, tokens, header, request) # history"
  have IH: "aa_username (fst st) = aa_username auth0" "aa_password_hash (fst st) = aa_password_hash auth0"
    "distinct (map fst (aa_sessions (fst st)))"
    "map_of (aa_sessions (fst st)) token = Some e \<Longrightarrow> issued ae auth0 ?h token e" for token e
    using run_request issued_mono by auto
  consider (same) "fst (snd (admin_handle ae t tokens header request st)) = fst st"
    | (del) token where "fst (snd (admin_handle ae t tokens header request st)) =
        (fst st)\<lparr>aa_sessions := AList.delete token (aa_sessions (fst st))\<rparr>"
    | (login) password where "request = LoginRoute (aa_username (fst st)) password"
        "ae_verify_password ae (aa_password_hash (fst st)) password = Some True"
        "fst (snd (admin_handle ae t tokens header request st)) = (fst st)\<lparr>aa_sessions :=
            AList.update (fst tokens) (saturating_add t SESSION_TTL_SECONDS)
              (filter (\<lambda>(_, expires). expires > t) (aa_sessions (fst st)))\<rparr>"
    using admin_handle_auth [of ae t tokens header request st] by blast
  then show ?case
  proof cases
    case same
    then show ?thesis using IH by simp
  next
    case del
    then show ?thesis using IH by (auto simp: distinct_delete delete_conv' split: if_splits)
  next
    case login
    have "issued ae auth0 ?h (fst tokens) (saturating_add t SESSION_TTL_SECONDS)"
      using login(1,2) IH(1,2) issued_now by metis
    then show ?thesis
      using login(3) IH map_of_filter_values [OF IH(3)]
      by (auto simp: distinct_update update_conv' distinct_map_filter split: if_splits)
  qed
qed auto

lemma first_error_None: "first_error check xs = None \<longleftrightarrow> (\<forall>x \<in> set xs. check x = None)"
  by (induction xs) (auto split: option.splits)

lemma valid_stun_endpoint_iff: "valid_stun_endpoint v \<longleftrightarrow> (\<exists>hp. split_server v = Inr hp)"
  by (auto simp: valid_stun_endpoint_def split_server_def split: option.splits if_splits prod.splits)

lemma validate_network_config_iff:
  "validate_network_config ae doh stun = Inr (d, u) \<longleftrightarrow>
   d = clean_servers doh \<and> u = clean_servers stun \<and> d \<noteq> [] \<and> length d \<le> 8 \<and> length u \<le> 16
   \<and> (\<forall>x \<in> set d. check_doh_server ae x = None) \<and> (\<forall>x \<in> set u. check_stun_server x = None)"
  unfolding first_error_None [symmetric]
  by (auto simp: validate_network_config_def Let_def split: option.splits)

subsection \<open>Properties\<close>

text \<open>C20: a request to any route of the interface but login, logout and download is refused
  without touching the server, unless it carries a session that is not expired and that an
  earlier login with the right user name and password was given. Sessions end one day after
  the login. This holds for every run of the interface from an empty session table.\<close>

theorem admin_requests_need_login:
  assumes "admin_run ae auth0 history (auth, s)" "aa_sessions auth0 = []"
    and "protected_body ae t (aa_username auth) tokens request \<noteq> None"
    and "admin_handle ae t tokens header request (auth, s) = (response, auth', s')"
  shows "response = unauthorized \<and> s' = s
    \<or> (\<exists>token e. bearer header = Some token \<and> t < e \<and> issued ae auth0 history token e)"
proof -
  obtain body where "protected_body ae t (aa_username auth) tokens request = Some body"
    using assms(3) by auto
  then have handle: "admin_handle ae t tokens header request (auth, s) = require_admin t header body (auth, s)"
    by (cases request) (auto simp: admin_handle_def)
  obtain r auth1 where r: "authorize t auth header = (r, auth1)" by (metis surj_pair)
  show ?thesis
  proof (cases r)
    case None
    then show ?thesis using assms(4) handle r by (simp add: require_admin_def)
  next
    case (Some e)
    then show ?thesis
      using authorize_cases [OF r] admin_run_sessions [OF assms(1,2)] unfolding fst_conv by blast
  qed
qed

theorem admin_requests_need_login_witness:
  "\<exists>token e. bearer (Some ''Bearer tok'') = Some token \<and> (200 :: u64) < e \<and>
     issued sample_admin sample_auth
       [(100, (''tok'', [], []), None, LoginRoute ''admin'' ''pw'')] token e"
proof -
  let ?auth = "sample_auth\<lparr>aa_sessions := [(''tok'', saturating_add 100 SESSION_TTL_SECONDS)]\<rparr>"
  have "admin_run sample_admin sample_auth [(100, (''tok'', [], []), None, LoginRoute ''admin'' ''pw'')]
      (snd (admin_handle sample_admin 100 (''tok'', [], []) None (LoginRoute ''admin'' ''pw'') (sample_auth, s)))"
    for s
    by (intro admin_run.intros)
  moreover have "snd (admin_handle sample_admin 100 (''tok'', [], []) None (LoginRoute ''admin'' ''pw'') (sample_auth, s))
      = (?auth, s)" for s
    by (simp add: admin_handle_def login_handler_def admin_login_def sample_admin_def sample_auth_def Let_def)
  ultimately have run: "admin_run sample_admin sample_auth
      [(100, (''tok'', [], []), None, LoginRoute ''admin'' ''pw'')] (?auth, s)" for s
    by metis
  have handle: "admin_handle sample_admin 200 ([], [], []) (Some ''Bearer tok'') MeRoute (?auth, s)
      = (UserOk ''admin'', ?auth, s)" for s
    by (simp add: admin_handle_def require_admin_def authorize_def bearer_def strip_prefix_def
        sample_auth_def saturating_add_def SESSION_TTL_SECONDS_def)
  have "aa_sessions sample_auth = []"
    and "protected_body sample_admin 200 (aa_username ?auth) ([], [], []) MeRoute \<noteq> None"
    by (simp_all add: sample_auth_def)
  then show ?thesis
    using admin_requests_need_login [OF run _ _ handle] by (simp add: unauthorized_def)
qed

text \<open>The endpoint check of the administration interface and the parser of the STUN client
  are written separately and agree: the interface accepts exactly the texts the client can
  use.\<close>

lemma stun_endpoint_checks_agree:
  "valid_stun_endpoint v = (\<exists>hp. split_server v = Inr hp)"
  by (rule valid_stun_endpoint_iff)

end
