(* ===== verification/Vela_Coord_Inv.thy ===== *)
theory Vela_Coord_Inv
  imports Vela_Admin
begin

section \<open>The coordinator: invariant, snapshots, broadcast\<close>

text \<open>
  What the coordination server keeps true of its tables and of its online map through every
  operation, and what follows: every snapshot it publishes is accepted by the validation of
  the nodes and verifies under the server's key, addresses are allocated from the pool without
  clashes, invites are used once, and a scheduled broadcast is not lost.
\<close>

subsection \<open>Specification\<close>

text \<open>The hosts 1 to 65534 of \<open>10.254.0.0/16\<close>.\<close>

definition in_pool :: "u32 \<Rightarrow> bool" where
  "in_pool a \<longleftrightarrow> (\<exists>h. 1 \<le> h \<and> h \<le> 65534 \<and> unat a = unat VIRTUAL_IPV4_NETWORK_BASE + h)"

definition row_ok :: "coord_env \<Rightarrow> node_id \<Rightarrow> peer_row \<Rightarrow> bool" where
  "row_ok env n r \<longleftrightarrow> n = NodeId (cp_blake3 (ce_prims env) (to_be 32 (row_signing_public r)))
     \<and> row_virtual_ipv6 r = None \<and> (\<forall>a. row_virtual_ipv4 r = Some a \<longrightarrow> in_pool a)"

definition peers_inv :: "coord_env \<Rightarrow> (node_id \<times> peer_row) list \<Rightarrow> bool" where
  "peers_inv env ps \<longleftrightarrow> distinct (map fst ps) \<and> (\<forall>n r. map_of ps n = Some r \<longrightarrow> row_ok env n r)
     \<and> (\<forall>n r m q a. map_of ps n = Some r \<and> map_of ps m = Some q
          \<and> row_virtual_ipv4 r = Some a \<and> row_virtual_ipv4 q = Some a \<longrightarrow> n = m)"

definition active :: "(node_id \<times> peer_row) list \<Rightarrow> node_id \<Rightarrow> bool" where
  "active ps n \<longleftrightarrow> (\<exists>r. map_of ps n = Some r \<and> \<not> row_revoked r)"

definition online_ok :: "(node_id \<times> peer_row) list \<Rightarrow> (node_id \<times> u64 list) list \<Rightarrow> bool" where
  "online_ok ps online \<longleftrightarrow> distinct (map fst online) \<and> (\<forall>n \<in> fst ` set online. active ps n)"

definition coord_inv :: "coord_env \<Rightarrow> coord_state \<Rightarrow> bool" where
  "coord_inv env s \<longleftrightarrow> peers_inv env (co_peers s)
     \<and> co_generation s \<noteq> 0 \<and> unat (co_generation s) < 2 ^ 63 \<and> (co_pending s \<longrightarrow> co_running s)
     \<and> distinct (map fst (co_online s))
     \<and> (unat (co_generation s) < 2 ^ 63 - 1 \<longrightarrow> online_ok (co_peers s) (co_online s))"

text \<open>The hosts of the pool, and the address a row has after the updates of a migration.\<close>

definition pool_host :: "u32 \<Rightarrow> bool" where
  "pool_host h \<longleftrightarrow> 1 \<le> unat h \<and> unat h \<le> 65534"

definition migrated :: "(node_id \<times> u32) list \<Rightarrow> node_id \<Rightarrow> u32 option \<Rightarrow> u32 option" where
  "migrated updates n a = (case map_of updates n of Some b \<Rightarrow> Some b | None \<Rightarrow> a)"

text \<open>An operation of the server, with every argument free: a text message of any connection,
  the end of a connection, a request to the administration interface, and the calls of the
  library interface.\<close>

inductive coord_op :: "coord_env \<Rightarrow> coord_state \<Rightarrow> coord_state \<Rightarrow> bool" for env where
  op_message: "coord_op env s (snd (snd (handle_message env t is_open c registered request s)))"
| op_close: "coord_op env s (close_socket s c registered)"
| op_admin: "ae_coord ae = env \<Longrightarrow>
    coord_op env s (snd (snd (admin_handle ae t tokens header request (auth, s))))"
| op_revoke: "coord_op env s (snd (snd (revoke_peer s n)))"
| op_delete: "coord_op env s (snd (snd (delete_peer_inner s n)))"
| op_invite: "coord_op env s (snd (create_invite env t invite_token download_token i s name notes ttl))"
| op_metadata: "coord_op env s (snd (update_peer_metadata s n name notes))"

text \<open>The server with its broadcast task: an operation that finds no task running and requests a
  broadcast starts one.\<close>

inductive coord_step :: "coord_env \<Rightarrow> loop_pc \<times> coord_state \<Rightarrow> loop_pc \<times> coord_state \<Rightarrow> bool" for env where
  step_op: "coord_op env s s' \<Longrightarrow>
    coord_step env (pc, s) (if \<not> co_running s \<and> co_running s' then LoopSleep else pc, s')"
| step_loop: "coord_step env (pc, s) (broadcast_loop_step env t ok (pc, s))"

text \<open>A database the server can be opened on: node ids are keys, each the hash of the signing
  key in its row, and no row has an IPv6 address (the server never stores one).\<close>

definition db_ok :: "coord_env \<Rightarrow> coord_db \<Rightarrow> bool" where
  "db_ok env db \<longleftrightarrow> distinct (map fst (db_peers db)) \<and> (\<forall>(n, r) \<in> set (db_peers db).
     n = NodeId (cp_blake3 (ce_prims env) (to_be 32 (row_signing_public r))) \<and> row_virtual_ipv6 r = None)"

inductive coord_reachable :: "coord_env \<Rightarrow> coord_db \<Rightarrow> loop_pc \<times> coord_state \<Rightarrow> bool" for env db where
  reach_open: "open_server env tenant signer doh stun db = Inr s \<Longrightarrow> coord_reachable env db (LoopStopped, s)"
| reach_step: "coord_reachable env db x \<Longrightarrow> coord_step env x y \<Longrightarrow> coord_reachable env db y"

text \<open>Operations request a broadcast or leave the request alone; they never clear it.\<close>

definition flags_kept :: "coord_state \<Rightarrow> coord_state \<Rightarrow> bool" where
  "flags_kept s s' \<longleftrightarrow> co_pending s' = co_pending s \<and> co_running s' = co_running s
     \<or> co_pending s' \<and> co_running s'"

text \<open>The invariant of the server with its task: the flag says whether the task runs.\<close>

definition sys_inv :: "coord_env \<Rightarrow> loop_pc \<times> coord_state \<Rightarrow> bool" where
  "sys_inv env x \<longleftrightarrow> coord_inv env (snd x) \<and> (co_running (snd x) \<longleftrightarrow> fst x \<noteq> LoopStopped)"

text \<open>The rows a snapshot shows, in order, and what it shows of one.\<close>

definition shown_rows :: "coord_state \<Rightarrow> (node_id \<times> peer_row) list" where
  "shown_rows s = sort_key fst (filter (\<lambda>(n, r). \<not> row_revoked r) (co_peers s))"

definition shown_peer :: "node_id \<times> peer_row \<Rightarrow> peer_info" where
  "shown_peer x = private_peer (stored_of_row (fst x) (snd x))"

subsection \<open>Addresses\<close>

lemma unat_host_at:
  assumes "unat start < 65534" "offset < 65534"
  shows "unat (host_at start offset) = 1 + (unat start + offset) mod 65534"
proof -
  define r where "r = (unat start + offset) mod 65534"
  have o: "unat (word_of_nat offset :: u32) = offset"
    using assms by (simp add: unat_of_nat)
  have "unat (start + word_of_nat offset) = unat start + offset"
    using unat_add_lem [of start "word_of_nat offset"] o assms by simp
  then have "unat ((start + word_of_nat offset) mod VIRTUAL_IPV4_USABLE_HOSTS) = r"
    by (simp add: unat_mod VIRTUAL_IPV4_USABLE_HOSTS_def r_def)
  moreover have "r < 65534" by (simp add: r_def)
  ultimately show ?thesis
    unfolding r_def [symmetric]
    using unat_add_lem [of 1 "(start + word_of_nat offset) mod VIRTUAL_IPV4_USABLE_HOSTS"]
    by (simp add: host_at_def)
qed

lemma pool_address:
  assumes "unat start < 65534" "offset < 65534"
  shows "unat (VIRTUAL_IPV4_NETWORK_BASE + host_at start offset) =
    unat VIRTUAL_IPV4_NETWORK_BASE + (1 + (unat start + offset) mod 65534)"
proof -
  define r where "r = (unat start + offset) mod 65534"
  have "r < 65534" by (simp add: r_def)
  then show ?thesis
    using unat_host_at [OF assms] unat_add_lem [of VIRTUAL_IPV4_NETWORK_BASE "host_at start offset"]
    unfolding r_def [symmetric] by (simp add: VIRTUAL_IPV4_NETWORK_BASE_def)
qed

lemma pool_address_in_pool:
  assumes "unat start < 65534" "offset < 65534"
  shows "in_pool (VIRTUAL_IPV4_NETWORK_BASE + host_at start offset)"
proof -
  have "1 + (unat start + offset) mod 65534 \<le> 65534"
    using mod_less_divisor [of 65534 "unat start + offset"] by linarith
  then show ?thesis unfolding in_pool_def using pool_address [OF assms] by (metis le_add1)
qed

lemma pool_covered:
  assumes "unat start < 65534" "in_pool a"
  obtains offset where "offset < 65534" "a = VIRTUAL_IPV4_NETWORK_BASE + host_at start offset"
proof -
  obtain h where h: "1 \<le> h" "h \<le> 65534" "unat a = unat VIRTUAL_IPV4_NETWORK_BASE + h"
    using assms(2) by (auto simp: in_pool_def)
  define k where "k = (h - 1 + (65534 - unat start)) mod 65534"
  have k: "k < 65534" by (simp add: k_def)
  have "(unat start + k) mod 65534 = (unat start + (h - 1 + (65534 - unat start))) mod 65534"
    by (simp add: k_def mod_add_right_eq)
  also have "\<dots> = (h - 1 + 65534) mod 65534" using assms(1) by simp
  also have "\<dots> = h - 1" using h by (simp only: mod_add_self2 mod_less)
  finally have "unat (VIRTUAL_IPV4_NETWORK_BASE + host_at start k) = unat a"
    using pool_address [OF assms(1) k] h by simp
  then show thesis using that k by (metis word_unat_eq_iff)
qed

lemma allocate_loop_Inr:
  "allocate_loop s start offset n = Inr a \<Longrightarrow>
   \<exists>k. k < offset + n \<and> a = VIRTUAL_IPV4_NETWORK_BASE + host_at start k \<and> \<not> address_used s a"
proof (induction n arbitrary: offset)
  case (Suc n)
  show ?case
  proof (cases "address_used s (VIRTUAL_IPV4_NETWORK_BASE + host_at start offset)")
    case True
    then show ?thesis using Suc.IH [of "Suc offset"] Suc.prems by (simp add: Let_def)
  next
    case False
    then show ?thesis using Suc.prems by (auto simp: Let_def intro: exI [of _ offset])
  qed
qed simp

lemma allocate_loop_Inl:
  "allocate_loop s start offset n = Inl e \<Longrightarrow> e = AddressPoolExhausted
     \<and> (\<forall>k < n. address_used s (VIRTUAL_IPV4_NETWORK_BASE + host_at start (offset + k)))"
proof (induction n arbitrary: offset)
  case (Suc n)
  then have used: "address_used s (VIRTUAL_IPV4_NETWORK_BASE + host_at start offset)"
    and rest: "allocate_loop s start (Suc offset) n = Inl e"
    by (auto simp: Let_def split: if_splits)
  from Suc.IH [OF rest] used show ?case by (auto simp: less_Suc_eq_0_disj)
qed simp

lemma allocation_start_less: "unat (allocation_start env n) < 65534"
  by (simp add: allocation_start_def unat_mod VIRTUAL_IPV4_USABLE_HOSTS_def)

lemma allocate_fresh:
  "allocate_virtual_ipv4 env s n = Inr a \<Longrightarrow> in_pool a \<and> \<not> address_used s a"
  using allocate_loop_Inr [of s "allocation_start env n" 0 65534 a]
    pool_address_in_pool [OF allocation_start_less]
  by (auto simp: allocate_virtual_ipv4_def VIRTUAL_IPV4_USABLE_HOSTS_def)

lemma allocate_fails:
  assumes "allocate_virtual_ipv4 env s n = Inl e"
  shows "e = AddressPoolExhausted" and "in_pool a \<Longrightarrow> address_used s a"
proof -
  have all: "e = AddressPoolExhausted \<and>
      (\<forall>k < 65534. address_used s (VIRTUAL_IPV4_NETWORK_BASE + host_at (allocation_start env n) k))"
    using allocate_loop_Inl [of s "allocation_start env n" 0 65534 e] assms
    by (simp add: allocate_virtual_ipv4_def VIRTUAL_IPV4_USABLE_HOSTS_def)
  then show "e = AddressPoolExhausted" by blast
  show "address_used s a" if "in_pool a"
    using pool_covered [OF allocation_start_less that] all by metis
qed

lemma online_ok_mono:
  "online_ok ps online \<Longrightarrow> (\<And>m. active ps m \<Longrightarrow> active ps' m) \<Longrightarrow> online_ok ps' online"
  by (auto simp: online_ok_def)

lemma online_ok_update:
  "online_ok ps online \<Longrightarrow> active ps n \<Longrightarrow> online_ok ps (AList.update n cs online)"
  by (auto simp: online_ok_def distinct_update dom_update)

lemma keys_delete: "fst ` set (AList.delete n al) = fst ` set al - {n}"
  by (metis delete_keys list.set_map set_removeAll)

lemma online_ok_delete:
  "online_ok ps online \<Longrightarrow> (\<And>m. m \<noteq> n \<Longrightarrow> active ps m \<Longrightarrow> active ps' m) \<Longrightarrow>
   online_ok ps' (AList.delete n online)"
  unfolding online_ok_def keys_delete by (auto simp: distinct_delete)

lemma peers_inv_update:
  assumes "peers_inv env ps" "row_ok env n r"
    and "\<And>m q a. map_of ps m = Some q \<Longrightarrow> row_virtual_ipv4 q = Some a \<Longrightarrow> row_virtual_ipv4 r = Some a \<Longrightarrow> m = n"
  shows "peers_inv env (AList.update n r ps)"
  using assms unfolding peers_inv_def
  by (auto simp: update_conv' distinct_update split: if_splits)

lemma peers_inv_map_entry:
  assumes "peers_inv env ps"
    and "\<And>r. row_signing_public (f r) = row_signing_public r \<and> row_virtual_ipv4 (f r) = row_virtual_ipv4 r
      \<and> row_virtual_ipv6 (f r) = row_virtual_ipv6 r"
  shows "peers_inv env (AList.map_entry n f ps)"
proof -
  have orig: "\<exists>r. map_of ps m = Some r \<and> row_signing_public r' = row_signing_public r
      \<and> row_virtual_ipv4 r' = row_virtual_ipv4 r \<and> row_virtual_ipv6 r' = row_virtual_ipv6 r"
    if "map_of (AList.map_entry n f ps) m = Some r'" for m r'
    using that assms(2) by (auto simp: map_of_map_entry split: if_splits option.splits)
  show ?thesis
    unfolding peers_inv_def
  proof (intro conjI allI impI)
    show "distinct (map fst (AList.map_entry n f ps))"
      using assms(1) by (simp add: peers_inv_def distinct_map_entry)
    show "row_ok env m r'" if "map_of (AList.map_entry n f ps) m = Some r'" for m r'
      using orig [OF that] assms(1) unfolding peers_inv_def row_ok_def by metis
  qed (use assms(1) orig in \<open>unfold peers_inv_def, metis\<close>)
qed

lemma peers_inv_delete: "peers_inv env ps \<Longrightarrow> peers_inv env (AList.delete n ps)"
  unfolding peers_inv_def
  by (auto simp: delete_conv' distinct_delete split: if_splits)

lemma active_update: "active (AList.update n r ps) m \<longleftrightarrow> (if m = n then \<not> row_revoked r else active ps m)"
  by (auto simp: active_def update_conv')

lemma active_map_entry:
  "(\<And>r. row_revoked (f r) = row_revoked r) \<Longrightarrow> active (AList.map_entry n f ps) m \<longleftrightarrow> active ps m"
  by (auto simp: active_def map_of_map_entry split: option.splits if_splits)

lemma load_peer_active: "load_peer s n \<noteq> None \<longleftrightarrow> active (co_peers s) n"
  by (auto simp: load_peer_def active_def split: option.splits)

lemma load_peer_row:
  "load_peer s n = Some p \<Longrightarrow> \<exists>r. map_of (co_peers s) n = Some r \<and> \<not> row_revoked r \<and> p = stored_of_row n r"
  by (auto simp: load_peer_def split: option.splits if_splits)

subsection \<open>Every operation keeps the invariant\<close>

lemma inv_grow:
  assumes "coord_inv env s" "peers_inv env ps" "\<And>m. active (co_peers s) m \<Longrightarrow> active ps m"
  shows "coord_inv env (s\<lparr>co_peers := ps\<rparr>)"
  using assms online_ok_mono by (auto simp: coord_inv_def)

lemma bump_Inr:
  "bump_snapshot s = Inr s' \<Longrightarrow> \<exists>g. s' = s\<lparr>co_meta_generation := g, co_generation := g\<rparr>
     \<and> unat g = unat (co_generation s) + 1 \<and> unat g < 2 ^ 63"
  using unat_add_lem [of "co_generation s" 1]
  by (auto simp: bump_snapshot_def Let_def split: if_splits)

lemma bump_Inl: "bump_snapshot s = Inl e \<Longrightarrow> e = SnapshotGenerationOverflow \<and> 2 ^ 63 - 1 \<le> unat (co_generation s)"
  using unat_add_lem [of "co_generation s" 1]
  by (auto simp: bump_snapshot_def Let_def split: if_splits)

lemma inv_bump: "coord_inv env s \<Longrightarrow> bump_snapshot s = Inr s' \<Longrightarrow> coord_inv env s'"
  using bump_Inr [of s s'] by (auto simp: coord_inv_def)

lemma inv_broadcast: "coord_inv env s \<Longrightarrow> coord_inv env (snd (broadcast_snapshot s))"
  by (auto simp: coord_inv_def broadcast_snapshot_def)

lemma inv_touch: "coord_inv env s \<Longrightarrow> coord_inv env (touch_peer t s n)"
  unfolding touch_peer_def
  by (rule inv_grow) (auto simp: coord_inv_def active_map_entry intro: peers_inv_map_entry)

lemma inv_metadata: "coord_inv env s \<Longrightarrow> coord_inv env (snd (update_peer_metadata s n a b))"
  unfolding update_peer_metadata_def snd_conv
  by (rule inv_grow) (auto simp: coord_inv_def active_map_entry intro: peers_inv_map_entry)

lemma inv_update_peer:
  assumes "coord_inv env s" "row_ok env (sp_node_id p) (row_of_stored p (map_of (co_peers s) (sp_node_id p)))"
    and "\<And>m q a. map_of (co_peers s) m = Some q \<Longrightarrow> row_virtual_ipv4 q = Some a \<Longrightarrow>
      row_virtual_ipv4 (row_of_stored p (map_of (co_peers s) (sp_node_id p))) = Some a \<Longrightarrow> m = sp_node_id p"
  shows "coord_inv env (update_peer s p)" and "active (co_peers (update_peer s p)) (sp_node_id p)"
proof -
  show "coord_inv env (update_peer s p)"
    unfolding update_peer_def
    using assms by (intro inv_grow peers_inv_update) (auto simp: coord_inv_def active_update row_of_stored_def)
  show "active (co_peers (update_peer s p)) (sp_node_id p)"
    by (simp add: update_peer_def active_update row_of_stored_def)
qed

lemma inv_add_online:
  "coord_inv env s \<Longrightarrow> active (co_peers s) n \<Longrightarrow> coord_inv env (add_online s n c)"
  by (auto simp: coord_inv_def add_online_def Let_def distinct_update online_ok_update)

lemma inv_drop_peer:
  assumes "coord_inv env s" "peers_inv env ps" "\<And>m. m \<noteq> n \<Longrightarrow> active (co_peers s) m \<Longrightarrow> active ps m"
  shows "coord_inv env (snd (snd (drop_peer (s\<lparr>co_peers := ps\<rparr>) n)))"
proof (cases "bump_snapshot (s\<lparr>co_peers := ps\<rparr>)")
  case (Inl e)
  then show ?thesis using assms bump_Inl [OF Inl] by (auto simp: drop_peer_def coord_inv_def)
next
  case (Inr s')
  then obtain g where s': "s' = s\<lparr>co_peers := ps, co_meta_generation := g, co_generation := g\<rparr>"
    and g: "unat g = unat (co_generation s) + 1" "unat g < 2 ^ 63"
    using bump_Inr [OF Inr] by auto
  have "unat (co_generation s) < 2 ^ 63 - 1" using g by simp
  then have "online_ok ps (AList.delete n (co_online s))"
    using assms by (intro online_ok_delete [of "co_peers s"]) (auto simp: coord_inv_def)
  then have "coord_inv env (snd (disconnect_peer s' n))"
    using assms g unfolding s' disconnect_peer_def Let_def
    by (auto simp: coord_inv_def distinct_delete)
  then show ?thesis
    using Inr inv_broadcast by (simp add: drop_peer_def case_prod_beta Let_def)
qed

lemma inv_same:
  "coord_inv env s \<Longrightarrow> co_peers s' = co_peers s \<Longrightarrow> co_generation s' = co_generation s \<Longrightarrow>
   co_pending s' = co_pending s \<Longrightarrow> co_running s' = co_running s \<Longrightarrow> co_online s' = co_online s \<Longrightarrow>
   coord_inv env s'"
  by (simp add: coord_inv_def)

lemma register_with_invite_frame:
  "register_with_invite env t s n a b token = (r, s') \<Longrightarrow> \<exists>ivs. s' = s\<lparr>co_invites := ivs\<rparr>"
  by (auto simp: register_with_invite_def Let_def intro: exI [of _ "co_invites s"] split: option.splits if_splits)

lemma register_credential_frame:
  "register_credential env t s n a b c i = (r, s') \<Longrightarrow> \<exists>ivs. s' = s\<lparr>co_invites := ivs\<rparr>"
  by (auto simp: register_credential_def intro: exI [of _ "co_invites s"] dest: register_with_invite_frame
      split: option.splits sum.splits prod.splits if_splits)

lemma unused_address:
  "\<not> address_used s a \<Longrightarrow> map_of (co_peers s) m = Some q \<Longrightarrow> row_virtual_ipv4 q \<noteq> Some a"
  by (auto simp: address_used_def dest!: map_of_SomeD)

lemma inv_update_addressed:
  assumes inv: "coord_inv env s"
    and p: "sp_virtual_ipv6 p = None" "sp_virtual_ipv4 p = Some a"
      "sp_node_id p = NodeId (cp_blake3 (ce_prims env) (to_be 32 (sp_signing_public p)))"
    and a: "in_pool a \<and> \<not> address_used s a \<or>
      (\<exists>r. map_of (co_peers s) (sp_node_id p) = Some r \<and> row_virtual_ipv4 r = Some a)"
  shows "coord_inv env (update_peer s p)" and "active (co_peers (update_peer s p)) (sp_node_id p)"
proof -
  define old where "old = map_of (co_peers s) (sp_node_id p)"
  define row where "row = row_of_stored p old"
  have ps: "peers_inv env (co_peers s)" using inv by (simp add: coord_inv_def)
  have ok_old: "row_ok env m r" if "map_of (co_peers s) m = Some r" for m r
    using ps that unfolding peers_inv_def by blast
  have v4: "row_virtual_ipv4 row = Some a" using p by (simp add: row_def row_of_stored_def coalesce_def)
  have v6: "row_virtual_ipv6 row = None"
    using p ok_old [of "sp_node_id p"] unfolding row_def old_def [symmetric]
    by (cases old) (auto simp: row_of_stored_def coalesce_def row_ok_def)
  have pool: "in_pool a" using a ok_old unfolding row_ok_def by blast
  have ok: "row_ok env (sp_node_id p) row"
    unfolding row_ok_def v4 v6 using pool p(3) by (simp add: row_def row_of_stored_def)
  have uniq: "m = sp_node_id p"
    if m: "map_of (co_peers s) m = Some q" "row_virtual_ipv4 q = Some b" "row_virtual_ipv4 row = Some b" for m q b
  proof -
    have "b = a" using v4 m(3) by simp
    then show ?thesis using a m(1,2) ps unused_address [of s a m q] unfolding peers_inv_def by blast
  qed
  show "coord_inv env (update_peer s p)" "active (co_peers (update_peer s p)) (sp_node_id p)"
    using inv_update_peer [OF inv, of p, folded old_def row_def] ok uniq by blast+
qed

lemma active_touch: "active (co_peers (touch_peer t s n)) m \<longleftrightarrow> active (co_peers s) m"
  by (simp add: touch_peer_def active_map_entry)

lemma active_metadata: "active (co_peers (snd (update_peer_metadata s n x y))) m \<longleftrightarrow> active (co_peers s) m"
  by (simp add: update_peer_metadata_def active_map_entry)

lemma active_bump: "bump_snapshot s = Inr s' \<Longrightarrow> active (co_peers s') m \<longleftrightarrow> active (co_peers s) m"
  using bump_Inr [of s s'] by auto

lemma previous_address:
  "Option.bind (load_peer s n) sp_virtual_ipv4 = Some a \<Longrightarrow>
   \<exists>r. map_of (co_peers s) n = Some r \<and> row_virtual_ipv4 r = Some a"
  by (auto simp: load_peer_def stored_of_row_def split: option.splits if_splits)

lemma inv_register_store:
  assumes inv: "coord_inv env s" and p: "sp_virtual_ipv6 p = None"
      "sp_node_id p = NodeId (cp_blake3 (ce_prims env) (to_be 32 (sp_signing_public p)))"
  shows "coord_inv env (snd (register_store env t s p c i))"
    and "fst (register_store env t s p c i) = Inr b \<Longrightarrow>
      active (co_peers (snd (register_store env t s p c i))) (sp_node_id p)"
proof -
  have up: "coord_inv env (update_peer s (p\<lparr>sp_virtual_ipv4 := coalesce v (Some fresh), sp_credential := c, sp_last_seen := l\<rparr>))"
    "active (co_peers (update_peer s (p\<lparr>sp_virtual_ipv4 := coalesce v (Some fresh), sp_credential := c, sp_last_seen := l\<rparr>))) (sp_node_id p)"
    if "allocate_virtual_ipv4 env s (sp_node_id p) = Inr fresh"
      and v: "v = Option.bind (load_peer s (sp_node_id p)) sp_virtual_ipv4" for v fresh l
  proof -
    obtain a where a: "coalesce v (Some fresh) = Some a" by (cases v) (auto simp: coalesce_def)
    have "in_pool a \<and> \<not> address_used s a \<or>
      (\<exists>r. map_of (co_peers s) (sp_node_id p) = Some r \<and> row_virtual_ipv4 r = Some a)"
      using a allocate_fresh [OF that(1)] previous_address [of s "sp_node_id p" a]
      unfolding v [symmetric] by (cases v) (auto simp: coalesce_def)
    then show "coord_inv env (update_peer s (p\<lparr>sp_virtual_ipv4 := coalesce v (Some fresh), sp_credential := c, sp_last_seen := l\<rparr>))"
      "active (co_peers (update_peer s (p\<lparr>sp_virtual_ipv4 := coalesce v (Some fresh), sp_credential := c, sp_last_seen := l\<rparr>))) (sp_node_id p)"
      using inv_update_addressed [OF inv, of "p\<lparr>sp_virtual_ipv4 := Some a, sp_credential := c, sp_last_seen := l\<rparr>" a]
        p unfolding a by simp_all
  qed
  show "coord_inv env (snd (register_store env t s p c i))"
    using up(1) [OF _ refl] inv
    by (auto simp: register_store_def Let_def inv_touch inv_metadata intro: inv_bump [rotated]
        split: sum.splits option.splits)
  show "active (co_peers (snd (register_store env t s p c i))) (sp_node_id p)"
    if "fst (register_store env t s p c i) = Inr b"
    using that up(2) [OF _ refl]
    by (auto simp: register_store_def Let_def active_touch active_metadata active_bump
        split: sum.splits option.splits)
qed

lemma inv_invites: "coord_inv env (s\<lparr>co_invites := ivs\<rparr>) \<longleftrightarrow> coord_inv env s"
  by (simp add: coord_inv_def)

lemma inv_bump_broadcast:
  "bump_snapshot s = Inr s' \<Longrightarrow> coord_inv env s \<Longrightarrow> coord_inv env (snd (broadcast_snapshot s'))"
  by (rule inv_broadcast) (rule inv_bump)

text \<open>What a registration can do to the server.\<close>

lemma handle_register_effect:
  fixes env t is_open c s n inc sg ns cred tok cands caps
  defines "out \<equiv> snd (snd (handle_register env t is_open c s n inc sg ns cred tok cands caps))"
  obtains (refused) "out = s"
    | (credential) a b e s1 where "register_credential env t s n a b cred tok = (Inl e, s1)" "out = s1"
    | (store) a b cb ir s1 p r s2 where "register_credential env t s n a b cred tok = (Inr (cb, ir), s1)"
        "sp_virtual_ipv6 p = None" "sp_node_id p = n"
        "sp_node_id p = NodeId (cp_blake3 (ce_prims env) (to_be 32 (sp_signing_public p)))" "sp_signing_public p = a"
        "register_store env t s1 p cb ir = (r, s2)"
        "(\<exists>e. r = Inl e) \<and> out = s2 \<or> (\<exists>x. r = Inr x) \<and>
          out \<in> {add_online s2 n c, snd (broadcast_snapshot (add_online s2 n c))}"
proof (cases "(\<exists>a b. decode_key env sg = Inr a \<and> decode_key env ns = Inr b
    \<and> NodeId (cp_blake3 (ce_prims env) (to_be 32 a)) = n)")
  case True
  then obtain a b where ab: "decode_key env sg = Inr a" "decode_key env ns = Inr b"
    and n: "NodeId (cp_blake3 (ce_prims env) (to_be 32 a)) = n" by blast
  obtain rc s1 where rc: "register_credential env t s n a b cred tok = (rc, s1)" by (metis surj_pair)
  show thesis
  proof (cases rc)
    case (Inl e)
    then show thesis using credential [OF rc [unfolded Inl]] ab n rc by (simp add: out_def handle_register_def)
  next
    case (Inr cr)
    obtain cb ir where cr: "cr = (cb, ir)" by (metis surj_pair)
    define p where "p = \<lparr>sp_node_id = n, sp_incarnation = inc, sp_name = [],
       sp_signing_public = a, sp_noise_public = b, sp_candidates = cands, sp_virtual_ipv4 = None,
       sp_virtual_ipv6 = None, sp_credential = [], sp_capabilities = caps, sp_last_seen = 0\<rparr>"
    obtain r s2 where rs: "register_store env t s1 p cb ir = (r, s2)" by (metis surj_pair)
    have p: "sp_virtual_ipv6 p = None" "sp_node_id p = n"
      "sp_node_id p = NodeId (cp_blake3 (ce_prims env) (to_be 32 (sp_signing_public p)))" "sp_signing_public p = a"
      using n by (simp_all add: p_def)
    have "(\<exists>e. r = Inl e) \<and> out = s2 \<or> (\<exists>x. r = Inr x) \<and>
          out \<in> {add_online s2 n c, snd (broadcast_snapshot (add_online s2 n c))}"
      by (cases r) (simp_all add: out_def handle_register_def ab n rc Inr cr p_def [symmetric] rs Let_def)
    then show thesis using store [OF rc [unfolded Inr cr] p rs] by blast
  qed
next
  case False
  then have "out = s"
    by (cases "decode_key env sg"; cases "decode_key env ns") (auto simp: out_def handle_register_def)
  then show thesis by (rule refused)
qed

lemma inv_handle_register:
  assumes "coord_inv env s"
  shows "coord_inv env (snd (snd (handle_register env t is_open c s n inc sg ns cred tok cands caps)))"
proof (rule handle_register_effect [of env t is_open c s n inc sg ns cred tok cands caps])
  fix a b cb ir s1 p r s2
  assume cred: "register_credential env t s n a b cred tok = (Inr (cb, ir), s1)"
    and p: "sp_virtual_ipv6 p = None" "sp_node_id p = n"
      "sp_node_id p = NodeId (cp_blake3 (ce_prims env) (to_be 32 (sp_signing_public p)))"
    and rs: "register_store env t s1 p cb ir = (r, s2)"
    and out: "(\<exists>e. r = Inl e) \<and> snd (snd (handle_register env t is_open c s n inc sg ns cred tok cands caps)) = s2
      \<or> (\<exists>x. r = Inr x) \<and> snd (snd (handle_register env t is_open c s n inc sg ns cred tok cands caps))
          \<in> {add_online s2 n c, snd (broadcast_snapshot (add_online s2 n c))}"
  have "coord_inv env s1" using register_credential_frame [OF cred] assms by (auto simp: inv_invites)
  from inv_register_store [OF this p(1,3), of t cb ir, unfolded rs fst_conv snd_conv p(2)]
  have "coord_inv env s2" "r = Inr x \<Longrightarrow> coord_inv env (add_online s2 n c)" for x
    by (auto intro: inv_add_online)
  with out inv_broadcast show ?thesis by auto
qed (use assms inv_invites in \<open>auto dest: register_credential_frame\<close>)

lemma stored_row_round:
  "row_of_stored (stored_of_row n r\<lparr>sp_candidates := cs\<rparr>) (Some r) = r\<lparr>row_candidates := cs, row_revoked := False\<rparr>"
  by (simp add: row_of_stored_def stored_of_row_def coalesce_def split: option.splits)

lemma inv_update_candidates:
  assumes inv: "coord_inv env s" and p: "load_peer s n = Some p"
  shows "coord_inv env (update_peer s (p\<lparr>sp_candidates := cs\<rparr>))"
proof -
  obtain r where r: "map_of (co_peers s) n = Some r" "p = stored_of_row n r" using load_peer_row [OF p] by auto
  have ps: "peers_inv env (co_peers s)" using inv by (simp add: coord_inv_def)
  have n: "sp_node_id (p\<lparr>sp_candidates := cs\<rparr>) = n" by (simp add: r stored_of_row_def)
  show ?thesis
  proof (rule inv_update_peer(1) [OF inv], unfold n, unfold r stored_row_round)
    show "row_ok env n (r\<lparr>row_candidates := cs, row_revoked := False\<rparr>)"
      using ps r(1) by (simp add: peers_inv_def row_ok_def)
  qed (use ps r(1) in \<open>auto simp: peers_inv_def\<close>)
qed

lemma inv_handle_update_candidates:
  assumes inv: "coord_inv env s"
  shows "coord_inv env (snd (snd (handle_update_candidates env t is_open c s registered cands)))"
proof (cases "registered = None \<or> load_peer s (the registered) = None")
  case False
  then obtain n p where n: "registered = Some n" and p: "load_peer s n = Some p" by auto
  define s2 where "s2 = touch_peer t (update_peer s (p\<lparr>sp_candidates := cands\<rparr>)) n"
  have s2: "coord_inv env s2" unfolding s2_def using inv p by (intro inv_touch inv_update_candidates)
  then show ?thesis
    unfolding handle_update_candidates_def n Let_def s2_def [symmetric]
    by (simp add: p s2_def [symmetric] inv_bump_broadcast split: sum.splits)
qed (use inv in \<open>auto simp: handle_update_candidates_def split: option.splits\<close>)

lemma inv_runtime: "coord_inv env (set_runtime_status s n c mtu) \<longleftrightarrow> coord_inv env s"
  by (simp add: set_runtime_status_def coord_inv_def)

lemma inv_handle_message:
  "coord_inv env s \<Longrightarrow> coord_inv env (snd (snd (handle_message env t is_open c registered m s)))"
  by (cases m) (auto simp: handle_message_def inv_handle_register inv_handle_update_candidates
      inv_touch inv_runtime split: option.splits prod.splits)

lemma remove_connection_keys:
  "snd (remove_connection m f n) = m \<or> (\<exists>cs. map_of m n \<noteq> None \<and> snd (remove_connection m f n) = AList.update n cs m)
   \<or> snd (remove_connection m f n) = AList.delete n m"
  by (auto simp: remove_connection_def Let_def split: option.splits)

lemma online_ok_remove: "online_ok ps m \<Longrightarrow> online_ok ps (snd (remove_connection m f n))"
proof -
  assume ok: "online_ok ps m"
  have "active ps n" if "map_of m n \<noteq> None"
    using ok that by (auto simp: online_ok_def map_of_eq_None_iff)
  then show ?thesis
    using remove_connection_keys [of m f n] ok online_ok_delete [OF ok, of n ps] online_ok_update [OF ok, of n]
    by metis
qed

lemma distinct_remove: "distinct (map fst m) \<Longrightarrow> distinct (map fst (snd (remove_connection m f n)))"
  using remove_connection_keys [of m f n] distinct_delete [of m n] distinct_update [of m n]
  by metis

lemma inv_close_socket: "coord_inv env s \<Longrightarrow> coord_inv env (close_socket s c registered)"
proof -
  assume inv: "coord_inv env s"
  have "coord_inv env (s\<lparr>co_online := snd (remove_connection (co_online s) f n), co_runtime_status := st\<rparr>)" for f n st
    using inv distinct_remove online_ok_remove by (auto simp: coord_inv_def)
  then show ?thesis
    using inv by (auto simp: close_socket_def Let_def case_prod_beta intro: inv_bump_broadcast split: option.splits sum.splits)
qed

lemma inv_revoke_inner: "coord_inv env s \<Longrightarrow> coord_inv env (snd (snd (revoke_peer_inner s n)))"
proof -
  assume inv: "coord_inv env s"
  have "coord_inv env (snd (snd (drop_peer (mark_revoked s n) n)))"
    unfolding mark_revoked_def
    using inv by (intro inv_drop_peer peers_inv_map_entry)
      (auto simp: coord_inv_def active_def map_of_map_entry split: option.splits if_splits)
  then show ?thesis using inv by (simp add: revoke_peer_inner_def)
qed

lemma inv_revoke: "coord_inv env s \<Longrightarrow> coord_inv env (snd (snd (revoke_peer s n)))"
  using inv_revoke_inner [of env s n]
  by (auto simp: revoke_peer_def split: prod.splits sum.splits)

lemma inv_delete: "coord_inv env s \<Longrightarrow> coord_inv env (snd (snd (delete_peer_inner s n)))"
proof -
  assume inv: "coord_inv env s"
  have "coord_inv env (snd (snd (drop_peer (s\<lparr>co_peers := AList.delete n (co_peers s)\<rparr>) n)))"
    using inv by (intro inv_drop_peer peers_inv_delete) (auto simp: coord_inv_def active_def delete_conv')
  then show ?thesis using inv by (simp add: delete_peer_inner_def)
qed

lemma inv_config: "coord_inv env s \<Longrightarrow> coord_inv env (snd (update_network_config s doh stun))"
proof -
  assume "coord_inv env s"
  then have "coord_inv env (s\<lparr>co_doh_servers := doh, co_stun_servers := stun\<rparr>)" by (simp add: coord_inv_def)
  then show ?thesis
    using \<open>coord_inv env s\<close>
    by (auto simp: update_network_config_def Let_def intro: inv_bump_broadcast split: sum.splits)
qed

lemma inv_create_invite: "coord_inv env s \<Longrightarrow> coord_inv env (snd (create_invite env t a b c s name notes ttl))"
  by (auto simp: create_invite_def Let_def inv_invites)

lemma inv_download: "coord_inv env s \<Longrightarrow> coord_inv env (snd (consume_download_token env t s token))"
  by (auto simp: consume_download_token_def Let_def inv_invites)

lemma inv_broadcast_now: "coord_inv env s \<Longrightarrow> coord_inv env (broadcast_snapshot_now env t s)"
  by (simp add: broadcast_snapshot_now_def Let_def coord_inv_def)

subsection \<open>Migration\<close>

lemma pool_host_in_pool: "pool_host h \<Longrightarrow> in_pool (VIRTUAL_IPV4_NETWORK_BASE + h)"
  using unat_add_lem [of VIRTUAL_IPV4_NETWORK_BASE h]
  by (auto simp: in_pool_def pool_host_def VIRTUAL_IPV4_NETWORK_BASE_def)

lemma virtual_ipv4_host_Some:
  "virtual_ipv4_host a = Some h \<Longrightarrow> pool_host h \<and> a = VIRTUAL_IPV4_NETWORK_BASE + h"
  by (auto simp: virtual_ipv4_host_def Let_def pool_host_def VIRTUAL_IPV4_USABLE_HOSTS_def
      word_le_nat_alt split: if_splits)

lemma host_at_pool: "unat start < 65534 \<Longrightarrow> offset < 65534 \<Longrightarrow> pool_host (host_at start offset)"
  using mod_less_divisor [of 65534 "unat start + offset"]
  by (simp add: pool_host_def unat_host_at del: mod_less_divisor)

lemma allocate_used_loop_Inr:
  "allocate_used_loop start used offset n = Inr (a, used') \<Longrightarrow> unat start < 65534 \<Longrightarrow> offset + n \<le> 65534 \<Longrightarrow>
   \<exists>h. pool_host h \<and> h \<notin> used \<and> a = VIRTUAL_IPV4_NETWORK_BASE + h \<and> used' = insert h used"
  by (induction start used offset n rule: allocate_used_loop.induct)
    (auto simp: Let_def host_at_pool split: if_splits)

lemma allocate_used_Inr:
  "allocate_virtual_ipv4_from_used env n used = Inr (a, used') \<Longrightarrow>
   \<exists>h. pool_host h \<and> h \<notin> used \<and> a = VIRTUAL_IPV4_NETWORK_BASE + h \<and> used' = insert h used"
  unfolding allocate_virtual_ipv4_from_used_def
  by (rule allocate_used_loop_Inr) (auto simp: allocation_start_less VIRTUAL_IPV4_USABLE_HOSTS_def)

text \<open>One round of the loop: the host the row ends with, and whether it is written.\<close>

lemma migrate_round:
  assumes "migrate_loop env used upd ((n, a) # rows) = Inr res"
  obtains h w where "pool_host h" "h \<notin> used" "migrated w n a = Some (VIRTUAL_IPV4_NETWORK_BASE + h)"
    "set (map fst w) \<subseteq> {n}" "migrate_loop env (insert h used) (upd @ w) rows = Inr res"
proof (cases "\<exists>h. Option.bind a virtual_ipv4_host = Some h \<and> h \<notin> used")
  case True
  then obtain h x where h: "a = Some x" "virtual_ipv4_host x = Some h" "h \<notin> used"
    by (cases a) auto
  with assms that [of h "[]"] virtual_ipv4_host_Some [OF h(2)] show thesis by (simp add: migrated_def)
next
  case False
  then obtain x used' where x: "allocate_virtual_ipv4_from_used env n used = Inr (x, used')"
    and rest: "migrate_loop env used' (upd @ [(n, x)]) rows = Inr res"
    using assms by (auto split: option.splits if_splits sum.splits)
  with allocate_used_Inr [OF x] that [of _ "[(n, x)]"] show thesis by (auto simp: migrated_def)
qed

lemma migrate_loop_Inr:
  assumes "migrate_loop env used upd rows = Inr res" "distinct (map fst rows)"
  shows "\<exists>w h. res = upd @ w \<and> set (map fst w) \<subseteq> set (map fst rows) \<and> inj_on h (set (map fst rows))
    \<and> (\<forall>n a. (n, a) \<in> set rows \<longrightarrow> pool_host (h n) \<and> h n \<notin> used
         \<and> migrated w n a = Some (VIRTUAL_IPV4_NETWORK_BASE + h n))"
  using assms
proof (induction rows arbitrary: used upd)
  case (Cons row rows)
  obtain n a where row: "row = (n, a)" by (cases row)
  from Cons.prems(1) [unfolded row] obtain g v where g: "pool_host g" "g \<notin> used"
    "migrated v n a = Some (VIRTUAL_IPV4_NETWORK_BASE + g)" "set (map fst v) \<subseteq> {n}"
    and rest: "migrate_loop env (insert g used) (upd @ v) rows = Inr res"
    by (rule migrate_round)
  from Cons.IH [OF rest] Cons.prems(2) obtain w h where w: "res = upd @ v @ w"
    "set (map fst w) \<subseteq> set (map fst rows)" "inj_on h (set (map fst rows))"
    and hs: "\<And>m b. (m, b) \<in> set rows \<Longrightarrow> pool_host (h m) \<and> h m \<notin> insert g used
         \<and> migrated w m b = Some (VIRTUAL_IPV4_NETWORK_BASE + h m)"
    by auto
  have fresh: "n \<notin> set (map fst rows)" using Cons.prems(2) by (simp add: row)
  have m1: "migrated (v @ w) n a = migrated v n a"
  proof -
    have "map_of w n = None" using fresh w(2) by (auto simp: map_of_eq_None_iff)
    then show ?thesis by (simp add: migrated_def map_add_def split: option.splits)
  qed
  have m2: "migrated (v @ w) m b = migrated w m b" if "(m, b) \<in> set rows" for m b
  proof -
    have "m \<noteq> n" using fresh that by force
    then have "map_of v m = None" using g(4) by (auto simp: map_of_eq_None_iff)
    then show ?thesis by (simp add: migrated_def map_add_def split: option.splits)
  qed
  have h': "(h(n := g)) m = h m" if "(m, b) \<in> set rows" for m b
    using fresh that by force
  have "inj_on (h(n := g)) (set (map fst (row # rows)))"
  proof -
    have "g \<noteq> h m" if "m \<in> set (map fst rows)" for m using hs that by force
    then show ?thesis using w(3) fresh by (auto simp: row inj_on_def)
  qed
  moreover have "\<forall>m b. (m, b) \<in> set (row # rows) \<longrightarrow> pool_host ((h(n := g)) m) \<and> (h(n := g)) m \<notin> used
         \<and> migrated (v @ w) m b = Some (VIRTUAL_IPV4_NETWORK_BASE + (h(n := g)) m)"
    using g hs m1 m2 h' by (auto simp: row)
  moreover have "set (map fst (v @ w)) \<subseteq> set (map fst (row # rows))" using g(4) w(2) by (auto simp: row)
  ultimately show ?case using w(1) by blast
qed auto

lemma map_of_write_addresses:
  "distinct (map fst updates) \<Longrightarrow>
   map_of (fold (\<lambda>(n, a). AList.map_entry n (\<lambda>r. r\<lparr>row_virtual_ipv4 := Some a\<rparr>)) updates ps) m =
   map_option (\<lambda>r. r\<lparr>row_virtual_ipv4 := migrated updates m (row_virtual_ipv4 r)\<rparr>) (map_of ps m)"
proof (induction updates arbitrary: ps)
  case (Cons u updates)
  obtain n a where u: "u = (n, a)" by (cases u)
  have "map_of updates n = None" "distinct (map fst updates)"
    using Cons.prems by (auto simp: u map_of_eq_None_iff)
  then show ?case
    using Cons.IH [of "AList.map_entry n (\<lambda>r. r\<lparr>row_virtual_ipv4 := Some a\<rparr>) ps"]
    by (cases "m = n") (auto simp: u map_of_map_entry migrated_def split: option.splits)
qed (simp add: migrated_def option.map_ident)

lemma distinct_write_addresses:
  "distinct (map fst ps) \<Longrightarrow>
   distinct (map fst (fold (\<lambda>(n, a). AList.map_entry n (\<lambda>r. r\<lparr>row_virtual_ipv4 := Some a\<rparr>)) updates ps))"
  by (induction updates arbitrary: ps) (auto simp: distinct_map_entry)

lemma migrate_loop_distinct:
  assumes "migrate_loop env used upd rows = Inr res" "distinct (map fst rows)" "distinct (map fst upd)"
    "set (map fst upd) \<inter> set (map fst rows) = {}"
  shows "distinct (map fst res)"
  using assms
proof (induction rows arbitrary: used upd)
  case (Cons row rows)
  obtain n a where row: "row = (n, a)" by (cases row)
  show ?case
    using Cons.prems [unfolded row] Cons.IH
    by (auto split: option.splits if_splits sum.splits)
qed simp

lemma migrate_peers_inv:
  assumes "migrate_virtual_ipv4 env s = Inr s'" "distinct (map fst (co_peers s))"
    and keys: "\<And>n r. map_of (co_peers s) n = Some r \<Longrightarrow>
      n = NodeId (cp_blake3 (ce_prims env) (to_be 32 (row_signing_public r))) \<and> row_virtual_ipv6 r = None"
  shows "peers_inv env (co_peers s')" and "s' = s\<lparr>co_peers := co_peers s'\<rparr>"
    and "\<And>n r. map_of (co_peers s') n = Some r \<Longrightarrow> row_virtual_ipv4 r \<noteq> None"
proof -
  let ?rows = "map (\<lambda>(n, r). (n, row_virtual_ipv4 r)) (sort_key fst (co_peers s))"
  obtain res where res: "migrate_loop env {} [] ?rows = Inr res"
    and s': "s' = s\<lparr>co_peers := fold (\<lambda>(n, a). AList.map_entry n (\<lambda>r. r\<lparr>row_virtual_ipv4 := Some a\<rparr>))
          res (co_peers s)\<rparr>"
    using assms(1) by (auto simp: migrate_virtual_ipv4_def split: sum.splits)
  show "s' = s\<lparr>co_peers := co_peers s'\<rparr>" by (simp add: s')
  have "map fst ?rows = map fst (sort_key fst (co_peers s))" by (simp add: case_prod_beta comp_def)
  then have dr: "distinct (map fst ?rows)"
    using assms(2) by (metis distinct_map distinct_sort inj_on_cong set_sort)
  have d: "distinct (map fst res)" using migrate_loop_distinct [OF res dr] by simp
  obtain h where h: "inj_on h (set (map fst ?rows))"
    "\<And>n a. (n, a) \<in> set ?rows \<Longrightarrow> pool_host (h n) \<and> migrated res n a = Some (VIRTUAL_IPV4_NETWORK_BASE + h n)"
    using migrate_loop_Inr [OF res dr] by auto
  have row: "n \<in> set (map fst ?rows) \<and> pool_host (h n) \<and> (\<exists>q. map_of (co_peers s) n = Some q \<and>
      r = q\<lparr>row_virtual_ipv4 := Some (VIRTUAL_IPV4_NETWORK_BASE + h n)\<rparr>)"
    if mem: "map_of (co_peers s') n = Some r" for n r
  proof -
    obtain q where q: "map_of (co_peers s) n = Some q"
      "r = q\<lparr>row_virtual_ipv4 := migrated res n (row_virtual_ipv4 q)\<rparr>"
      using mem map_of_write_addresses [OF d, of "co_peers s" n]
      by (cases "map_of (co_peers s) n") (auto simp: s')
    have "(n, row_virtual_ipv4 q) \<in> set ?rows" using map_of_SomeD [OF q(1)] by force
    with h(2) q show ?thesis by force
  qed
  have row_at: "n \<in> set (map fst ?rows) \<and> row_virtual_ipv4 r = Some (VIRTUAL_IPV4_NETWORK_BASE + h n)"
    if "map_of (co_peers s') n = Some r" for n r
    using row [OF that] by auto
  show "row_virtual_ipv4 r \<noteq> None" if "map_of (co_peers s') n = Some r" for n r
    using row [OF that] by auto
  show "peers_inv env (co_peers s')"
    unfolding peers_inv_def
  proof (intro conjI allI impI)
    show "distinct (map fst (co_peers s'))"
      using distinct_write_addresses [OF assms(2)] by (simp add: s')
    show "row_ok env n r" if "map_of (co_peers s') n = Some r" for n r
      using row [OF that] keys pool_host_in_pool unfolding row_ok_def by force
    show "n = m" if "map_of (co_peers s') n = Some r \<and> map_of (co_peers s') m = Some q
          \<and> row_virtual_ipv4 r = Some a \<and> row_virtual_ipv4 q = Some a" for n r m q a
    proof -
      have at: "n \<in> set (map fst ?rows)" "m \<in> set (map fst ?rows)"
        "row_virtual_ipv4 r = Some (VIRTUAL_IPV4_NETWORK_BASE + h n)"
        "row_virtual_ipv4 q = Some (VIRTUAL_IPV4_NETWORK_BASE + h m)"
        using row_at that by blast+
      then have "h n = h m" using that by simp
      then show ?thesis using inj_onD [OF h(1) _ at(1,2)] by blast
    qed
  qed
qed

subsection \<open>Administration and broadcast flags\<close>

lemma drop_response_state: "snd (drop_response r) = snd (snd r)"
  by (auto simp: drop_response_def split: sum.splits prod.splits bool.splits)

lemma delete_invite_effect:
  "snd (delete_invite_body i s) = s \<or> (\<exists>ivs. snd (delete_invite_body i s) = s\<lparr>co_invites := ivs\<rparr>)"
  unfolding delete_invite_body_def by (simp only: snd_conv split: if_split) blast

text \<open>What a request can do to the server.\<close>

lemma protected_body_effect:
  assumes "protected_body ae t user tokens request = Some body"
  obtains "snd (body s) = s"
    | doh stun where "snd (body s) = snd (update_network_config s doh stun)"
    | n name nt where "snd (body s) = snd (update_peer_metadata s n name nt)"
    | n where "snd (body s) = snd (snd (revoke_peer_inner s n))"
    | n where "snd (body s) = snd (snd (delete_peer_inner s n))"
    | x y z name nt ttl where "snd (body s) = snd (create_invite (ae_coord ae) t x y z s name nt ttl)"
    | i where "snd (body s) = snd (delete_invite_body i s)"
proof (cases request)
  case (UpdateConfigRoute doh stun)
  then have "snd (body s) = s \<or> (\<exists>d u. snd (body s) = snd (update_network_config s d u))"
    using assms by (auto simp: update_config_body_def split: sum.splits prod.splits) (metis snd_conv)+
  with that(1,2) show thesis by blast
next
  case (UpdatePeerRoute tx name nt)
  then have "snd (body s) = s \<or> (\<exists>n. snd (body s) = snd (update_peer_metadata s n name nt))"
    using assms
    by (auto simp: update_peer_body_def with_node_id_def split: sum.splits prod.splits option.splits if_splits bool.splits)
      (metis snd_conv)+
  with that(1,3) show thesis by blast
next
  case (CreateInviteRoute name nt ttl)
  then have "snd (body s) = s \<or> (\<exists>x y z. snd (body s) = snd (create_invite (ae_coord ae) t x y z s name nt ttl))"
    using assms by (auto simp: create_invite_body_def split: sum.splits prod.splits if_splits) (metis snd_conv)+
  with that(1,6) show thesis by blast
next
  case (RevokePeerRoute tx)
  then have "snd (body s) = s \<or> (\<exists>n. snd (body s) = snd (snd (revoke_peer_inner s n)))"
    using assms by (auto simp: revoke_peer_body_def with_node_id_def drop_response_state split: sum.splits option.splits)
  with that(1,4) show thesis by blast
next
  case (DeletePeerRoute tx)
  then have "snd (body s) = s \<or> (\<exists>n. snd (body s) = snd (snd (delete_peer_inner s n)))"
    using assms by (auto simp: delete_peer_body_def with_node_id_def drop_response_state split: sum.splits option.splits)
  with that(1,5) show thesis by blast
next
  case (DeleteInviteRoute i)
  with assms that(7) [of i] show thesis by simp
qed (use assms that(1) in auto)

lemma admin_handle_effect:
  obtains "snd (snd (admin_handle ae t tokens header request (auth, s))) = s"
    | token where "snd (snd (admin_handle ae t tokens header request (auth, s))) =
        snd (consume_download_token (ae_coord ae) t s token)"
    | body where "protected_body ae t (aa_username auth) tokens request = Some body"
        "snd (snd (admin_handle ae t tokens header request (auth, s))) = snd (body s)"
proof (cases "protected_body ae t (aa_username auth) tokens request")
  case None
  then have "snd (snd (admin_handle ae t tokens header request (auth, s))) = s \<or>
      (\<exists>token. snd (snd (admin_handle ae t tokens header request (auth, s))) =
        snd (consume_download_token (ae_coord ae) t s token))"
    by (cases request)
      (auto simp: admin_handle_def login_handler_def logout_handler_def download_cli_def
        split: option.splits sum.splits prod.splits bool.splits, (metis snd_conv)+)
  with that(1,2) show thesis by blast
next
  case (Some body)
  then have "admin_handle ae t tokens header request (auth, s) = require_admin t header body (auth, s)"
    by (cases request) (auto simp: admin_handle_def)
  then have "snd (snd (admin_handle ae t tokens header request (auth, s))) \<in> {s, snd (body s)}"
    by (auto simp: require_admin_def split: option.splits prod.splits)
  with that(1,3) Some show thesis by blast
qed

lemma inv_delete_invite: "coord_inv env s \<Longrightarrow> coord_inv env (snd (delete_invite_body i s))"
  using delete_invite_effect [of i s] by (auto simp: inv_invites)

lemma inv_admin:
  assumes "coord_inv (ae_coord ae) s"
  shows "coord_inv (ae_coord ae) (snd (snd (admin_handle ae t tokens header request (auth, s))))"
proof -
  have "coord_inv (ae_coord ae) (snd (body s))"
    if "protected_body ae t (aa_username auth) tokens request = Some body" for body
    by (rule protected_body_effect [OF that, of s])
      (use assms inv_config inv_metadata inv_revoke_inner inv_delete inv_create_invite inv_delete_invite in metis)+
  then show ?thesis
    using inv_download [OF assms] assms
    by (rule_tac admin_handle_effect [of ae t tokens header request auth s]) metis+
qed

lemma flags_same: "flags_kept s s"
  by (simp add: flags_kept_def)

lemma flags_bump: "bump_snapshot s = Inr s' \<Longrightarrow> co_pending s' = co_pending s \<and> co_running s' = co_running s"
  by (auto dest!: bump_Inr)

lemma flags_broadcast: "co_pending (snd (broadcast_snapshot s))" "co_running (snd (broadcast_snapshot s))"
  by (simp_all add: broadcast_snapshot_def)

lemma flags_frames:
  "co_pending (update_peer s p) = co_pending s" "co_running (update_peer s p) = co_running s"
  "co_pending (touch_peer t s n) = co_pending s" "co_running (touch_peer t s n) = co_running s"
  "co_pending (add_online s n c) = co_pending s" "co_running (add_online s n c) = co_running s"
  "co_pending (snd (update_peer_metadata s n x y)) = co_pending s"
  "co_running (snd (update_peer_metadata s n x y)) = co_running s"
  "co_pending (set_runtime_status s n c m) = co_pending s" "co_running (set_runtime_status s n c m) = co_running s"
  by (simp_all add: update_peer_def touch_peer_def add_online_def Let_def update_peer_metadata_def set_runtime_status_def)

lemma flags_register_store:
  "register_store env t s p c i = (r, s') \<Longrightarrow> co_pending s' = co_pending s \<and> co_running s' = co_running s"
  by (auto simp: register_store_def Let_def flags_frames dest!: flags_bump split: sum.splits option.splits)

lemma flags_register_credential:
  "register_credential env t s n a b c i = (r, s') \<Longrightarrow> co_pending s' = co_pending s \<and> co_running s' = co_running s"
  by (auto dest: register_credential_frame)

lemma flags_handle_register:
  "flags_kept s (snd (snd (handle_register env t is_open c s n inc sg ns cred tok cands caps)))"
  by (rule handle_register_effect [of env t is_open c s n inc sg ns cred tok cands caps])
    (auto simp: flags_kept_def flags_frames flags_broadcast dest!: flags_register_credential flags_register_store)

lemma flags_handle_update_candidates:
  "flags_kept s (snd (snd (handle_update_candidates env t is_open c s registered cands)))"
  by (auto simp: handle_update_candidates_def Let_def flags_frames flags_broadcast flags_kept_def
      dest!: flags_bump split: option.splits sum.splits)

lemma flags_handle_message:
  "flags_kept s (snd (snd (handle_message env t is_open c registered m s)))"
  using flags_handle_register flags_handle_update_candidates
  by (cases m) (auto simp: handle_message_def flags_frames flags_kept_def split: option.splits prod.splits)

lemma flags_close_socket: "flags_kept s (close_socket s c registered)"
  by (auto simp: close_socket_def Let_def case_prod_beta flags_broadcast flags_kept_def
      dest!: flags_bump split: option.splits sum.splits)

lemma flags_drop_peer:
  "co_pending s = co_pending r \<Longrightarrow> co_running s = co_running r \<Longrightarrow> flags_kept r (snd (snd (drop_peer s n)))"
  by (auto simp: drop_peer_def case_prod_beta Let_def flags_broadcast flags_kept_def split: sum.splits)

lemma flags_revoke_inner: "flags_kept s (snd (snd (revoke_peer_inner s n)))"
  by (auto simp: revoke_peer_inner_def mark_revoked_def flags_same intro!: flags_drop_peer)

lemma flags_revoke: "flags_kept s (snd (snd (revoke_peer s n)))"
  using flags_revoke_inner [of s n] by (auto simp: revoke_peer_def split: prod.splits sum.splits)

lemma flags_delete: "flags_kept s (snd (snd (delete_peer_inner s n)))"
  by (auto simp: delete_peer_inner_def flags_same intro!: flags_drop_peer)

lemma flags_config: "flags_kept s (snd (update_network_config s doh stun))"
  by (auto simp: update_network_config_def Let_def flags_broadcast flags_kept_def split: sum.splits)

lemma flags_create_invite: "flags_kept s (snd (create_invite env t a b c s name nt ttl))"
  by (auto simp: create_invite_def Let_def flags_kept_def)

lemma flags_metadata: "flags_kept s (snd (update_peer_metadata s n x y))"
  by (simp add: flags_frames flags_kept_def)

lemma flags_delete_invite: "flags_kept s (snd (delete_invite_body i s))"
  using delete_invite_effect [of i s] by (auto simp: flags_kept_def)

lemma flags_download: "flags_kept s (snd (consume_download_token env t s token))"
  by (simp add: consume_download_token_def Let_def flags_kept_def)

lemma flags_admin: "flags_kept s (snd (snd (admin_handle ae t tokens header request (auth, s))))"
proof -
  have "flags_kept s (snd (body s))"
    if "protected_body ae t (aa_username auth) tokens request = Some body" for body
    by (rule protected_body_effect [OF that, of s])
      (use flags_config flags_metadata flags_revoke_inner flags_delete flags_create_invite flags_delete_invite flags_same in metis)+
  then show ?thesis
    using flags_download flags_same
    by (rule_tac admin_handle_effect [of ae t tokens header request auth s]) metis+
qed

lemmas inv_operations = inv_handle_message inv_close_socket inv_admin inv_revoke inv_delete inv_create_invite inv_metadata

lemmas flags_operations = flags_handle_message flags_close_socket flags_admin flags_revoke flags_delete
  flags_create_invite flags_metadata

lemma coord_op_inv: "coord_op env s s' \<Longrightarrow> coord_inv env s \<Longrightarrow> coord_inv env s'"
  by (induction rule: coord_op.induct) (auto simp: inv_operations)

lemma coord_op_flags: "coord_op env s s' \<Longrightarrow> flags_kept s s'"
  by (induction rule: coord_op.induct) (auto simp: flags_operations)

lemma coord_step_inv: "coord_step env x y \<Longrightarrow> sys_inv env x \<Longrightarrow> sys_inv env y"
proof (induction rule: coord_step.induct)
  case (step_op s s' pc)
  then show ?case using coord_op_inv [of env s s'] coord_op_flags [of env s s'] by (auto simp: sys_inv_def flags_kept_def)
next
  case (step_loop pc s t ok)
  then show ?case
    using inv_broadcast_now [of env s t]
    by (cases pc) (auto simp: sys_inv_def coord_inv_def broadcast_snapshot_now_def Let_def)
qed

lemma stored_generation_ok: "stored_generation v \<noteq> 0 \<and> unat (stored_generation v) < 2 ^ 63"
proof (cases v)
  case (Some w)
  have "unat w < 2 ^ 63" if "0 \<le> sint w"
  proof -
    have lt: "sint w < 2 ^ 63" using sint_lt [of w] by simp
    then have "uint w = sint w" using that by (simp add: uint_sint take_bit_eq_mod)
    with lt have "uint w < 2 ^ 63" by simp
    then have "int (unat w) < int (2 ^ 63)" by (simp only: uint_nat [symmetric]) simp
    then show ?thesis by (simp only: of_nat_less_iff)
  qed
  then show ?thesis by (auto simp: Some stored_generation_def)
qed (simp add: stored_generation_def)

lemma open_server_inv:
  assumes "db_ok env db" "open_server env tenant signer doh stun db = Inr s"
  shows "sys_inv env (LoopStopped, s)"
proof -
  have keys: "distinct (map fst (db_peers db))"
    "map_of (db_peers db) n = Some r \<Longrightarrow>
      n = NodeId (cp_blake3 (ce_prims env) (to_be 32 (row_signing_public r))) \<and> row_virtual_ipv6 r = None" for n r
    using assms(1) by (auto simp: db_ok_def dest!: map_of_SomeD)
  let ?s0 = "\<lparr>co_tenant = tenant, co_signer = signer, co_peers = db_peers db,
       co_invites = map (\<lambda>(h, iv). (h, repair_invite h iv)) (db_invites db),
       co_meta_generation = (case db_generation db of None \<Rightarrow> 1 | Some w \<Rightarrow> w),
       co_generation = stored_generation (db_generation db),
       co_online = [], co_runtime_status = [], co_pending = False, co_running = False,
       co_doh_servers = fst (load_network_config (db_doh_servers db) (db_stun_servers db) doh stun),
       co_stun_servers = snd (load_network_config (db_doh_servers db) (db_stun_servers db) doh stun),
       co_watch = []\<rparr>"
  have s: "migrate_virtual_ipv4 env ?s0 = Inr s"
    using assms(2) by (simp add: open_server_def Let_def case_prod_beta)
  have "peers_inv env (co_peers s)" "s = ?s0\<lparr>co_peers := co_peers s\<rparr>"
    using migrate_peers_inv(1,2) [OF s] keys by simp_all
  moreover have "coord_inv env (?s0\<lparr>co_peers := ps\<rparr>)" if "peers_inv env ps" for ps
    using that stored_generation_ok by (simp add: coord_inv_def online_ok_def)
  ultimately show ?thesis by (metis (no_types, lifting) coord_state.select_convs(10) coord_state.update_convs(3) fst_conv snd_conv sys_inv_def)
qed

lemma coord_reachable_inv: "coord_reachable env db x \<Longrightarrow> db_ok env db \<Longrightarrow> sys_inv env x"
  by (induction rule: coord_reachable.induct) (auto intro: open_server_inv coord_step_inv)

subsection \<open>Snapshots\<close>

lemma in_map_filter: "a \<in> set (List.map_filter f xs) \<longleftrightarrow> (\<exists>x \<in> set xs. f x = Some a)"
  by (induction xs) (auto simp: map_filter_simps split: option.splits)

lemma distinct_map_filter_inj:
  assumes "distinct xs" "\<And>x y a. x \<in> set xs \<Longrightarrow> y \<in> set xs \<Longrightarrow> f x = Some a \<Longrightarrow> f y = Some a \<Longrightarrow> x = y"
  shows "distinct (List.map_filter f xs)"
  using assms
proof (induction xs)
  case (Cons x xs)
  have d: "distinct (List.map_filter f xs)" using Cons by auto
  show ?case
  proof (cases "f x")
    case (Some a)
    have "y \<noteq> x" if "y \<in> set xs" for y using Cons.prems(1) that by auto
    then have "a \<notin> set (List.map_filter f xs)"
      using Cons.prems(2) [of _ x a] Some unfolding in_map_filter by auto
    with d Some show ?thesis by (simp add: map_filter_simps)
  qed (use d in \<open>simp add: map_filter_simps\<close>)
qed (simp add: map_filter_simps)

lemma snapshot_peers: "sn_peers (network_snapshot_of env t s ids) = map shown_peer (shown_rows s)"
  by (simp add: network_snapshot_of_def sign_snapshot_def load_peers_def shown_rows_def shown_peer_def
      case_prod_beta comp_def)

lemma shown_peer_fields:
  "pi_node_id (shown_peer x) = fst x" "pi_signing_public (shown_peer x) = row_signing_public (snd x)"
  "pi_virtual_ipv4 (shown_peer x) = row_virtual_ipv4 (snd x)"
  "pi_virtual_ipv6 (shown_peer x) = row_virtual_ipv6 (snd x)"
  by (simp_all add: shown_peer_def private_peer_def stored_of_row_def)

lemma shown_rows_keys:
  assumes "peers_inv env (co_peers s)"
  shows "distinct (map fst (shown_rows s))" and "(n, r) \<in> set (shown_rows s) \<Longrightarrow> map_of (co_peers s) n = Some r"
    and "n \<in> fst ` set (shown_rows s) \<longleftrightarrow> active (co_peers s) n"
proof -
  have d: "distinct (map fst (co_peers s))" using assms by (simp add: peers_inv_def)
  then have "distinct (map fst (filter (\<lambda>(n, r). \<not> row_revoked r) (co_peers s)))"
    by (simp add: distinct_map_filter)
  then show "distinct (map fst (shown_rows s))"
    unfolding shown_rows_def by (simp add: distinct_map)
  show "map_of (co_peers s) n = Some r" if "(n, r) \<in> set (shown_rows s)"
    using that d by (auto simp: shown_rows_def)
  show "n \<in> fst ` set (shown_rows s) \<longleftrightarrow> active (co_peers s) n"
  proof
    assume "n \<in> fst ` set (shown_rows s)"
    then show "active (co_peers s) n" using d by (auto simp: shown_rows_def active_def)
  next
    assume "active (co_peers s) n"
    then obtain r where "(n, r) \<in> set (co_peers s)" "\<not> row_revoked r" by (auto simp: active_def dest: map_of_SomeD)
    then have "(n, r) \<in> set (shown_rows s)" by (simp add: shown_rows_def)
    then show "n \<in> fst ` set (shown_rows s)" by (rule image_eqI [rotated]) simp
  qed
qed

lemma in_pool_cidr:
  assumes "in_pool a"
  shows "cidr4_contains \<lparr>c4_address = VIRTUAL_IPV4_NETWORK_BASE, c4_prefix_len = VIRTUAL_IPV4_PREFIX_LEN\<rparr> a"
proof -
  obtain h where h: "h \<le> 65534" "unat a = unat VIRTUAL_IPV4_NETWORK_BASE + h"
    using assms unfolding in_pool_def by blast
  have base: "unat VIRTUAL_IPV4_NETWORK_BASE = 2814 * 65536" by (simp add: VIRTUAL_IPV4_NETWORK_BASE_def)
  have len: "32 - unat VIRTUAL_IPV4_PREFIX_LEN = 16" by (simp add: VIRTUAL_IPV4_PREFIX_LEN_def)
  have "(2814 * 65536 + h) div 65536 = 2814" using h(1) by (simp add: div_mult_self3)
  then show ?thesis unfolding cidr4_contains_def ipv4_cidr.simps len h(2) base by simp
qed

lemma snapshot_of_state_ok:
  assumes inv: "coord_inv env s" and ids: "distinct ids" "\<And>n. n \<in> set ids \<Longrightarrow> active (co_peers s) n"
  shows "snapshot_ok (cp_blake3 (ce_prims env)) (network_snapshot_of env t s ids)"
proof -
  let ?x = "network_snapshot_of env t s ids"
  have ps: "peers_inv env (co_peers s)" using inv by (simp add: coord_inv_def)
  note keys = shown_rows_keys [OF ps]
  have row: "row_ok env (fst x) (snd x)" "map_of (co_peers s) (fst x) = Some (snd x)" if "x \<in> set (shown_rows s)" for x
    using keys(2) [of "fst x" "snd x"] that ps by (auto simp: peers_inv_def)
  have fields: "sn_generation ?x = co_generation s" "sn_virtual_ipv6 ?x = None" "sn_online_peers ?x = ids"
    "sn_virtual_ipv4 ?x = Some \<lparr>c4_address = VIRTUAL_IPV4_NETWORK_BASE, c4_prefix_len = VIRTUAL_IPV4_PREFIX_LEN\<rparr>"
    by (simp_all add: network_snapshot_of_def sign_snapshot_def)
  have a4: "addresses4 (sn_peers ?x) = List.map_filter (\<lambda>x. row_virtual_ipv4 (snd x)) (shown_rows s)"
    by (simp add: addresses4_def snapshot_peers List.map_filter_def filter_map comp_def shown_peer_fields)
  have a6: "addresses6 (sn_peers ?x) = []"
    using row(1) by (simp add: addresses6_def snapshot_peers List.map_filter_def filter_empty_conv shown_peer_fields row_ok_def)
  have "distinct (addresses4 (sn_peers ?x))"
    unfolding a4
  proof (rule distinct_map_filter_inj)
    show "distinct (shown_rows s)" using keys(1) by (simp add: distinct_map)
    show "x = y" if "x \<in> set (shown_rows s)" "y \<in> set (shown_rows s)"
      "row_virtual_ipv4 (snd x) = Some a" "row_virtual_ipv4 (snd y) = Some a" for x y a
    proof -
      have "fst x = fst y" using ps row(2) [OF that(1)] row(2) [OF that(2)] that(3,4) unfolding peers_inv_def by blast
      then show ?thesis using row(2) that(1,2) by (metis option.inject prod.expand)
    qed
  qed
  moreover have "in_pool a" if "a \<in> set (addresses4 (sn_peers ?x))" for a
    using that row(1) unfolding a4 in_map_filter row_ok_def by blast
  moreover have "map pi_node_id (sn_peers ?x) = map fst (shown_rows s)"
    by (simp add: snapshot_peers shown_peer_fields comp_def)
  moreover have "pi_node_id ` set (sn_peers ?x) = fst ` set (shown_rows s)"
    by (simp add: snapshot_peers shown_peer_fields image_image)
  moreover have "pi_node_id p = NodeId (cp_blake3 (ce_prims env) (to_be 32 (pi_signing_public p)))"
    if "p \<in> set (sn_peers ?x)" for p
    using that row(1) by (auto simp: snapshot_peers shown_peer_fields row_ok_def)
  moreover have "cidr4_canonical \<lparr>c4_address = VIRTUAL_IPV4_NETWORK_BASE, c4_prefix_len = VIRTUAL_IPV4_PREFIX_LEN\<rparr>"
    by (simp add: cidr4_canonical_def VIRTUAL_IPV4_NETWORK_BASE_def VIRTUAL_IPV4_PREFIX_LEN_def)
  moreover have "co_generation s \<noteq> 0" using inv by (simp add: coord_inv_def)
  ultimately show ?thesis
    unfolding snapshot_ok_def fields a6 using keys(1,3) ids in_pool_cidr by simp blast
qed

lemma snapshot_verifies:
  "signature_law (ce_prims env) \<Longrightarrow> now \<le> saturating_add t 3600 \<Longrightarrow>
   verify_snapshot (ce_prims env) (network_snapshot_of env t s ids) (signer_public (ce_prims env) (co_signer s)) now = Inr ()"
  unfolding network_snapshot_of_def by (rule sign_snapshot_verifies) simp_all


end
