(* ===== verification/Vela_Coord_Run.thy ===== *)
theory Vela_Coord_Run
  imports Vela_Coord_Inv
begin

section \<open>The coordinator: generations, invites, broadcast\<close>

text \<open>
  Runs of the coordination server with its broadcast task: the generation number identifies
  what a snapshot shows, a scheduled broadcast reaches every connection, an invite admits one
  node, a revoked node is shut out; and the properties of the coordinator.
\<close>

subsection \<open>Specification\<close>

text \<open>What a snapshot of a state shows besides its generation and its expiry.\<close>

definition contents :: "coord_state \<Rightarrow> peer_info list \<times> node_id set \<times> string list \<times> string list" where
  "contents s = (map shown_peer (shown_rows s), fst ` set (co_online s), co_doh_servers s, co_stun_servers s)"

text \<open>A step leaves generation and contents alone, or increases the generation, or finds the
  counter exhausted.\<close>

definition gen_step :: "coord_state \<Rightarrow> coord_state \<Rightarrow> bool" where
  "gen_step s s' \<longleftrightarrow> co_generation s' = co_generation s \<and> contents s' = contents s
     \<or> unat (co_generation s) < unat (co_generation s') \<or> 2 ^ 63 - 1 \<le> unat (co_generation s) \<and> co_generation s' = co_generation s"

text \<open>What a snapshot can show of a row.\<close>

definition row_view :: "node_id \<times> peer_row \<Rightarrow> node_id \<times> bool \<times> peer_info" where
  "row_view x = (fst x, row_revoked (snd x), shown_peer x)"

text \<open>The invite with this token hash was used.\<close>

definition used_invite :: "256 word \<Rightarrow> coord_state \<Rightarrow> bool" where
  "used_invite h s \<longleftrightarrow> (\<exists>iv. map_of (co_invites s) h = Some iv \<and> iv_used iv)"

text \<open>An instance to evaluate: a database with one node, and the server after an invite.\<close>

definition sample_row :: peer_row where
  "sample_row = \<lparr>row_signing_public = 8, row_noise_public = 1, row_incarnation = 0, row_candidates = [],
     row_virtual_ipv4 = Some 0x0AFE0001, row_virtual_ipv6 = None, row_credential = [], row_capabilities = [],
     row_revoked = False, row_name = [], row_notes = [], row_last_seen = 0\<rparr>"

definition sample_db :: coord_db where
  "sample_db = \<lparr>db_peers = [(NodeId 9, sample_row)], db_invites = [], db_generation = None,
     db_doh_servers = None, db_stun_servers = None\<rparr>"

definition sample_state :: coord_state where
  "sample_state = \<lparr>co_tenant = ''t'', co_signer = \<lparr>ss_signing = 3\<rparr>, co_peers = [(NodeId 9, sample_row)],
     co_invites = [], co_meta_generation = 1, co_generation = 1, co_online = [], co_runtime_status = [],
     co_pending = False, co_running = False, co_doh_servers = default_servers, co_stun_servers = [],
     co_watch = []\<rparr>"

definition sample_invited :: coord_state where
  "sample_invited = snd (create_invite sample_env 100 ''tok'' ''dl'' ''i'' sample_state [] [] 1000)"

subsection \<open>Generations\<close>

lemma map_insort_key: "(\<And>x. k (g x) = k' x) \<Longrightarrow> map g (insort_key k' x xs) = insort_key k (g x) (map g xs)"
  by (induction xs) auto

lemma map_sort_key:
  assumes "\<And>x. k (g x) = k' x"
  shows "map g (sort_key k' xs) = sort_key k (map g xs)"
  by (induction xs) (simp_all add: map_insort_key [of k g k', OF assms])

lemma shown_via_view:
  "map shown_peer (shown_rows s) =
   map (\<lambda>(_, _, p). p) (sort_key fst (filter (\<lambda>(_, revoked, _). \<not> revoked) (map row_view (co_peers s))))"
proof -
  have "filter (\<lambda>(_, revoked, _). \<not> revoked) (map row_view (co_peers s)) =
      map row_view (filter (\<lambda>(n, r). \<not> row_revoked r) (co_peers s))"
    by (simp add: filter_map comp_def row_view_def case_prod_beta')
  then show ?thesis
    by (simp add: map_sort_key [of fst row_view fst, symmetric] row_view_def shown_rows_def comp_def)
qed

lemma contents_same:
  assumes "map row_view (co_peers s') = map row_view (co_peers s)" "fst ` set (co_online s') = fst ` set (co_online s)"
    "co_doh_servers s' = co_doh_servers s" "co_stun_servers s' = co_stun_servers s"
  shows "contents s' = contents s"
  using assms by (simp add: contents_def shown_via_view)

lemma view_map_entry:
  "(\<And>r. map_of ps n = Some r \<Longrightarrow> row_view (n, f r) = row_view (n, r)) \<Longrightarrow>
   map row_view (AList.map_entry n f ps) = map row_view ps"
  by (induction ps) (auto simp: fun_upd_def)

lemma view_update:
  "map_of ps n = Some r \<Longrightarrow> row_view (n, r') = row_view (n, r) \<Longrightarrow>
   map row_view (AList.update n r' ps) = map row_view ps"
  by (induction ps) (auto split: if_splits)

lemma row_view_ignores:
  "row_view (n, r\<lparr>row_last_seen := t\<rparr>) = row_view (n, r)"
  "row_view (n, r\<lparr>row_name := a, row_notes := b\<rparr>) = row_view (n, r)"
  by (simp_all add: row_view_def shown_peer_def private_peer_def stored_of_row_def)

lemma gen_same: "gen_step s s"
  by (simp add: gen_step_def)

lemma gen_touch: "contents (touch_peer t s n) = contents s \<and> co_generation (touch_peer t s n) = co_generation s"
  unfolding touch_peer_def by (auto intro!: contents_same view_map_entry simp: row_view_ignores)

lemma gen_metadata: "contents (snd (update_peer_metadata s n x y)) = contents s
   \<and> co_generation (snd (update_peer_metadata s n x y)) = co_generation s"
  unfolding update_peer_metadata_def by (auto intro!: contents_same view_map_entry simp: row_view_ignores)

lemma gen_bump:
  "bump_snapshot s1 = Inr s' \<Longrightarrow> co_generation s1 = co_generation s \<Longrightarrow> gen_step s s'"
  by (auto dest!: bump_Inr simp: gen_step_def)

lemma gen_overflow:
  "bump_snapshot s1 = Inl e \<Longrightarrow> co_generation s1 = co_generation s \<Longrightarrow> co_generation s' = co_generation s \<Longrightarrow> gen_step s s'"
  using bump_Inl [of s1 e] by (auto simp: gen_step_def)

lemma gen_broadcast: "gen_step s (snd (broadcast_snapshot s')) \<longleftrightarrow> gen_step s s'"
  by (simp add: gen_step_def broadcast_snapshot_def contents_def shown_rows_def)

lemma gen_frames:
  "co_generation (update_peer s p) = co_generation s"
  "co_generation (add_online s n c) = co_generation s"
  "co_generation (set_runtime_status s n c m) = co_generation s"
  "co_generation (snd (update_peer_metadata s n x y)) = co_generation s"
  "co_generation (touch_peer t s n) = co_generation s"
  by (simp_all add: update_peer_def add_online_def Let_def set_runtime_status_def gen_metadata gen_touch)

lemma gen_register_store:
  "register_store env t s p c i = (r, s') \<Longrightarrow> gen_step s s' \<and> (\<forall>b. r = Inr b \<longrightarrow> unat (co_generation s) < unat (co_generation s'))"
  by (auto simp: register_store_def Let_def gen_frames gen_same dest: bump_Inr intro: gen_overflow gen_bump
      split: sum.splits option.splits)

lemma gen_register_credential:
  "register_credential env t s n a b c i = (r, s') \<Longrightarrow> gen_step s s' \<and> co_generation s' = co_generation s"
  by (auto dest!: register_credential_frame simp: gen_step_def contents_def shown_rows_def)

lemma gen_add_online: "unat (co_generation s) < unat (co_generation s') \<Longrightarrow> gen_step s (add_online s' n c)"
  by (simp add: gen_step_def gen_frames)

lemma gen_step_frame: "gen_step s1 s2 \<Longrightarrow> contents s1 = contents s \<Longrightarrow> co_generation s1 = co_generation s \<Longrightarrow> gen_step s s2"
  by (simp add: gen_step_def)

lemma contents_invites: "contents (s\<lparr>co_invites := ivs\<rparr>) = contents s"
  by (simp add: contents_def shown_rows_def)

lemma gen_handle_register:
  "gen_step s (snd (snd (handle_register env t is_open c s n inc sg ns cred tok cands caps)))"
proof (rule handle_register_effect [of env t is_open c s n inc sg ns cred tok cands caps])
  fix a b cb ir s1 p r s2
  assume cred: "register_credential env t s n a b cred tok = (Inr (cb, ir), s1)"
    and rs: "register_store env t s1 p cb ir = (r, s2)"
    and out: "(\<exists>e. r = Inl e) \<and> snd (snd (handle_register env t is_open c s n inc sg ns cred tok cands caps)) = s2
      \<or> (\<exists>x. r = Inr x) \<and> snd (snd (handle_register env t is_open c s n inc sg ns cred tok cands caps))
          \<in> {add_online s2 n c, snd (broadcast_snapshot (add_online s2 n c))}"
  have "contents s1 = contents s" "co_generation s1 = co_generation s"
    using register_credential_frame [OF cred] contents_invites by auto
  then have "gen_step s s2" "r = Inr x \<Longrightarrow> gen_step s (add_online s2 n c)" for x
    using gen_register_store [OF rs] gen_step_frame gen_add_online by metis+
  with out gen_broadcast show ?thesis by auto
qed (auto simp: gen_same dest: gen_register_credential)

lemma stored_node_id: "sp_node_id (stored_of_row n r) = n"
  by (simp add: stored_of_row_def)

lemma gen_handle_update_candidates:
  assumes "peers_inv env (co_peers s)"
  shows "gen_step s (snd (snd (handle_update_candidates env t is_open c s registered cands)))"
proof (cases "registered = None \<or> load_peer s (the registered) = None")
  case False
  then obtain n p where n: "registered = Some n" and p: "load_peer s n = Some p" by auto
  obtain r where r: "map_of (co_peers s) n = Some r" "p = stored_of_row n r" "\<not> row_revoked r"
    using load_peer_row [OF p] by auto
  have same: "contents (update_peer s (p\<lparr>sp_candidates := cands\<rparr>)) = contents s" if "sp_candidates p = cands"
  proof (rule contents_same)
    have "row_view (n, r\<lparr>row_candidates := cands, row_revoked := False\<rparr>) = row_view (n, r)"
      using that r by (simp add: row_view_def shown_peer_def private_peer_def stored_of_row_def)
    then show "map row_view (co_peers (update_peer s (p\<lparr>sp_candidates := cands\<rparr>))) = map row_view (co_peers s)"
      using view_update [OF r(1)] by (simp add: update_peer_def r(1,2) stored_row_round stored_node_id)
  qed (simp_all add: update_peer_def)
  define s2 where "s2 = touch_peer t (update_peer s (p\<lparr>sp_candidates := cands\<rparr>)) n"
  have g: "co_generation s2 = co_generation s" by (simp add: s2_def gen_frames)
  have "gen_step s s2" if "sp_candidates p = cands"
    using same [OF that] g by (simp add: gen_step_def s2_def gen_touch)
  then show ?thesis
    unfolding handle_update_candidates_def n Let_def s2_def [symmetric]
    using g by (auto simp: p s2_def [symmetric] gen_broadcast intro: gen_bump gen_overflow split: sum.splits)
qed (auto simp: handle_update_candidates_def gen_same split: option.splits)

lemma gen_runtime: "gen_step s (set_runtime_status s n c m)"
  by (simp add: gen_step_def set_runtime_status_def contents_def shown_rows_def)

lemma gen_handle_message:
  "peers_inv env (co_peers s) \<Longrightarrow> gen_step s (snd (snd (handle_message env t is_open c registered m s)))"
  by (cases m) (auto simp: handle_message_def gen_handle_register gen_handle_update_candidates gen_same gen_runtime
      gen_step_frame [OF gen_same] gen_touch gen_step_def [of s "touch_peer _ s _"] split: option.splits prod.splits)

lemma remove_connection_offline:
  "\<not> fst (remove_connection m f n) \<Longrightarrow> fst ` set (snd (remove_connection m f n)) = fst ` set m"
proof (cases "map_of m n")
  case (Some cs)
  then have "n \<in> fst ` set m" by (metis domI dom_map_of_conv_image_fst)
  moreover assume "\<not> fst (remove_connection m f n)"
  ultimately show ?thesis using Some by (auto simp: remove_connection_def Let_def dom_update split: if_splits)
qed (simp add: remove_connection_def)

lemma gen_bump_broadcast:
  assumes "co_generation s1 = co_generation s"
  shows "gen_step s (case bump_snapshot s1 of Inl _ \<Rightarrow> s1 | Inr s2 \<Rightarrow> snd (broadcast_snapshot s2))"
  using gen_bump [OF _ assms] gen_overflow [OF _ assms assms] by (simp add: gen_broadcast split: sum.splits)

lemma gen_close_socket: "gen_step s (close_socket s c registered)"
proof (cases registered)
  case (Some n)
  let ?on = "remove_connection (co_online s) (\<lambda>x. x = c) n"
  define s1 where "s1 = s\<lparr>co_online := snd ?on,
    co_runtime_status := snd (remove_connection (co_runtime_status s) (\<lambda>(x, _). x = c) n)\<rparr>"
  have "contents s1 = contents s" if "\<not> fst ?on"
    unfolding s1_def using remove_connection_offline [OF that] by (intro contents_same) simp_all
  moreover have g: "co_generation s1 = co_generation s" by (simp add: s1_def)
  ultimately show ?thesis
    using gen_bump_broadcast [OF g]
    unfolding close_socket_def Some option.case Let_def case_prod_beta s1_def [symmetric]
    by (simp add: gen_step_def [of s s1])
qed (simp add: close_socket_def gen_same)

lemma gen_drop_peer:
  assumes "co_generation s1 = co_generation s"
  shows "gen_step s (snd (snd (drop_peer s1 n)))"
proof (cases "bump_snapshot s1")
  case (Inl e)
  then show ?thesis using gen_overflow [OF Inl assms assms] by (simp add: drop_peer_def)
next
  case (Inr s2)
  then have "unat (co_generation s) < unat (co_generation s2)" using bump_Inr [OF Inr] assms by auto
  then have "gen_step s (snd (disconnect_peer s2 n))" by (simp add: gen_step_def disconnect_peer_def Let_def)
  then show ?thesis by (simp add: drop_peer_def Inr case_prod_beta Let_def gen_broadcast)
qed

lemma gen_revoke_inner: "gen_step s (snd (snd (revoke_peer_inner s n)))"
  by (auto simp: revoke_peer_inner_def mark_revoked_def gen_same intro!: gen_drop_peer)

lemma gen_revoke: "gen_step s (snd (snd (revoke_peer s n)))"
  using gen_revoke_inner [of s n] by (auto simp: revoke_peer_def split: prod.splits sum.splits)

lemma gen_delete: "gen_step s (snd (snd (delete_peer_inner s n)))"
  by (auto simp: delete_peer_inner_def gen_same intro!: gen_drop_peer)

lemma gen_config: "gen_step s (snd (update_network_config s doh stun))"
  by (auto simp: update_network_config_def Let_def gen_broadcast gen_same intro: gen_bump gen_overflow split: sum.splits)

lemma gen_invites: "gen_step s (s\<lparr>co_invites := ivs\<rparr>)"
  by (simp add: gen_step_def contents_invites)

lemma gen_create_invite: "gen_step s (snd (create_invite env t a b c s name nt ttl))"
  by (auto simp: create_invite_def Let_def gen_invites gen_same)

lemma gen_download: "gen_step s (snd (consume_download_token env t s token))"
  by (simp add: consume_download_token_def Let_def gen_invites)

lemma gen_update_metadata: "gen_step s (snd (update_peer_metadata s n x y))"
  by (simp add: gen_step_def gen_metadata)

lemma gen_delete_invite: "gen_step s (snd (delete_invite_body i s))"
  using delete_invite_effect [of i s] gen_invites gen_same by metis

lemma gen_admin: "gen_step s (snd (snd (admin_handle ae t tokens header request (auth, s))))"
proof -
  have "gen_step s (snd (body s))"
    if "protected_body ae t (aa_username auth) tokens request = Some body" for body
    by (rule protected_body_effect [OF that, of s])
      (use gen_config gen_update_metadata gen_revoke_inner gen_delete gen_create_invite gen_delete_invite gen_same in metis)+
  then show ?thesis
    using gen_download gen_same
    by (rule_tac admin_handle_effect [of ae t tokens header request auth s]) metis+
qed

lemmas gen_operations = gen_handle_message gen_close_socket gen_admin gen_revoke gen_delete
  gen_create_invite gen_update_metadata

lemma coord_op_gen: "coord_op env s s' \<Longrightarrow> peers_inv env (co_peers s) \<Longrightarrow> gen_step s s'"
  by (induction rule: coord_op.induct) (auto simp: gen_operations)

lemma coord_step_gen: "coord_step env x y \<Longrightarrow> peers_inv env (co_peers (snd x)) \<Longrightarrow> gen_step (snd x) (snd y)"
proof (induction rule: coord_step.induct)
  case (step_loop pc s t ok)
  then show ?case
    by (cases pc) (auto simp: gen_step_def contents_def shown_rows_def broadcast_snapshot_now_def Let_def)
qed (auto intro: coord_op_gen)

lemma coord_steps_gen:
  assumes "(coord_step env)\<^sup>*\<^sup>* x y" "sys_inv env x"
  shows "sys_inv env y \<and> gen_step (snd x) (snd y) \<and> unat (co_generation (snd x)) \<le> unat (co_generation (snd y))"
  using assms
proof (induction rule: rtranclp_induct)
  case (step y z)
  then have y: "sys_inv env y" "gen_step (snd x) (snd y)" "unat (co_generation (snd x)) \<le> unat (co_generation (snd y))"
    by auto
  have z: "gen_step (snd y) (snd z)"
    using coord_step_gen [OF step(2)] y(1) by (simp add: sys_inv_def coord_inv_def)
  have inv: "sys_inv env z" using coord_step_inv [OF step(2) y(1)] .
  then have "unat (co_generation (snd z)) < 2 ^ 63" by (simp add: sys_inv_def coord_inv_def)
  then show ?case using y z inv unfolding gen_step_def by fastforce
qed (simp add: gen_same)
subsection \<open>The broadcast task\<close>

lemma map_of_fold_update:
  "map_of (fold (\<lambda>c. AList.update c v) cs w) c = (if c \<in> set cs then Some v else map_of w c)"
  by (induction cs arbitrary: w) (auto simp: update_conv')

lemma broadcast_now_watch:
  "(n, cs) \<in> set (co_online s) \<Longrightarrow> c \<in> set cs \<Longrightarrow>
   map_of (co_watch (broadcast_snapshot_now env t s)) c = Some (network_snapshot_of env t s (map fst (co_online s)))"
  by (force simp: broadcast_snapshot_now_def Let_def map_of_fold_update)

lemma snapshot_pending: "network_snapshot_of env t (s\<lparr>co_pending := b\<rparr>) ids = network_snapshot_of env t s ids"
  by (simp add: network_snapshot_of_def load_peers_def)

lemma broadcast_delivered:
  assumes "sys_inv env (pc, s)" "co_pending s" "(n, cs) \<in> set (co_online s)" "c \<in> set cs"
  shows "\<exists>k \<le> 3. map_of (co_watch (snd ((broadcast_loop_step env t True ^^ k) (pc, s)))) c =
    Some (network_snapshot_of env t s (map fst (co_online s)))"
proof -
  have sent: "map_of (co_watch (broadcast_snapshot_now env t (s\<lparr>co_pending := b\<rparr>))) c =
      Some (network_snapshot_of env t s (map fst (co_online s)))" for b
    using broadcast_now_watch [of n cs "s\<lparr>co_pending := b\<rparr>" c env t] assms(3,4) by (simp add: snapshot_pending)
  have "pc \<noteq> LoopStopped" using assms(1,2) by (auto simp: sys_inv_def coord_inv_def)
  then consider "pc = LoopSend" | "pc = LoopSleep" | "pc = LoopCheck" by (cases pc) auto
  then show ?thesis
  proof cases
    case 1
    then show ?thesis using sent [of "co_pending s"] by (intro exI [of _ 1]) simp
  next
    case 2
    then show ?thesis using sent [of False] assms(2) by (intro exI [of _ 2]) (simp add: numeral_2_eq_2)
  next
    case 3
    then show ?thesis using sent [of False] assms(2) by (intro exI [of _ 3]) (simp add: numeral_3_eq_3)
  qed
qed

subsection \<open>Invites\<close>

lemma used_invite_refused:
  "used_invite (cp_blake3 (ce_prims env) (as_bytes token)) s \<Longrightarrow>
   register_with_invite env t s n a b token = (Inl InviteExpired, s)"
  by (auto simp: used_invite_def register_with_invite_def)

lemma register_marks_used:
  "register_with_invite env t s n a b token = (Inr reg, s') \<Longrightarrow>
   used_invite (cp_blake3 (ce_prims env) (as_bytes token)) s'"
  by (auto simp: used_invite_def register_with_invite_def Let_def map_of_map_entry split: option.splits if_splits)

lemma used_map: "used_invite h s \<Longrightarrow> (\<And>iv. iv_used iv \<Longrightarrow> iv_used (f iv)) \<Longrightarrow>
  used_invite h (s\<lparr>co_invites := map (\<lambda>(h, iv). (h, f iv)) (co_invites s)\<rparr>)"
  by (auto simp: used_invite_def map_of_map)

lemma used_frame: "used_invite h s \<Longrightarrow> co_invites s' = co_invites s \<Longrightarrow> used_invite h s'"
  by (simp add: used_invite_def)

lemma used_with_invite:
  "used_invite h s \<Longrightarrow> register_with_invite env t s n a b token = (r, s') \<Longrightarrow> used_invite h s'"
  by (auto simp: used_invite_def register_with_invite_def Let_def map_of_map_entry split: option.splits if_splits)

lemma used_credential:
  "used_invite h s \<Longrightarrow> register_credential env t s n a b c i = (r, s') \<Longrightarrow> used_invite h s'"
  by (auto simp: register_credential_def dest: used_with_invite split: if_splits option.splits sum.splits prod.splits)

lemma invites_bump: "bump_snapshot s = Inr s' \<Longrightarrow> co_invites s' = co_invites s"
  by (auto dest!: bump_Inr)

lemma invites_frames:
  "co_invites (update_peer s p) = co_invites s" "co_invites (touch_peer t s n) = co_invites s"
  "co_invites (add_online s n c) = co_invites s" "co_invites (snd (update_peer_metadata s n x y)) = co_invites s"
  "co_invites (set_runtime_status s n c m) = co_invites s" "co_invites (snd (broadcast_snapshot s)) = co_invites s"
  by (simp_all add: update_peer_def touch_peer_def add_online_def Let_def update_peer_metadata_def
      set_runtime_status_def broadcast_snapshot_def)

lemma invites_register_store: "register_store env t s p c i = (r, s') \<Longrightarrow> co_invites s' = co_invites s"
  by (auto simp: register_store_def Let_def invites_frames dest!: invites_bump split: sum.splits option.splits)

lemma used_handle_register:
  "used_invite h s \<Longrightarrow> used_invite h (snd (snd (handle_register env t is_open c s n inc sg ns cred tok cands caps)))"
  by (rule handle_register_effect [of env t is_open c s n inc sg ns cred tok cands caps])
    (auto simp: invites_frames dest!: invites_register_store dest: used_credential intro: used_frame)

lemma used_handle_message:
  "used_invite h s \<Longrightarrow> used_invite h (snd (snd (handle_message env t is_open c registered m s)))"
  using used_handle_register [of h s]
  by (cases m) (auto simp: handle_message_def handle_update_candidates_def Let_def invites_frames
      dest!: invites_bump intro: used_frame split: option.splits prod.splits sum.splits)

lemma invites_close_socket: "co_invites (close_socket s c registered) = co_invites s"
  by (auto simp: close_socket_def Let_def case_prod_beta invites_frames dest!: invites_bump split: option.splits sum.splits)

lemma invites_drop_peer: "co_invites (snd (snd (drop_peer s n))) = co_invites s"
  by (auto simp: drop_peer_def case_prod_beta Let_def disconnect_peer_def invites_frames dest!: invites_bump split: sum.splits)

lemma invites_revoke_inner: "co_invites (snd (snd (revoke_peer_inner s n))) = co_invites s"
  by (simp add: revoke_peer_inner_def invites_drop_peer mark_revoked_def)

lemma invites_revoke: "co_invites (snd (snd (revoke_peer s n))) = co_invites s"
  using invites_revoke_inner [of s n] by (auto simp: revoke_peer_def split: prod.splits sum.splits)

lemma invites_delete: "co_invites (snd (snd (delete_peer_inner s n))) = co_invites s"
  by (simp add: delete_peer_inner_def invites_drop_peer)

lemma invites_config: "co_invites (snd (update_network_config s doh stun)) = co_invites s"
  by (auto simp: update_network_config_def Let_def invites_frames dest!: invites_bump split: sum.splits)

lemma used_create_invite: "used_invite h s \<Longrightarrow> used_invite h (snd (create_invite env t a b c s name nt ttl))"
  by (auto simp: create_invite_def Let_def used_invite_def map_add_def split: option.splits)

lemma used_download: "used_invite h s \<Longrightarrow> used_invite h (snd (consume_download_token env t s token))"
  unfolding consume_download_token_def Let_def snd_conv by (rule used_map) auto

lemma used_delete_invite: "used_invite h s \<Longrightarrow> used_invite h (snd (delete_invite_body i s))"
  unfolding delete_invite_body_def
  using used_map [of h s "\<lambda>iv. if iv_id iv = i then iv\<lparr>iv_revoked := True, iv_download_used := True\<rparr> else iv"]
  by (simp split: if_split)

lemma used_admin:
  assumes "used_invite h s"
  shows "used_invite h (snd (snd (admin_handle ae t tokens header request (auth, s))))"
proof -
  have "used_invite h (snd (body s))"
    if "protected_body ae t (aa_username auth) tokens request = Some body" for body
    by (rule protected_body_effect [OF that, of s])
      (use assms used_create_invite used_delete_invite used_frame [OF assms] invites_config
        invites_frames(4) invites_revoke_inner invites_delete in metis)+
  then show ?thesis
    using used_download [OF assms] assms
    by (rule_tac admin_handle_effect [of ae t tokens header request auth s]) metis+
qed

lemma coord_op_used: "coord_op env s s' \<Longrightarrow> used_invite h s \<Longrightarrow> used_invite h s'"
  by (induction rule: coord_op.induct)
    (auto simp: used_handle_message used_admin used_create_invite
      intro: used_frame invites_close_socket invites_revoke invites_delete invites_frames(4))

lemma coord_ops_used: "(coord_op env)\<^sup>*\<^sup>* s s' \<Longrightarrow> used_invite h s \<Longrightarrow> used_invite h s'"
  by (induction rule: rtranclp_induct) (auto intro: coord_op_used)

subsection \<open>Revocation\<close>

lemma register_needs_row:
  "load_peer s n = None \<Longrightarrow> cred \<noteq> [] \<Longrightarrow> \<exists>e. register_credential env t s n a b cred tok = (Inl e, s)"
  by (auto simp: register_credential_def split: sum.splits option.splits)

lemma revoked_registration_fails:
  "load_peer s n = None \<Longrightarrow> cred \<noteq> [] \<Longrightarrow>
   \<exists>e. handle_register env t is_open c s n inc sg ns cred tok cands caps = (Inl e, [], s)"
  using register_needs_row [of s n cred env t _ _ tok]
  by (auto simp: handle_register_def split: sum.splits) (metis (no_types, lifting) old.prod.case old.sum.simps(5))

lemma drop_peer_Inr:
  assumes "drop_peer s n = (Inr b, out, s')"
  shows "co_peers s' = co_peers s \<and> co_online s' = AList.delete n (co_online s) \<and> co_pending s' \<and> b
    \<and> out = map (\<lambda>c. (c, Revoke n)) (case map_of (co_online s) n of None \<Rightarrow> [] | Some cs \<Rightarrow> cs)"
proof (cases "bump_snapshot s")
  case (Inr s1)
  from bump_Inr [OF Inr] obtain g where "s1 = s\<lparr>co_meta_generation := g, co_generation := g\<rparr>" by blast
  then show ?thesis
    using assms by (auto simp: drop_peer_def Inr disconnect_peer_def broadcast_snapshot_def Let_def)
qed (use assms in \<open>simp add: drop_peer_def\<close>)

subsection \<open>A run\<close>

lemma sample_db_ok: "db_ok sample_env sample_db"
  by (simp add: db_ok_def sample_db_def sample_row_def sample_env_def sample_prims_def)

lemma sample_open: "open_server sample_env ''t'' \<lparr>ss_signing = 3\<rparr> [] [] sample_db = Inr sample_state"
  by (simp add: open_server_def Let_def load_network_config_def migrate_virtual_ipv4_def sample_db_def
      sample_row_def sample_state_def virtual_ipv4_host_def VIRTUAL_IPV4_NETWORK_BASE_def
      VIRTUAL_IPV4_USABLE_HOSTS_def stored_generation_def)

lemma sample_reachable: "coord_reachable sample_env sample_db (LoopStopped, sample_state)"
  using sample_open by (rule reach_open)

lemma sample_inv: "coord_inv sample_env sample_state"
  using coord_reachable_inv [OF sample_reachable sample_db_ok] by (simp add: sys_inv_def)

lemma as_bytes_chars: "as_bytes (map (\<lambda>b. char_of (unat b)) bs) = bs"
  by (induction bs) (auto simp: as_bytes_def unat_of_nat)

lemma sample_decode: "decode_key sample_env (ce_b64_encode sample_env (to_be 32 k)) = Inr k"
  by (simp add: decode_key_def sample_env_def as_bytes_chars)

lemma sample_invited_fields:
  "co_peers sample_invited = [(NodeId 9, sample_row)]" "co_online sample_invited = []"
  "co_generation sample_invited = 1" "co_pending sample_invited = False" "co_running sample_invited = False"
  "co_signer sample_invited = \<lparr>ss_signing = 3\<rparr>"
  by (simp_all add: sample_invited_def create_invite_def Let_def sample_state_def)

lemma sample_register_credential:
  "\<exists>cb ir ivs. register_credential sample_env 100 sample_invited (NodeId 21) 20 22 [] (Some ''tok'') =
    (Inr (cb, Some ir), sample_invited\<lparr>co_invites := ivs\<rparr>)"
  by (simp add: register_credential_def register_with_invite_def Let_def sample_invited_def create_invite_def
      sample_state_def sample_env_def sample_prims_def saturating_add_def)

lemma bump_succeeds: "unat (co_generation s) < 2 ^ 63 - 1 \<Longrightarrow> \<exists>s'. bump_snapshot s = Inr s'"
  using bump_Inl [of s] by (cases "bump_snapshot s") auto

lemma register_store_new:
  assumes "load_peer s (sp_node_id p) = None" "in_pool a" "\<not> address_used s a"
    and "unat (co_generation s) < 2 ^ 63 - 1"
  shows "\<exists>s'. register_store env t s p c i = (Inr True, s') \<and> co_online s' = co_online s
    \<and> unat (co_generation s') = unat (co_generation s) + 1"
proof -
  obtain fresh where fresh: "allocate_virtual_ipv4 env s (sp_node_id p) = Inr fresh"
    using allocate_fails [of env s "sp_node_id p"] assms(2,3) by (cases "allocate_virtual_ipv4 env s (sp_node_id p)") auto
  let ?s3 = "touch_peer t (case i of None \<Rightarrow> update_peer s (p\<lparr>sp_virtual_ipv4 := Some fresh, sp_credential := c, sp_last_seen := 0\<rparr>)
      | Some r \<Rightarrow> snd (update_peer_metadata (update_peer s (p\<lparr>sp_virtual_ipv4 := Some fresh, sp_credential := c, sp_last_seen := 0\<rparr>))
          (sp_node_id p) (ir_name r) (ir_notes r))) (sp_node_id p)"
  have "co_generation ?s3 = co_generation s" "co_online ?s3 = co_online s"
    by (simp_all add: touch_peer_def update_peer_def update_peer_metadata_def split: option.splits)
  moreover obtain s4 where s4: "bump_snapshot ?s3 = Inr s4"
    using bump_succeeds [of ?s3] assms(4) calculation by auto
  moreover have "co_online s4 = co_online ?s3" "unat (co_generation s4) = unat (co_generation ?s3) + 1"
    using bump_Inr [OF s4] by auto
  ultimately show ?thesis
    using assms(1) by (simp add: register_store_def Let_def fresh coalesce_def peer_changed_def)
qed

lemma sample_online:
  obtains s where "coord_reachable sample_env sample_db (LoopSleep, s)" "co_pending s"
    "co_online s = [(NodeId 21, [7])]" "unat (co_generation s) = 2"
proof -
  let ?m = "Register (NodeId 21) 0 (ce_b64_encode sample_env (to_be 32 (20 :: 256 word)))
    (ce_b64_encode sample_env (to_be 32 (22 :: 256 word))) [] (Some ''tok'') [] []"
  obtain cb ir ivs where rc: "register_credential sample_env 100 sample_invited (NodeId 21) 20 22 [] (Some ''tok'') =
    (Inr (cb, Some ir), sample_invited\<lparr>co_invites := ivs\<rparr>)" using sample_register_credential by blast
  have n: "NodeId (cp_blake3 (ce_prims sample_env) (to_be 32 (20 :: 256 word))) = NodeId 21"
    by (simp add: sample_env_def sample_prims_def)
  have free: "in_pool 0x0AFE0002" "\<not> address_used (sample_invited\<lparr>co_invites := ivs\<rparr>) 0x0AFE0002"
    by (auto simp: in_pool_def VIRTUAL_IPV4_NETWORK_BASE_def address_used_def sample_invited_fields sample_row_def)
  have new: "load_peer (sample_invited\<lparr>co_invites := ivs\<rparr>) (NodeId 21) = None"
    by (simp add: load_peer_def sample_invited_fields)
  let ?p = "\<lparr>sp_node_id = NodeId 21, sp_incarnation = 0, sp_name = [], sp_signing_public = 20, sp_noise_public = 22,
       sp_candidates = [], sp_virtual_ipv4 = None, sp_virtual_ipv6 = None, sp_credential = [],
       sp_capabilities = [], sp_last_seen = 0\<rparr>"
  obtain s2 where s2: "register_store sample_env 100 (sample_invited\<lparr>co_invites := ivs\<rparr>)
      ?p cb (Some ir) = (Inr True, s2)" "co_online s2 = []"
      "unat (co_generation s2) = 2"
    using register_store_new [OF _ free, of ?p sample_env 100 cb "Some ir"] new
    by (auto simp: sample_invited_fields)
  have out: "snd (snd (handle_message sample_env 100 (\<lambda>_. True) 7 None ?m sample_invited)) =
      snd (broadcast_snapshot (add_online s2 (NodeId 21) 7))"
    by (simp add: handle_message_def handle_register_def sample_decode n rc s2 Let_def)
  have "coord_reachable sample_env sample_db (LoopStopped, sample_invited)"
    using reach_step [OF sample_reachable step_op [OF op_invite [of sample_env sample_state 100 "''tok''" "''dl''" "''i''" "[]" "[]" 1000]]]
    by (simp add: sample_invited_def [symmetric] sample_invited_fields)
  from reach_step [OF this step_op [OF op_message [of sample_env sample_invited 100 "\<lambda>_. True" 7 None ?m]]]
  have "coord_reachable sample_env sample_db (LoopSleep, snd (broadcast_snapshot (add_online s2 (NodeId 21) 7)))"
    by (simp add: out sample_invited_fields flags_broadcast)
  then show thesis
    using that by (simp add: broadcast_snapshot_def add_online_def Let_def s2)
qed
lemma migrate_row_kept:
  assumes "migrate_virtual_ipv4 env s = Inr s'" "map_of (co_peers s') n = Some r"
  shows "\<exists>q. map_of (co_peers s) n = Some q \<and> r\<lparr>row_virtual_ipv4 := None\<rparr> = q\<lparr>row_virtual_ipv4 := None\<rparr>"
proof -
  have "map_of (fold (\<lambda>(n, a). AList.map_entry n (\<lambda>r. r\<lparr>row_virtual_ipv4 := Some a\<rparr>)) updates ps) n = Some r \<Longrightarrow>
      \<exists>q. map_of ps n = Some q \<and> r\<lparr>row_virtual_ipv4 := None\<rparr> = q\<lparr>row_virtual_ipv4 := None\<rparr>" for updates ps
  proof (induction updates arbitrary: ps)
    case (Cons u updates)
    let ?ps = "AList.map_entry (fst u) (\<lambda>r. r\<lparr>row_virtual_ipv4 := Some (snd u)\<rparr>) ps"
    have "map_of ?ps n = Some q \<Longrightarrow> \<exists>q'. map_of ps n = Some q' \<and> q\<lparr>row_virtual_ipv4 := None\<rparr> = q'\<lparr>row_virtual_ipv4 := None\<rparr>" for q
      by (auto simp: map_of_map_entry split: if_splits option.splits)
    with Cons.IH [of ?ps] Cons.prems show ?case by (force simp: case_prod_beta)
  qed auto
  then show ?thesis using assms by (auto simp: migrate_virtual_ipv4_def split: sum.splits)
qed

lemma open_server_rows:
  assumes "db_ok env db" "open_server env tenant signer doh stun db = Inr s"
  shows "peers_inv env (co_peers s)"
    and "map_of (co_peers s) n = Some r \<Longrightarrow> \<exists>a q. row_virtual_ipv4 r = Some a \<and> in_pool a
      \<and> map_of (db_peers db) n = Some q \<and> r\<lparr>row_virtual_ipv4 := None\<rparr> = q\<lparr>row_virtual_ipv4 := None\<rparr>"
proof -
  obtain s0 where s0: "migrate_virtual_ipv4 env s0 = Inr s" "co_peers s0 = db_peers db"
    using assms(2) by (auto simp: open_server_def Let_def case_prod_beta)
  have keys: "distinct (map fst (co_peers s0))"
    "map_of (co_peers s0) n = Some r \<Longrightarrow>
      n = NodeId (cp_blake3 (ce_prims env) (to_be 32 (row_signing_public r))) \<and> row_virtual_ipv6 r = None" for n r
    using assms(1) by (auto simp: s0(2) db_ok_def dest!: map_of_SomeD)
  note mig = migrate_peers_inv [OF s0(1) keys]
  show inv: "peers_inv env (co_peers s)" by (rule mig(1)) auto
  show "\<exists>a q. row_virtual_ipv4 r = Some a \<and> in_pool a \<and> map_of (db_peers db) n = Some q
      \<and> r\<lparr>row_virtual_ipv4 := None\<rparr> = q\<lparr>row_virtual_ipv4 := None\<rparr>" if r: "map_of (co_peers s) n = Some r"
  proof -
    obtain a where "row_virtual_ipv4 r = Some a" using mig(3) [of n r] r by auto
    moreover from this have "in_pool a" using inv r by (auto simp: peers_inv_def row_ok_def)
    ultimately show ?thesis using migrate_row_kept [OF s0(1) r] s0(2) by auto
  qed
qed

lemma allocation_outcome:
  "case allocate_virtual_ipv4 env s n of
     Inr a \<Rightarrow> in_pool a \<and> \<not> address_used s a
   | Inl e \<Rightarrow> e = AddressPoolExhausted \<and> {a. in_pool a} \<subseteq> {a. address_used s a}"
  using allocate_fresh [of env s n] allocate_fails [of env s n] by (auto split: sum.splits)

subsection \<open>Corner cases\<close>

text \<open>The address is allocated before it is known whether the peer has one: with the pool
  exhausted no peer can register again, not even one that has an address.\<close>

lemma reregistration_needs_free_address:
  assumes "\<And>a. in_pool a \<Longrightarrow> address_used s a"
  shows "register_store env t s p c i = (Inl AddressPoolExhausted, s)"
  using allocation_outcome [where env = env and s = s and n = "sp_node_id p"] assms
  by (auto simp: register_store_def Let_def split: sum.splits)

text \<open>A registration whose connection closed leaves the node online for good: the connection ends
  unregistered, so nothing removes it.\<close>

lemma closed_connection_stays_online:
  assumes "handle_register env t is_open c s n inc sg ns cred tok cands caps = (Inl CoordConnectionClosed, out, s')"
  shows "(\<exists>cs. map_of (co_online s') n = Some cs \<and> c \<in> set cs) \<and> close_socket s' c None = s'"
proof -
  have cred: "e \<noteq> CoordConnectionClosed" if "register_credential env t s n a b cred tok = (Inl e, s1)" for a b e s1
    using that by (auto simp: register_credential_def register_with_invite_def Let_def
        split: if_splits option.splits sum.splits prod.splits)
  have store: "e \<noteq> CoordConnectionClosed" if "register_store env t s1 p cb ir = (Inl e, s2)" for s1 p cb ir e s2
    using that by (auto simp: register_store_def Let_def dest!: allocate_fails(1) bump_Inl split: sum.splits)
  have key: "e \<noteq> CoordConnectionClosed" if "decode_key env x = Inl e" for x e
    using that by (auto simp: decode_key_def split: sum.splits if_splits)
  have online: "\<exists>cs. map_of (co_online (add_online s2 n c)) n = Some cs \<and> c \<in> set cs" for s2
    by (auto simp: add_online_def Let_def update_conv' split: option.splits)
  obtain a where a: "decode_key env sg = Inr a"
    using assms key by (cases "decode_key env sg") (auto simp: handle_register_def)
  obtain b where b: "decode_key env ns = Inr b"
    using assms key by (cases "decode_key env ns") (auto simp: handle_register_def a)
  have n: "NodeId (cp_blake3 (ce_prims env) (to_be 32 a)) = n"
    using assms by (cases "NodeId (cp_blake3 (ce_prims env) (to_be 32 a)) = n") (auto simp: handle_register_def a b)
  obtain cb ir s1 where rc: "register_credential env t s n a b cred tok = (Inr (cb, ir), s1)"
    using assms cred by (cases "register_credential env t s n a b cred tok"; cases "fst (register_credential env t s n a b cred tok)")
      (auto simp: handle_register_def a b n)
  show ?thesis
    using assms store online
    by (auto simp: handle_register_def a b n rc Let_def close_socket_def split: sum.splits prod.splits if_splits)
qed

text \<open>A change of capabilities alone is not a change that is broadcast.\<close>

lemma capability_change_not_broadcast: "\<not> peer_changed (Some p) (p\<lparr>sp_capabilities := caps, sp_credential := c\<rparr>)"
  by (simp add: peer_changed_def)

text \<open>A snapshot built between the two steps of a revocation, or of a deletion, is one the nodes
  reject.\<close>

lemma snapshot_during_revocation_rejected:
  assumes "coord_inv env s" "n \<in> fst ` set (co_online s)"
  shows "snapshot_validate (cp_blake3 (ce_prims env))
    (network_snapshot_of env t (mark_revoked s n) (online_peer_ids (mark_revoked s n))) \<noteq> Inr ()"
proof -
  have "peers_inv env (co_peers (mark_revoked s n))"
    using assms(1) by (auto simp: mark_revoked_def coord_inv_def intro: peers_inv_map_entry)
  moreover have "\<not> active (co_peers (mark_revoked s n)) n"
    by (simp add: mark_revoked_def active_def map_of_map_entry split: option.splits)
  ultimately have "n \<notin> pi_node_id ` set (sn_peers (network_snapshot_of env t (mark_revoked s n) ids))" for ids
    using shown_rows_keys(3) [of env "mark_revoked s n" n] by (simp add: snapshot_peers shown_peer_fields image_image)
  moreover have "n \<in> set (sn_online_peers (network_snapshot_of env t (mark_revoked s n) (online_peer_ids (mark_revoked s n))))"
    using assms(2) by (simp add: network_snapshot_of_def sign_snapshot_def online_peer_ids_def mark_revoked_def)
  ultimately show ?thesis unfolding snapshot_validate_iff snapshot_ok_def by blast
qed

text \<open>An expiry beyond the signed range is stored as a negative number: the invite is expired from
  the start.\<close>

lemma huge_ttl_invite_expired:
  assumes "map_of (co_invites s) (cp_blake3 (ce_prims env) (as_bytes tok)) = None"
    and "create_invite env t tok dl i s name nt ttl = (Inr invite, s')"
    and "sint (saturating_add t ttl) < sint t'"
  shows "register_with_invite env t' s' n a b tok = (Inl InviteExpired, s')"
  using assms by (auto simp: create_invite_def register_with_invite_def Let_def map_add_def split: if_splits)

text \<open>In the second of its expiry an invite is listed as expired and still admits a node.\<close>

lemma invite_listed_expired_admits:
  assumes "map_of (co_invites s) (cp_blake3 (ce_prims env) (as_bytes tok)) = Some iv"
    and "\<not> iv_revoked iv" "\<not> iv_used iv" "iv_expires_at iv = t"
  shows "invite_status t iv = ''expired'' \<and> (\<exists>reg s'. register_with_invite env t s n a b tok = (Inr reg, s'))"
  using assms by (simp add: invite_status_def register_with_invite_def Let_def)

subsection \<open>Properties\<close>





text \<open>C13: a requested broadcast is not lost. In every state the server reaches in which a broadcast
  is pending, the broadcast task is running, and within three of its steps, unless they fail,
  every connection of every online node is given the snapshot of that state.\<close>

theorem broadcast_reaches_connections:
  assumes "db_ok env db" "coord_reachable env db (pc, s)" "co_pending s"
    and "(n, cs) \<in> set (co_online s)" "c \<in> set cs"
  shows "\<exists>k \<le> 3. map_of (co_watch (snd ((broadcast_loop_step env t True ^^ k) (pc, s)))) c =
    Some (network_snapshot_of env t s (map fst (co_online s)))"
  using broadcast_delivered [OF coord_reachable_inv [OF assms(2,1)] assms(3-5)] .

theorem broadcast_reaches_connections_witness:
  "\<exists>s. \<exists>k \<le> 3. map_of (co_watch (snd ((broadcast_loop_step sample_env 5 True ^^ k) (LoopSleep, s)))) 7 =
    Some (network_snapshot_of sample_env 5 s [NodeId 21])"
proof -
  obtain s where s: "coord_reachable sample_env sample_db (LoopSleep, s)" "co_pending s"
    "co_online s = [(NodeId 21, [7])]" by (rule sample_online)
  show ?thesis
    using broadcast_reaches_connections [OF sample_db_ok s(1,2), of "NodeId 21" "[7]" 7 5] s(3) by auto
qed

text \<open>C17: address allocation is complete and safe. It returns an address of the pool that no stored
  peer has, and fails, with the error that says so, only when every address of the pool is
  taken.\<close>

theorem allocation_correct:
  "case allocate_virtual_ipv4 env s n of
     Inr a \<Rightarrow> in_pool a \<and> \<not> address_used s a
   | Inl e \<Rightarrow> e = AddressPoolExhausted \<and> {a. in_pool a} \<subseteq> {a. address_used s a}"
  by (rule allocation_outcome)

text \<open>C21: opening a database gives every stored peer an address of the pool, no two the same,
  unless the pool is exhausted, and keeps everything else of the rows.\<close>

theorem migration_assigns_addresses:
  assumes "db_ok env db" "open_server env tenant signer doh stun db = Inr s"
  shows "peers_inv env (co_peers s) \<and> (\<forall>n r. map_of (co_peers s) n = Some r \<longrightarrow>
    (\<exists>a q. row_virtual_ipv4 r = Some a \<and> in_pool a \<and> map_of (db_peers db) n = Some q
       \<and> r\<lparr>row_virtual_ipv4 := None\<rparr> = q\<lparr>row_virtual_ipv4 := None\<rparr>))"
  using open_server_rows [OF assms] by blast

theorem migration_assigns_addresses_witness: "peers_inv sample_env (co_peers sample_state)"
  using migration_assigns_addresses [OF sample_db_ok sample_open] by blast

text \<open>C18: an invite admits one node. After a registration with an invite succeeded, every later
  registration with the same token is refused, whatever operations the server performs in
  between.\<close>

theorem invite_used_once:
  assumes "register_with_invite env t s n a b token = (Inr reg, s1)" "(coord_op env)\<^sup>*\<^sup>* s1 s2"
  shows "register_with_invite env t' s2 n' a' b' token = (Inl InviteExpired, s2)"
  by (rule used_invite_refused [OF coord_ops_used [OF assms(2) register_marks_used [OF assms(1)]]])

theorem invite_used_once_witness:
  "\<exists>s1. register_with_invite sample_env 200 s1 (NodeId 5) 1 2 ''tok'' = (Inl InviteExpired, s1)"
proof -
  obtain reg s1 where "register_with_invite sample_env 100 sample_invited (NodeId 21) 20 22 ''tok'' = (Inr reg, s1)"
    by (simp add: register_with_invite_def Let_def sample_invited_def create_invite_def
      sample_state_def sample_env_def sample_prims_def saturating_add_def)
  from invite_used_once [OF this rtranclp.rtrancl_refl] show ?thesis by blast
qed

text \<open>C19: a revoked node is shut out. After a successful revocation no snapshot shows the node, it
  is not online, each of its connections is told, a broadcast is pending, and registering
  again with a credential fails without a trace.\<close>

theorem revoked_peer_shut_out:
  assumes "coord_inv env s" "revoke_peer s n = (Inr (), out, s')" "cred \<noteq> []"
  shows "n \<notin> pi_node_id ` set (sn_peers (network_snapshot_of env t s' ids)) \<and> n \<notin> fst ` set (co_online s')
    \<and> out = map (\<lambda>c. (c, Revoke n)) (case map_of (co_online s) n of None \<Rightarrow> [] | Some cs \<Rightarrow> cs)
    \<and> co_pending s'
    \<and> (\<exists>e. handle_register env t is_open c s' n inc sg ns cred tok cands caps = (Inl e, [], s'))"
proof -
  have load: "load_peer s n \<noteq> None" and drop: "drop_peer (mark_revoked s n) n = (Inr True, out, s')"
    using assms(2) by (auto simp: revoke_peer_def revoke_peer_inner_def split: if_splits sum.splits prod.splits)
  have s': "co_peers s' = co_peers (mark_revoked s n)" "co_online s' = AList.delete n (co_online s)" "co_pending s'"
    "out = map (\<lambda>c. (c, Revoke n)) (case map_of (co_online s) n of None \<Rightarrow> [] | Some cs \<Rightarrow> cs)"
    using drop_peer_Inr [OF drop] by (auto simp: mark_revoked_def)
  have off: "\<not> active (co_peers s') n"
    by (simp add: s' mark_revoked_def active_def map_of_map_entry split: option.splits)
  have "peers_inv env (co_peers s')"
    using assms(1) by (auto simp: s' mark_revoked_def coord_inv_def intro: peers_inv_map_entry)
  from shown_rows_keys(3) [OF this, of n] off
  have "n \<notin> pi_node_id ` set (sn_peers (network_snapshot_of env t s' ids))"
    by (auto simp: snapshot_peers shown_peer_fields image_image)
  moreover have "load_peer s' n = None" using off load_peer_active [of s' n] by blast
  ultimately show ?thesis
    using s' revoked_registration_fails [OF _ assms(3)] by (auto simp: keys_delete)
qed

theorem revoked_peer_shut_out_witness:
  "\<exists>s'. NodeId 9 \<notin> pi_node_id ` set (sn_peers (network_snapshot_of sample_env 5 s' [])) \<and> co_pending s'"
proof -
  obtain out s' where "revoke_peer sample_state (NodeId 9) = (Inr (), out, s')"
    by (simp add: revoke_peer_def revoke_peer_inner_def load_peer_def sample_state_def sample_row_def drop_peer_def
        mark_revoked_def bump_snapshot_def Let_def disconnect_peer_def broadcast_snapshot_def)
  from revoked_peer_shut_out [OF sample_inv this, of "''x''" 5 "[]"] show ?thesis by blast
qed

end
