(* ===== verification/Vela_Network.thy ===== *)
theory Vela_Network
  imports Vela_Membership Vela_Coord_Run
begin

section \<open>The coordinator and its nodes\<close>

text \<open>
  The two ends of the control connection together: what the coordinator keeps true of the
  credentials in its database through every operation, and what a node does with the snapshot
  of a state the coordinator reaches.
\<close>

subsection \<open>Credentials in the database\<close>

text \<open>What the code relies on of \<open>serde_json\<close>: a credential that was written is read back.\<close>

definition credential_json_law :: "coord_env \<Rightarrow> bool" where
  "credential_json_law env \<longleftrightarrow> (\<forall>c. ce_cred_of_json env (ce_cred_to_json env c) = Some c)"

text \<open>The stored bytes are a credential that the holder of the key signed for the node.\<close>

definition credential_issued :: "coord_env \<Rightarrow> server_signer \<Rightarrow> node_id \<Rightarrow> bytes \<Rightarrow> bool" where
  "credential_issued env signer n bs \<longleftrightarrow> (case ce_cred_of_json env bs of
      None \<Rightarrow> False
    | Some c \<Rightarrow> mc_node_id c = n \<and>
        credential_verify (ce_prims env) c (signer_public (ce_prims env) signer) (mc_issued_at c) = Inr ())"

definition member_row :: "coord_env \<Rightarrow> server_signer \<Rightarrow> node_id \<Rightarrow> peer_row \<Rightarrow> bool" where
  "member_row env signer n r \<longleftrightarrow> credential_issued env signer n (row_credential r) \<and> row_virtual_ipv4 r \<noteq> None"

definition members_inv :: "coord_env \<Rightarrow> coord_state \<Rightarrow> bool" where
  "members_inv env s \<longleftrightarrow> (\<forall>n r. map_of (co_peers s) n = Some r \<longrightarrow> member_row env (co_signer s) n r)"

definition members_step :: "coord_env \<Rightarrow> coord_state \<Rightarrow> coord_state \<Rightarrow> bool" where
  "members_step env s s' \<longleftrightarrow> co_signer s' = co_signer s \<and> (members_inv env s \<longrightarrow> members_inv env s')"

definition db_members :: "coord_env \<Rightarrow> server_signer \<Rightarrow> coord_db \<Rightarrow> bool" where
  "db_members env signer db \<longleftrightarrow>
    (\<forall>n r. map_of (db_peers db) n = Some r \<longrightarrow> credential_issued env signer n (row_credential r))"

text \<open>The rows that a node accepts at a time: the credential has not expired, was not issued in
  the future, and is for the keys in the row.\<close>

definition current_row :: "coord_env \<Rightarrow> u64 \<Rightarrow> peer_row \<Rightarrow> bool" where
  "current_row env now r \<longleftrightarrow> (case ce_cred_of_json env (row_credential r) of
      None \<Rightarrow> False
    | Some c \<Rightarrow> now \<le> mc_expires_at c \<and> mc_issued_at c \<le> saturating_add now 60
        \<and> mc_signing_public c = row_signing_public r \<and> mc_noise_public c = row_noise_public r)"

subsection \<open>Every operation keeps the credentials\<close>

lemma members_trans [trans]:
  "members_step env s s' \<Longrightarrow> members_step env s' s'' \<Longrightarrow> members_step env s s''"
  by (simp add: members_step_def)

lemma members_same:
  "co_signer s' = co_signer s \<Longrightarrow> co_peers s' = co_peers s \<Longrightarrow> members_step env s s'"
  by (simp add: members_step_def members_inv_def)

lemma members_entry:
  assumes "\<And>r. row_credential (f r) = row_credential r \<and> row_virtual_ipv4 (f r) = row_virtual_ipv4 r"
  shows "members_step env s (s\<lparr>co_peers := AList.map_entry n f (co_peers s)\<rparr>)"
  using assms
  by (auto simp: members_step_def members_inv_def member_row_def map_of_map_entry split: if_splits option.splits)

lemma members_delete: "members_step env s (s\<lparr>co_peers := AList.delete n (co_peers s)\<rparr>)"
  by (auto simp: members_step_def members_inv_def delete_conv' split: if_splits)

lemma members_update:
  assumes "credential_issued env (co_signer s) (sp_node_id p) (sp_credential p)
      \<or> (\<exists>r. map_of (co_peers s) (sp_node_id p) = Some r \<and> row_credential r = sp_credential p)"
    and "sp_virtual_ipv4 p \<noteq> None"
  shows "members_step env s (update_peer s p)"
  using assms
  by (auto simp: members_step_def members_inv_def member_row_def update_peer_def row_of_stored_def update_conv'
      coalesce_def split: if_splits option.splits) metis

lemma members_bump: "bump_snapshot s1 = Inr s2 \<Longrightarrow> members_step env s s1 \<Longrightarrow> members_step env s s2"
  by (auto dest!: bump_Inr simp: members_step_def members_inv_def)

lemma members_broadcast: "members_step env s (snd (broadcast_snapshot s')) \<longleftrightarrow> members_step env s s'"
  by (simp add: members_step_def members_inv_def broadcast_snapshot_def)

lemma members_touch: "members_step env s (touch_peer t s n)"
  unfolding touch_peer_def by (rule members_entry) simp

lemma members_metadata: "members_step env s (snd (update_peer_metadata s n x y))"
  unfolding update_peer_metadata_def snd_conv by (rule members_entry) simp

lemma members_invites: "members_step env s (s\<lparr>co_invites := ivs\<rparr>)"
  by (rule members_same) simp_all

lemma members_refl: "members_step env s s"
  by (rule members_same) simp_all

lemma members_drop: "members_step env s s1 \<Longrightarrow> members_step env s (snd (snd (drop_peer s1 n)))"
  by (auto simp: drop_peer_def disconnect_peer_def broadcast_snapshot_def Let_def members_step_def members_inv_def
      dest!: bump_Inr split: sum.splits)

lemma register_issues:
  assumes "register_credential env t s n a b cred tok = (Inr (cb, ir), s1)"
    and "NodeId (cp_blake3 (ce_prims env) (to_be 32 a)) = n"
    and "signature_law (ce_prims env)" "credential_json_law env"
  shows "credential_issued env (co_signer s) n cb \<or> (\<exists>r. map_of (co_peers s) n = Some r \<and> row_credential r = cb)"
proof (cases "cred = []")
  case True
  let ?c = "credential_unsigned t \<lparr>pid_node_id = n, pid_signing_public = a, pid_noise_public = b\<rparr> (co_tenant s)
      (saturating_add t (365 * 24 * 3600)) (signer_key_id (ce_prims env) (co_signer s))"
  have cb: "cb = ce_cred_to_json env (credential_sign (ce_prims env) (co_signer s) ?c)"
    using assms(1) True
    by (auto simp: register_credential_def register_with_invite_def Let_def split: option.splits if_splits)
  have "t \<le> saturating_add t d" for d
    using unsigned_less [where 'a = nat, of t] by (simp add: word_le_nat_alt unat_saturating_add)
  then have "credential_verify (ce_prims env) (credential_sign (ce_prims env) (co_signer s) ?c)
      (signer_public (ce_prims env) (co_signer s)) t = Inr ()"
    using assms(2,3) by (intro credential_issued_verifies) simp_all
  then show ?thesis
    using assms(4) cb
    by (simp add: credential_issued_def credential_json_law_def credential_sign_def credential_unsigned_def)
next
  case False
  then obtain p where "load_peer s n = Some p" "cb = sp_credential p"
    using assms(1) by (auto simp: register_credential_def split: option.splits sum.splits if_splits)
  then show ?thesis by (auto dest!: load_peer_row simp: stored_of_row_def)
qed

lemma members_register_store:
  assumes "register_store env t s p cb ir = (r, s')"
    and "credential_issued env (co_signer s) (sp_node_id p) cb
      \<or> (\<exists>r. map_of (co_peers s) (sp_node_id p) = Some r \<and> row_credential r = cb)"
  shows "members_step env s s'"
proof (cases "allocate_virtual_ipv4 env s (sp_node_id p)")
  case (Inr new)
  define p' where "p' = p\<lparr>sp_virtual_ipv4 := coalesce (Option.bind (load_peer s (sp_node_id p)) sp_virtual_ipv4) (Some new),
      sp_credential := cb, sp_last_seen := (case load_peer s (sp_node_id p) of None \<Rightarrow> 0 | Some q \<Rightarrow> sp_last_seen q)\<rparr>"
  define s2 where "s2 = (case ir of None \<Rightarrow> update_peer s p'
      | Some registration \<Rightarrow> snd (update_peer_metadata (update_peer s p') (sp_node_id p) (ir_name registration) (ir_notes registration)))"
  have "members_step env s (update_peer s p')"
    using assms(2) by (intro members_update) (simp_all add: p'_def coalesce_def split: option.splits)
  also have "members_step env (update_peer s p') s2"
    by (simp add: s2_def members_refl members_metadata split: option.splits)
  also have "members_step env s2 (touch_peer t s2 (sp_node_id p))" by (rule members_touch)
  finally have step: "members_step env s (touch_peer t s2 (sp_node_id p))" .
  have "s' = touch_peer t s2 (sp_node_id p) \<or> bump_snapshot (touch_peer t s2 (sp_node_id p)) = Inr s'"
    using assms(1) by (auto simp: register_store_def Let_def Inr p'_def [symmetric] s2_def [symmetric] split: sum.splits)
  then show ?thesis using step members_bump by blast
qed (use assms(1) in \<open>simp add: register_store_def Let_def members_refl\<close>)

lemma members_handle_register:
  assumes "signature_law (ce_prims env)" "credential_json_law env"
  shows "members_step env s (snd (snd (handle_register env t is_open c s n inc sg ns cred tok cands caps)))"
proof (rule handle_register_effect [of env t is_open c s n inc sg ns cred tok cands caps])
  fix a b e s1
  assume "register_credential env t s n a b cred tok = (Inl e, s1)"
    and "snd (snd (handle_register env t is_open c s n inc sg ns cred tok cands caps)) = s1"
  then show ?thesis using register_credential_frame members_invites by metis
next
  fix a b cb ir s1 p r s2
  assume cred: "register_credential env t s n a b cred tok = (Inr (cb, ir), s1)"
    and p: "sp_node_id p = n" "sp_node_id p = NodeId (cp_blake3 (ce_prims env) (to_be 32 (sp_signing_public p)))"
      "sp_signing_public p = a"
    and rs: "register_store env t s1 p cb ir = (r, s2)"
    and out: "(\<exists>e. r = Inl e) \<and> snd (snd (handle_register env t is_open c s n inc sg ns cred tok cands caps)) = s2
      \<or> (\<exists>x. r = Inr x) \<and> snd (snd (handle_register env t is_open c s n inc sg ns cred tok cands caps))
          \<in> {add_online s2 n c, snd (broadcast_snapshot (add_online s2 n c))}"
  obtain ivs where s1: "s1 = s\<lparr>co_invites := ivs\<rparr>" using register_credential_frame [OF cred] by blast
  have "members_step env s1 s2"
    using register_issues [OF cred _ assms] p by (intro members_register_store [OF rs]) (simp add: s1)
  then have s2: "members_step env s s2" unfolding s1 by (rule members_trans [OF members_invites])
  moreover have "members_step env s2 (add_online s2 n c)"
    by (rule members_same) (simp_all add: add_online_def Let_def)
  ultimately have "members_step env s (add_online s2 n c)" by (rule members_trans)
  then show ?thesis using s2 out by (auto simp: members_broadcast)
qed (simp add: members_refl)

lemma members_handle_update_candidates:
  "members_step env s (snd (snd (handle_update_candidates env t is_open c s registered cands)))"
proof (cases "registered = None \<or> load_peer s (the registered) = None")
  case False
  then obtain n p where n: "registered = Some n" and p: "load_peer s n = Some p" by auto
  obtain r where r: "map_of (co_peers s) n = Some r" "p = stored_of_row n r" using load_peer_row [OF p] by auto
  define s2 where "s2 = touch_peer t (update_peer s (p\<lparr>sp_candidates := cands\<rparr>)) n"
  have "members_step env s (update_peer s (p\<lparr>sp_candidates := cands\<rparr>))"
    using r by (auto simp: members_step_def members_inv_def member_row_def update_peer_def update_conv'
      stored_row_round stored_node_id split: if_splits)
  then have step: "members_step env s s2" unfolding s2_def using members_touch members_trans by blast
  then show ?thesis
    unfolding handle_update_candidates_def n Let_def s2_def [symmetric]
    by (auto simp: p s2_def [symmetric] members_broadcast intro: members_bump split: sum.splits)
qed (auto simp: handle_update_candidates_def members_refl split: option.splits)

lemma members_handle_message:
  assumes "signature_law (ce_prims env)" "credential_json_law env"
  shows "members_step env s (snd (snd (handle_message env t is_open c registered m s)))"
proof -
  have "members_step env s (set_runtime_status s n c mtu)" for n mtu
    by (rule members_same) (simp_all add: set_runtime_status_def)
  then show ?thesis
    by (cases m) (auto simp: handle_message_def members_handle_register [OF assms] members_handle_update_candidates
      members_refl members_touch split: option.splits prod.splits)
qed

lemma members_close_socket: "members_step env s (close_socket s c registered)"
  by (auto simp: close_socket_def Let_def case_prod_beta members_broadcast
      intro!: members_same dest!: bump_Inr split: option.splits sum.splits)

lemma members_revoke_inner: "members_step env s (snd (snd (revoke_peer_inner s n)))"
  by (auto simp: revoke_peer_inner_def mark_revoked_def members_refl intro!: members_drop members_entry)

lemma members_revoke: "members_step env s (snd (snd (revoke_peer s n)))"
  using members_revoke_inner [of env s n] by (auto simp: revoke_peer_def split: prod.splits sum.splits)

lemma members_delete_peer: "members_step env s (snd (snd (delete_peer_inner s n)))"
  by (auto simp: delete_peer_inner_def members_refl intro!: members_drop members_delete)

lemma members_config: "members_step env s (snd (update_network_config s doh stun))"
  by (auto simp: update_network_config_def Let_def members_broadcast members_refl
      intro: members_same members_bump [OF _ members_same] split: sum.splits)

lemma members_create_invite: "members_step env s (snd (create_invite e t a b c s name nt ttl))"
  by (auto simp: create_invite_def Let_def members_invites members_refl)

lemma members_download: "members_step env s (snd (consume_download_token e t s token))"
  by (simp add: consume_download_token_def Let_def members_invites)

lemma members_delete_invite: "members_step env s (snd (delete_invite_body i s))"
  using delete_invite_effect [of i s] members_invites members_refl by metis

lemma members_admin: "members_step env s (snd (snd (admin_handle ae t tokens header request (auth, s))))"
proof -
  have "members_step env s (snd (body s))"
    if "protected_body ae t (aa_username auth) tokens request = Some body" for body
    by (rule protected_body_effect [OF that, of s])
      (use members_config members_metadata members_revoke_inner members_delete_peer members_create_invite
        members_delete_invite members_refl in metis)+
  then show ?thesis
    using members_download members_refl
    by (rule_tac admin_handle_effect [of ae t tokens header request auth s]) metis+
qed

lemma coord_op_members:
  assumes "coord_op env s s'" "signature_law (ce_prims env)" "credential_json_law env"
  shows "members_step env s s'"
  using assms
  by (induction rule: coord_op.induct) (auto simp: members_handle_message members_close_socket members_admin
    members_revoke members_delete_peer members_create_invite members_metadata)

lemma coord_step_members:
  assumes "coord_step env x y" "signature_law (ce_prims env)" "credential_json_law env"
  shows "members_step env (snd x) (snd y)"
  using assms
proof (induction rule: coord_step.induct)
  case (step_loop pc s t ok)
  then show ?case
    by (cases pc) (auto simp: broadcast_snapshot_now_def Let_def intro: members_same)
qed (auto intro: coord_op_members)

lemma open_server_members:
  assumes "db_ok env db" "open_server env tenant signer doh stun db = Inr s" "db_members env (co_signer s) db"
  shows "members_inv env s"
  unfolding members_inv_def member_row_def
proof (intro allI impI)
  fix n r
  assume "map_of (co_peers s) n = Some r"
  from open_server_rows(2) [OF assms(1,2) this] obtain a q where "row_virtual_ipv4 r = Some a"
    "map_of (db_peers db) n = Some q" "r\<lparr>row_virtual_ipv4 := None\<rparr> = q\<lparr>row_virtual_ipv4 := None\<rparr>" by blast
  moreover from this have "row_credential r = row_credential q" by (metis peer_row.select_convs(7) peer_row.surjective peer_row.update_convs(5))
  ultimately show "credential_issued env (co_signer s) n (row_credential r) \<and> row_virtual_ipv4 r \<noteq> None"
    using assms(3) by (auto simp: db_members_def)
qed

lemma coord_reachable_members:
  assumes "coord_reachable env db x" "db_ok env db" "signature_law (ce_prims env)" "credential_json_law env"
    and "db_members env (co_signer (snd x)) db"
  shows "members_inv env (snd x)"
  using assms
proof (induction rule: coord_reachable.induct)
  case (reach_step x y)
  then show ?case using coord_step_members [OF reach_step(2)] by (simp add: members_step_def)
qed (simp add: open_server_members)

subsection \<open>A node that receives a snapshot of the coordinator\<close>

lemma merge_peers_validated:
  assumes "merge_peers env online old infos replacement reconnect s = (Inr x, s')" "info \<in> set infos"
  shows "validate_peer_membership (ne_cp env) (ne_cred env) (ne_now env) info (nc_server_public_key (nd_config s)) = Inr ()"
  using assms
proof (induction infos arbitrary: replacement reconnect s)
  case (Cons i infos)
  obtain replacement1 reconnect1 s1 where
    step: "merge_peer env online old i replacement reconnect s = (replacement1, reconnect1, s1)"
    by (metis prod_cases3)
  show ?case
    using Cons.prems Cons.IH [of replacement reconnect s] Cons.IH [of replacement1 reconnect1 s1]
      merge_peer_frame [OF step] step by (auto split: sum.splits if_splits)
qed simp

lemma apply_snapshot_validated:
  assumes "apply_snapshot env snapshot s = (Inr (), s')" "info \<in> set (sn_peers snapshot)"
  shows "validate_peer_membership (ne_cp env) (ne_cred env) (ne_now env) info (nc_server_public_key (nd_config s)) = Inr ()"
  using assms merge_peers_validated by (auto simp: apply_snapshot_def split: sum.splits prod.splits)

lemma credential_verify_later:
  assumes "credential_verify cp c key (mc_issued_at c) = Inr ()"
  shows "credential_verify cp c key now = Inr () \<longleftrightarrow> now \<le> mc_expires_at c \<and> mc_issued_at c \<le> saturating_add now 60"
  using assms by (auto simp: credential_verify_def not_less split: if_splits)

lemma member_accepted:
  assumes "member_row env signer n r"
  shows "validate_peer_membership (ce_prims env) (ce_cred_of_json env) now (shown_peer (n, r))
      (Some (signer_public (ce_prims env) signer)) = Inr () \<longleftrightarrow> current_row env now r"
proof -
  obtain c where c: "ce_cred_of_json env (row_credential r) = Some c" "mc_node_id c = n"
      "credential_verify (ce_prims env) c (signer_public (ce_prims env) signer) (mc_issued_at c) = Inr ()"
    using assms by (auto simp: member_row_def credential_issued_def split: option.splits)
  have "pi_credential (shown_peer (n, r)) = row_credential r" "pi_noise_public (shown_peer (n, r)) = row_noise_public r"
    by (simp_all add: shown_peer_def private_peer_def stored_of_row_def)
  then show ?thesis
    using c credential_verify_later [OF c(3), of now]
    by (cases "credential_verify (ce_prims env) c (signer_public (ce_prims env) signer) now")
      (auto simp: validate_peer_membership_def current_row_def shown_peer_fields)
qed

text \<open>A node that was admitted twice with different Noise keys holds two valid credentials, and the
  row keeps the second. A registration with the first one stores the first Noise key beside the
  second credential: a row that is not current at any time, so that from then on every node
  refuses every snapshot.\<close>

lemma first_credential_blocks_network:
  assumes cred: "register_credential env t s n a b cred tok = (Inr (cb, None), s1)"
    and store: "register_store env t s1 p cb None = (Inr changed, s2)" "sp_node_id p = n" "sp_noise_public p = b"
    and second: "load_peer s n = Some q" "ce_cred_of_json env (sp_credential q) = Some c" "mc_noise_public c \<noteq> b"
  shows "\<exists>r. map_of (co_peers s2) n = Some r \<and> \<not> row_revoked r \<and> \<not> current_row env now r"
proof -
  have "cb = sp_credential q"
    using cred second(1)
    by (auto simp: register_credential_def split: option.splits sum.splits if_splits prod.splits)
  then show ?thesis
    using store second(2,3)
    by (auto simp: register_store_def Let_def touch_peer_def update_peer_def update_conv' map_of_map_entry
        row_of_stored_def current_row_def dest!: bump_Inr split: sum.splits option.splits)
qed

text \<open>For the witnesses: a codec of credentials with the round trip of the JSON one, and a database
  of two members.\<close>

definition sample_cred_to_json :: "membership_credential \<Rightarrow> bytes" where
  "sample_cred_to_json c =
    node_as_bytes (mc_node_id c) @ to_be 32 (mc_signing_public c) @ to_be 32 (mc_noise_public c)
    @ to_be 8 (mc_issued_at c) @ to_be 8 (mc_expires_at c) @ to_be 32 (mc_server_key_id c)
    @ concat (map (\<lambda>b. [1, b]) (as_bytes (mc_tenant c))) @ 0 # mc_signature c"

fun sample_tenant :: "bytes \<Rightarrow> string \<times> bytes" where
  "sample_tenant (b # x # bs) =
    (if b = 0 then ([], x # bs) else let (t, signature) = sample_tenant bs in (char_of (unat x) # t, signature))"
| "sample_tenant _ = ([], [])"

definition sample_cred_of_json :: "bytes \<Rightarrow> membership_credential option" where
  "sample_cred_of_json bs =
    (if length bs < 144 then None
     else let (tenant, signature) = sample_tenant (drop 144 bs) in Some
      \<lparr>mc_node_id = NodeId (word_be (take 32 bs)), mc_signing_public = word_be (take 32 (drop 32 bs)),
       mc_noise_public = word_be (take 32 (drop 64 bs)), mc_tenant = tenant,
       mc_issued_at = word_be (take 8 (drop 96 bs)), mc_expires_at = word_be (take 8 (drop 104 bs)),
       mc_server_key_id = word_be (take 32 (drop 112 bs)), mc_signature = signature\<rparr>)"

definition member_env :: coord_env where
  "member_env = sample_env\<lparr>ce_cred_to_json := sample_cred_to_json, ce_cred_of_json := sample_cred_of_json\<rparr>"

definition member_signer :: server_signer where
  "member_signer = \<lparr>ss_signing = 3\<rparr>"

definition member_credential :: "256 word \<Rightarrow> membership_credential" where
  "member_credential signing = credential_sign sample_prims member_signer
    (credential_unsigned 50 \<lparr>pid_node_id = NodeId (signing + 1), pid_signing_public = signing, pid_noise_public = 1\<rparr>
      ''t'' 500 (signer_key_id sample_prims member_signer))"

definition member_sample :: "256 word \<Rightarrow> u32 \<Rightarrow> node_id \<times> peer_row" where
  "member_sample signing address = (NodeId (signing + 1), sample_row\<lparr>row_signing_public := signing,
     row_virtual_ipv4 := Some address, row_credential := sample_cred_to_json (member_credential signing)\<rparr>)"

definition member_db :: coord_db where
  "member_db = sample_db\<lparr>db_peers := [member_sample 20 0x0AFE0001, member_sample 30 0x0AFE0002]\<rparr>"

definition member_state :: coord_state where
  "member_state = sample_state\<lparr>co_peers := [member_sample 20 0x0AFE0001, member_sample 30 0x0AFE0002]\<rparr>"

lemma sample_tenant_round:
  "sample_tenant (concat (map (\<lambda>b. [1, b]) (as_bytes t)) @ 0 # signature) = (t, signature)"
proof (induction t)
  case Nil
  then show ?case by (cases signature) (simp_all add: as_bytes_def)
qed (simp add: as_bytes_def unat_of_nat)

lemma member_json: "credential_json_law member_env"
  unfolding credential_json_law_def
proof
  fix c :: membership_credential
  have "length (sample_cred_to_json c) \<ge> 144"
    by (simp add: sample_cred_to_json_def node_as_bytes_def)
  moreover have "drop 144 (sample_cred_to_json c) = concat (map (\<lambda>b. [1, b]) (as_bytes (mc_tenant c))) @ 0 # mc_signature c"
    by (simp add: sample_cred_to_json_def node_as_bytes_def)
  ultimately show "ce_cred_of_json member_env (ce_cred_to_json member_env c) = Some c"
    by (simp add: member_env_def sample_cred_of_json_def sample_tenant_round)
      (simp add: sample_cred_to_json_def node_as_bytes_def)
qed


lemma member_credential_verifies:
  "50 \<le> now \<Longrightarrow> now \<le> 500 \<Longrightarrow>
   credential_verify sample_prims (member_credential signing) (signer_public sample_prims member_signer) now = Inr ()"
  unfolding member_credential_def
  by (rule credential_issued_verifies [OF sample_signature_law])
    (auto simp: sample_prims_def word_le_nat_alt unat_saturating_add)

lemma member_rows:
  "member_row member_env member_signer (fst (member_sample signing a)) (snd (member_sample signing a))"
  "current_row member_env 100 (snd (member_sample signing a))"
  using member_json member_credential_verifies [of 50 signing]
  by (simp_all add: member_row_def credential_issued_def current_row_def credential_json_law_def member_sample_def)
    (simp_all add: member_env_def member_credential_def credential_sign_def credential_unsigned_def sample_env_def
      sample_row_def saturating_add_def)

lemma member_open: "open_server member_env ''t'' member_signer [] [] member_db = Inr member_state"
  by (simp add: open_server_def Let_def load_network_config_def migrate_virtual_ipv4_def member_db_def sample_db_def
      member_sample_def sample_row_def member_state_def sample_state_def virtual_ipv4_host_def
      VIRTUAL_IPV4_NETWORK_BASE_def VIRTUAL_IPV4_USABLE_HOSTS_def stored_generation_def member_signer_def)

lemma member_db_ok: "db_ok member_env member_db"
  by (simp add: db_ok_def member_db_def member_sample_def sample_row_def member_env_def sample_env_def sample_prims_def)

lemma member_signer_state: "co_signer member_state = member_signer"
  by (simp add: member_state_def sample_state_def member_signer_def)

lemma member_db_members: "db_members member_env member_signer member_db"
  using member_rows(1) by (auto simp: db_members_def member_db_def member_row_def split: if_splits)

lemma member_node_id:
  "node_id_of (sample_node_env\<lparr>ne_cred := cred\<rparr>) (fresh_node (node_config_default\<lparr>nc_server_public_key := key\<rparr>) signing)
    = NodeId (signing + 2)"
  by (simp add: node_id_of_def fresh_node_def node_build_def identity_public_def sample_node_env_def
    sample_prims_def node_config_default_def)


end
