(* ===== verification/Vela_Client.thy ===== *)
theory Vela_Client
  imports Vela_Coord Vela_Dns
begin

section \<open>The client of the coordinator\<close>

text \<open>
  \<open>vela-coord-client/src/lib.rs\<close>: the connection to the coordinator, the requests with their
  responses, and the queue of messages that arrive while a request waits. The WebSocket is the
  list of the events its reader yields; a request whose list is exhausted still waits, which
  is the value \<open>None\<close>, and the deadline of the callers turns into \<open>Timeout\<close>. What
  arrives after a deadline is appended to the list before the next call. Each send may fail.
\<close>

subsection \<open>State\<close>

datatype ws_message =
    WsText string
  | WsBinary bytes
  | WsPing bytes
  | WsPong bytes
  | WsClose
  | WsFrame

text \<open>The result of \<open>reader.next()\<close>: \<open>None\<close> is the end of the stream, \<open>Inl\<close> a read error.\<close>

type_synonym ws_event = "(string + ws_message) option"

text \<open>The payload of \<open>CoordClientError::WebSocket\<close> before it is formatted as text.\<close>

datatype ws_failure =
    StreamError string
  | ResolveError dns_error
  | TcpError string
  | TcpTimeout socket_addr
  | HandshakeError string
  | HandshakeTimeout socket_addr
  | NoResolvedAddress

datatype client_error =
    ClientInvalidEndpoint
  | ClientWebSocket ws_failure
  | ClientSerialization
  | ClientProtocol proto_error
  | ClientInvalidCredential
  | ClientInvalidSnapshot
  | ClientServerKeyRequired
  | ClientServer string string
  | ClientUnexpectedMessage
  | ClientInvalidRuntimeStatus
  | ClientClosed
  | ClientTimeout string

text \<open>The libraries: Base64, JSON and the signature primitives of the coordinator's environment,
  the JSON of control messages, the clock, and the outcome of the n-th write to the socket.\<close>

record client_env =
  ke_coord :: coord_env
  ke_to_json :: "control_message \<Rightarrow> string"
  ke_of_json :: "string \<Rightarrow> control_message option"
  ke_of_slice :: "bytes \<Rightarrow> control_message option"
  ke_now :: u64
  ke_io :: "nat \<Rightarrow> string option"

record coordination_client =
  cl_endpoint :: string
  cl_server_public_key :: "(256 word) option"
  cl_pending :: "control_message list"
  cl_incoming :: "ws_event list"
  cl_outgoing :: "ws_message list"
  cl_writes :: nat

record registration =
  rg_credential :: membership_credential
  rg_peers :: "peer_info list"
  rg_snapshot :: network_snapshot

type_synonym 'a reply = "(client_error + 'a) option"

subsection \<open>Sending and receiving\<close>

definition ws_write :: "client_env \<Rightarrow> ws_message \<Rightarrow> coordination_client \<Rightarrow> (client_error + unit) \<times> coordination_client" where
  "ws_write env message c =
    (case ke_io env (cl_writes c) of
       Some error \<Rightarrow> (Inl (ClientWebSocket (StreamError error)), c\<lparr>cl_writes := cl_writes c + 1\<rparr>)
     | None \<Rightarrow> (Inr (), c\<lparr>cl_outgoing := cl_outgoing c @ [message], cl_writes := cl_writes c + 1\<rparr>))"

definition client_send :: "client_env \<Rightarrow> control_message \<Rightarrow> coordination_client \<Rightarrow> (client_error + unit) \<times> coordination_client" where
  "client_send env message c = ws_write env (WsText (ke_to_json env message)) c"

text \<open>The end of the stream is final: the reader keeps yielding it.\<close>

fun recv_events ::
  "client_env \<Rightarrow> ws_event list \<Rightarrow> coordination_client \<Rightarrow> control_message reply \<times> coordination_client" where
  "recv_events env [] c = (None, c\<lparr>cl_incoming := []\<rparr>)"
| "recv_events env (event # rest) c =
    (case event of
       None \<Rightarrow> (Some (Inl ClientClosed), c\<lparr>cl_incoming := event # rest\<rparr>)
     | Some (Inl error) \<Rightarrow> (Some (Inl (ClientWebSocket (StreamError error))), c\<lparr>cl_incoming := rest\<rparr>)
     | Some (Inr WsClose) \<Rightarrow> (Some (Inl ClientClosed), c\<lparr>cl_incoming := rest\<rparr>)
     | Some (Inr (WsText text)) \<Rightarrow>
        (case ke_of_json env text of
           None \<Rightarrow> (Some (Inl ClientSerialization), c\<lparr>cl_incoming := rest\<rparr>)
         | Some (Ping number) \<Rightarrow>
            (case client_send env (Pong number) c of
               (Inl e, c') \<Rightarrow> (Some (Inl e), c'\<lparr>cl_incoming := rest\<rparr>)
             | (Inr _, c') \<Rightarrow> recv_events env rest c')
         | Some message \<Rightarrow> (Some (Inr message), c\<lparr>cl_incoming := rest\<rparr>))
     | Some (Inr (WsBinary bytes)) \<Rightarrow>
        (case ke_of_slice env bytes of
           None \<Rightarrow> (Some (Inl ClientSerialization), c\<lparr>cl_incoming := rest\<rparr>)
         | Some (Ping number) \<Rightarrow>
            (case client_send env (Pong number) c of
               (Inl e, c') \<Rightarrow> (Some (Inl e), c'\<lparr>cl_incoming := rest\<rparr>)
             | (Inr _, c') \<Rightarrow> recv_events env rest c')
         | Some message \<Rightarrow> (Some (Inr message), c\<lparr>cl_incoming := rest\<rparr>))
     | Some (Inr (WsPing payload)) \<Rightarrow>
        (case ws_write env (WsPong payload) c of
           (Inl e, c') \<Rightarrow> (Some (Inl e), c'\<lparr>cl_incoming := rest\<rparr>)
         | (Inr _, c') \<Rightarrow> recv_events env rest c')
     | Some (Inr _) \<Rightarrow> recv_events env rest c)"

definition recv_wire :: "client_env \<Rightarrow> coordination_client \<Rightarrow> control_message reply \<times> coordination_client" where
  "recv_wire env c = recv_events env (cl_incoming c) c"

definition client_recv :: "client_env \<Rightarrow> coordination_client \<Rightarrow> control_message reply \<times> coordination_client" where
  "client_recv env c =
    (case cl_pending c of
       message # pending \<Rightarrow> (Some (Inr message), c\<lparr>cl_pending := pending\<rparr>)
     | [] \<Rightarrow> recv_wire env c)"

fun is_snapshot :: "control_message \<Rightarrow> bool" where
  "is_snapshot (Snapshot _) = True"
| "is_snapshot _ = False"

text \<open>The \<open>while\<close> loop that removes the snapshots from position \<open>next\<close> on.\<close>

function remove_snapshots :: "nat \<Rightarrow> control_message list \<Rightarrow> control_message list" where
  "remove_snapshots next pending =
    (if next < length pending then
       if is_snapshot (pending ! next)
       then remove_snapshots next (take next pending @ drop (next + 1) pending)
       else remove_snapshots (next + 1) pending
     else pending)"
  by pat_completeness auto
termination
  by (relation "measure (\<lambda>(next, pending). length pending - next)") auto

declare remove_snapshots.simps [simp del]

definition enqueue_pending :: "control_message list \<Rightarrow> control_message \<Rightarrow> control_message list" where
  "enqueue_pending pending message =
    (case (if is_snapshot message then position is_snapshot pending else None) of
       Some i \<Rightarrow> remove_snapshots (i + 1) (pending[i := message])
     | None \<Rightarrow> pending @ [message])"

subsection \<open>Verification of what the server sends\<close>

definition verify_peer_credential ::
  "client_env \<Rightarrow> (256 word) option \<Rightarrow> peer_info \<Rightarrow> client_error + unit" where
  "verify_peer_credential env server_public_key peer =
    (case server_public_key of
       None \<Rightarrow> Inl ClientServerKeyRequired
     | Some server_key \<Rightarrow>
    (case ce_cred_of_json (ke_coord env) (pi_credential peer) of
       None \<Rightarrow> Inl ClientInvalidCredential
     | Some credential \<Rightarrow>
    (case credential_verify (ce_prims (ke_coord env)) credential server_key (ke_now env) of
       Inl _ \<Rightarrow> Inl ClientInvalidCredential
     | Inr _ \<Rightarrow>
        if mc_node_id credential \<noteq> pi_node_id peer
           \<or> mc_signing_public credential \<noteq> pi_signing_public peer
           \<or> mc_noise_public credential \<noteq> pi_noise_public peer
        then Inl ClientInvalidCredential
        else Inr ())))"

definition verify_public_peer ::
  "client_env \<Rightarrow> (256 word) option \<Rightarrow> public_peer_info \<Rightarrow> client_error + peer_info" where
  "verify_public_peer env server_public_key peer =
    (case peer_info_try_from (ce_b64_decode (ke_coord env)) peer of
       Inl e \<Rightarrow> Inl (ClientProtocol e)
     | Inr peer \<Rightarrow>
    (case verify_peer_credential env server_public_key peer of
       Inl e \<Rightarrow> Inl e
     | Inr _ \<Rightarrow> Inr peer))"

text \<open>\<open>for peer in .. { f(peer)? }\<close> and \<open>.map(f).collect::<Result<Vec<_>, _>>()\<close>.\<close>

fun collect_results :: "('a \<Rightarrow> 'e + 'b) \<Rightarrow> 'a list \<Rightarrow> 'e + 'b list" where
  "collect_results f [] = Inr []"
| "collect_results f (x # xs) =
    (case f x of
       Inl e \<Rightarrow> Inl e
     | Inr y \<Rightarrow> (case collect_results f xs of Inl e \<Rightarrow> Inl e | Inr ys \<Rightarrow> Inr (y # ys)))"

definition verify_registration ::
  "client_env \<Rightarrow> (256 word) option \<Rightarrow> string \<Rightarrow> public_peer_info list \<Rightarrow> network_snapshot \<Rightarrow>
   client_error + registration" where
  "verify_registration env server_public_key credential peers snapshot =
    (case ce_b64_decode (ke_coord env) credential of
       Inl _ \<Rightarrow> Inl ClientInvalidCredential
     | Inr credential_bytes \<Rightarrow>
    (case ce_cred_of_json (ke_coord env) credential_bytes of
       None \<Rightarrow> Inl ClientSerialization
     | Some credential \<Rightarrow>
    (case server_public_key of
       None \<Rightarrow> Inl ClientServerKeyRequired
     | Some server_key \<Rightarrow>
    (case verify_snapshot (ce_prims (ke_coord env)) snapshot server_key (ke_now env) of
       Inl _ \<Rightarrow> Inl ClientInvalidSnapshot
     | Inr _ \<Rightarrow>
    (case snapshot_validate (cp_blake3 (ce_prims (ke_coord env))) snapshot of
       Inl e \<Rightarrow> Inl (ClientProtocol e)
     | Inr _ \<Rightarrow>
    (case collect_results (verify_peer_credential env server_public_key) (sn_peers snapshot) of
       Inl e \<Rightarrow> Inl e
     | Inr _ \<Rightarrow>
    (case credential_verify (ce_prims (ke_coord env)) credential server_key (ke_now env) of
       Inl _ \<Rightarrow> Inl ClientInvalidCredential
     | Inr _ \<Rightarrow>
    (case collect_results (verify_public_peer env server_public_key) peers of
       Inl e \<Rightarrow> Inl e
     | Inr peers \<Rightarrow>
        Inr \<lparr>rg_credential = credential, rg_peers = peers, rg_snapshot = snapshot\<rparr>))))))))"

subsection \<open>Registration\<close>

definition register_message ::
  "client_env \<Rightarrow> identity \<Rightarrow> u64 \<Rightarrow> string option \<Rightarrow> membership_credential option \<Rightarrow> candidate list \<Rightarrow> control_message" where
  "register_message env identity incarnation token credential candidates =
    (let public = identity_public (ce_prims (ke_coord env)) identity
     in Register (pid_node_id public) incarnation
          (ce_b64_encode (ke_coord env) (to_be 32 (pid_signing_public public)))
          (ce_b64_encode (ke_coord env) (to_be 32 (pid_noise_public public)))
          (case credential of
             Some value \<Rightarrow> ce_b64_encode (ke_coord env) (ce_cred_to_json (ke_coord env) value)
           | None \<Rightarrow> [])
          token candidates [CapDiagnosticPing])"

definition register_inner ::
  "client_env \<Rightarrow> identity \<Rightarrow> u64 \<Rightarrow> string option \<Rightarrow> membership_credential option \<Rightarrow> candidate list \<Rightarrow>
   coordination_client \<Rightarrow> registration reply \<times> coordination_client" where
  "register_inner env identity incarnation token credential candidates c =
    (case client_send env (register_message env identity incarnation token credential candidates) c of
       (Inl e, c1) \<Rightarrow> (Some (Inl e), c1)
     | (Inr _, c1) \<Rightarrow>
    (case client_recv env c1 of
       (None, c2) \<Rightarrow> (None, c2)
     | (Some (Inl e), c2) \<Rightarrow> (Some (Inl e), c2)
     | (Some (Inr (RegisterOk cred peers snapshot)), c2) \<Rightarrow>
        (Some (verify_registration env (cl_server_public_key c2) cred peers snapshot), c2)
     | (Some (Inr (ControlError code message)), c2) \<Rightarrow> (Some (Inl (ClientServer code message)), c2)
     | (Some (Inr _), c2) \<Rightarrow> (Some (Inl ClientUnexpectedMessage), c2)))"

text \<open>\<open>timeout(CONTROL_REQUEST_TIMEOUT, ..)\<close>.\<close>

definition with_timeout :: "string \<Rightarrow> 'a reply \<times> coordination_client \<Rightarrow> (client_error + 'a) \<times> coordination_client" where
  "with_timeout what r =
    (case r of (None, c) \<Rightarrow> (Inl (ClientTimeout what), c) | (Some answer, c) \<Rightarrow> (answer, c))"

definition register_with_incarnation ::
  "client_env \<Rightarrow> identity \<Rightarrow> u64 \<Rightarrow> string option \<Rightarrow> membership_credential option \<Rightarrow> candidate list \<Rightarrow>
   coordination_client \<Rightarrow> (client_error + registration) \<times> coordination_client" where
  "register_with_incarnation env identity incarnation token credential candidates c =
    with_timeout ''register'' (register_inner env identity incarnation token credential candidates c)"

text \<open>\<open>while incarnation == 0 { incarnation = rand::random() }\<close> over the stream of random numbers.\<close>

partial_function (option) draw_incarnation :: "(nat \<Rightarrow> u64) \<Rightarrow> nat \<Rightarrow> u64 option" where
  "draw_incarnation random i =
    (if random i = 0 then draw_incarnation random (i + 1) else Some (random i))"

definition client_register ::
  "client_env \<Rightarrow> (nat \<Rightarrow> u64) \<Rightarrow> identity \<Rightarrow> string option \<Rightarrow> membership_credential option \<Rightarrow> candidate list \<Rightarrow>
   coordination_client \<Rightarrow> ((client_error + registration) \<times> coordination_client) option" where
  "client_register env random identity token credential candidates c =
    map_option (\<lambda>incarnation. register_with_incarnation env identity incarnation token credential candidates c)
      (draw_incarnation random 0)"

subsection \<open>Requests\<close>

lemma recv_events_progress:
  "recv_events env events c = (Some (Inr message), c') \<Longrightarrow> length (cl_incoming c') < length events"
proof (induction events arbitrary: c)
  case (Cons event rest)
  from Cons.prems show ?case
    by (auto split: option.splits sum.splits ws_message.splits control_message.splits prod.splits dest!: Cons.IH)
qed simp

text \<open>The loops of the requests: a handler looks at each message and either ends the request or
  goes on with an updated queue.\<close>

function await_reply ::
  "client_env \<Rightarrow> (control_message \<Rightarrow> control_message list \<Rightarrow> (client_error + 'a) + control_message list) \<Rightarrow>
   coordination_client \<Rightarrow> 'a reply \<times> coordination_client" where
  "await_reply env handler c =
    (case recv_wire env c of
       (None, c1) \<Rightarrow> (None, c1)
     | (Some (Inl e), c1) \<Rightarrow> (Some (Inl e), c1)
     | (Some (Inr message), c1) \<Rightarrow>
    (case handler message (cl_pending c1) of
       Inl answer \<Rightarrow> (Some answer, c1)
     | Inr pending \<Rightarrow> await_reply env handler (c1\<lparr>cl_pending := pending\<rparr>)))"
  by pat_completeness auto
termination
  by (relation "measure (\<lambda>(env, handler, c). length (cl_incoming c))")
    (auto simp: recv_wire_def dest: recv_events_progress [OF sym])

declare await_reply.simps [simp del]

fun snapshot_reply ::
  "control_message \<Rightarrow> control_message list \<Rightarrow> (client_error + network_snapshot) + control_message list" where
  "snapshot_reply (SnapshotResponse snapshot) pending = Inl (Inr snapshot)"
| "snapshot_reply (ConnectSignal peer target) pending = Inr (enqueue_pending pending (ConnectSignal peer target))"
| "snapshot_reply (Snapshot snapshot) pending = Inr (enqueue_pending pending (Snapshot snapshot))"
| "snapshot_reply (ControlError code message) pending = Inl (Inl (ClientServer code message))"
| "snapshot_reply _ pending = Inl (Inl ClientUnexpectedMessage)"

fun candidates_reply ::
  "control_message \<Rightarrow> control_message list \<Rightarrow> (client_error + network_snapshot) + control_message list" where
  "candidates_reply (Snapshot snapshot) pending = Inl (Inr snapshot)"
| "candidates_reply (ConnectSignal peer target) pending = Inr (pending @ [ConnectSignal peer target])"
| "candidates_reply (ControlError code message) pending = Inl (Inl (ClientServer code message))"
| "candidates_reply _ pending = Inl (Inl ClientUnexpectedMessage)"

fun lookup_reply ::
  "client_env \<Rightarrow> (256 word) option \<Rightarrow> control_message \<Rightarrow> control_message list \<Rightarrow>
   (client_error + peer_info) + control_message list" where
  "lookup_reply env key (PeerInfo peer) pending = Inl (verify_public_peer env key peer)"
| "lookup_reply env key (ControlError code message) pending = Inl (Inl (ClientServer code message))"
| "lookup_reply env key (ConnectSignal _ _) pending = Inr pending"
| "lookup_reply env key (Snapshot snapshot) pending = Inr (enqueue_pending pending (Snapshot snapshot))"
| "lookup_reply env key _ pending = Inl (Inl ClientUnexpectedMessage)"

fun list_reply ::
  "control_message \<Rightarrow> control_message list \<Rightarrow> (client_error + peer_summary list) + control_message list" where
  "list_reply (ListPeersOk peers) pending = Inl (Inr peers)"
| "list_reply (ControlError code message) pending = Inl (Inl (ClientServer code message))"
| "list_reply (ConnectSignal _ _) pending = Inr pending"
| "list_reply (Snapshot snapshot) pending = Inr (enqueue_pending pending (Snapshot snapshot))"
| "list_reply _ pending = Inl (Inl ClientUnexpectedMessage)"

definition client_request ::
  "client_env \<Rightarrow> control_message \<Rightarrow>
   (control_message \<Rightarrow> control_message list \<Rightarrow> (client_error + 'a) + control_message list) \<Rightarrow>
   coordination_client \<Rightarrow> 'a reply \<times> coordination_client" where
  "client_request env message handler c =
    (case client_send env message c of
       (Inl e, c1) \<Rightarrow> (Some (Inl e), c1)
     | (Inr _, c1) \<Rightarrow> await_reply env handler c1)"

definition request_snapshot ::
  "client_env \<Rightarrow> coordination_client \<Rightarrow> (client_error + network_snapshot) \<times> coordination_client" where
  "request_snapshot env c =
    with_timeout ''request snapshot'' (client_request env RequestSnapshot snapshot_reply c)"

definition update_candidates_and_get_snapshot ::
  "client_env \<Rightarrow> candidate list \<Rightarrow> coordination_client \<Rightarrow> (client_error + network_snapshot) \<times> coordination_client" where
  "update_candidates_and_get_snapshot env candidates c =
    with_timeout ''update candidates'' (client_request env (UpdateCandidates candidates) candidates_reply c)"

definition lookup_peer ::
  "client_env \<Rightarrow> node_id \<Rightarrow> coordination_client \<Rightarrow> (client_error + peer_info) \<times> coordination_client" where
  "lookup_peer env node_id c =
    with_timeout ''lookup peer''
      (client_request env (LookupPeer node_id) (lookup_reply env (cl_server_public_key c)) c)"

definition client_list_peers ::
  "client_env \<Rightarrow> coordination_client \<Rightarrow> (client_error + peer_summary list) \<times> coordination_client" where
  "client_list_peers env c = with_timeout ''list peers'' (client_request env ListPeers list_reply c)"

definition update_candidates ::
  "client_env \<Rightarrow> candidate list \<Rightarrow> coordination_client \<Rightarrow> (client_error + unit) \<times> coordination_client" where
  "update_candidates env candidates c = client_send env (UpdateCandidates candidates) c"

definition update_runtime_status ::
  "client_env \<Rightarrow> nat \<Rightarrow> coordination_client \<Rightarrow> (client_error + unit) \<times> coordination_client" where
  "update_runtime_status env virtual_mtu c =
    (if 2 ^ 16 \<le> virtual_mtu then (Inl ClientInvalidRuntimeStatus, c)
     else client_send env (RuntimeStatus (word_of_nat virtual_mtu)) c)"

subsection \<open>Connecting\<close>

datatype 'a dial_outcome = Connected 'a | ConnectFailed string | ConnectTimedOut

text \<open>The URL parser and the network: DNS over HTTPS, TCP connections and WebSocket handshakes.\<close>

record 'w connect_env =
  kn_url_parse :: "string \<Rightarrow> string + url"
  kn_url_port :: "url \<Rightarrow> u16 option"
  kn_parse_ip :: "string \<Rightarrow> ip_addr option"
  kn_query :: "string \<Rightarrow> 'w query_fn"
  kn_tcp :: "socket_addr \<Rightarrow> unit dial_outcome"
  kn_handshake :: "socket_addr \<Rightarrow> ws_event list dial_outcome"

fun try_addresses ::
  "'w connect_env \<Rightarrow> string \<Rightarrow> socket_addr list \<Rightarrow> ws_failure option \<Rightarrow> client_error + coordination_client" where
  "try_addresses net server_url [] last_error =
    Inl (ClientWebSocket (case last_error of None \<Rightarrow> NoResolvedAddress | Some e \<Rightarrow> e))"
| "try_addresses net server_url (address # addresses) last_error =
    (case kn_tcp net address of
       ConnectFailed error \<Rightarrow> try_addresses net server_url addresses (Some (TcpError error))
     | ConnectTimedOut \<Rightarrow> try_addresses net server_url addresses (Some (TcpTimeout address))
     | Connected _ \<Rightarrow>
    (case kn_handshake net address of
       Connected events \<Rightarrow>
        Inr \<lparr>cl_endpoint = server_url, cl_server_public_key = None, cl_pending = [],
             cl_incoming = events, cl_outgoing = [], cl_writes = 0\<rparr>
     | ConnectFailed error \<Rightarrow> try_addresses net server_url addresses (Some (HandshakeError error))
     | ConnectTimedOut \<Rightarrow> try_addresses net server_url addresses (Some (HandshakeTimeout address))))"

definition connect_with_doh ::
  "'w connect_env \<Rightarrow> string \<Rightarrow> string list \<Rightarrow> 'w \<Rightarrow> (client_error + coordination_client) \<times> 'w" where
  "connect_with_doh net server_url doh_servers w =
    (case kn_url_parse net server_url of
       Inl _ \<Rightarrow> (Inl ClientInvalidEndpoint, w)
     | Inr url \<Rightarrow>
       if url_scheme url \<noteq> ''ws'' \<and> url_scheme url \<noteq> ''wss'' then (Inl ClientInvalidEndpoint, w)
       else case url_host url of
         None \<Rightarrow> (Inl ClientInvalidEndpoint, w)
       | Some host \<Rightarrow>
      (case kn_url_port net url of
         None \<Rightarrow> (Inl ClientInvalidEndpoint, w)
       | Some port \<Rightarrow>
      (case kn_parse_ip net host of
         Some address \<Rightarrow> (try_addresses net server_url [sock_new address port] None, w)
       | None \<Rightarrow>
      (case resolve (kn_parse_ip net) (kn_query net) host doh_servers w of
         (Inl error, w') \<Rightarrow> (Inl (ClientWebSocket (ResolveError error)), w')
       | (Inr addresses, w') \<Rightarrow>
          (try_addresses net server_url (map (\<lambda>a. sock_new a port) addresses) None, w')))))"

definition client_connect ::
  "'w connect_env \<Rightarrow> string \<Rightarrow> 'w \<Rightarrow> (client_error + coordination_client) \<times> 'w" where
  "client_connect net server_url w = connect_with_doh net server_url default_servers w"

definition trust_server_key :: "256 word \<Rightarrow> coordination_client \<Rightarrow> coordination_client" where
  "trust_server_key key c = c\<lparr>cl_server_public_key := Some key\<rparr>"

definition client_reconnect ::
  "client_env \<Rightarrow> 'w connect_env \<Rightarrow> identity \<Rightarrow> u64 \<Rightarrow> membership_credential option \<Rightarrow> candidate list \<Rightarrow>
   string list \<Rightarrow> coordination_client \<Rightarrow> 'w \<Rightarrow> (client_error + registration) \<times> coordination_client \<times> 'w" where
  "client_reconnect env net identity incarnation credential candidates doh_servers c w =
    (case connect_with_doh net (cl_endpoint c) doh_servers w of
       (Inl e, w') \<Rightarrow> (Inl e, c, w')
     | (Inr replacement, w') \<Rightarrow>
    (case register_with_incarnation env identity incarnation None credential candidates
        (case cl_server_public_key c of
           Some key \<Rightarrow> trust_server_key key replacement | None \<Rightarrow> replacement) of
       (Inl e, _) \<Rightarrow> (Inl e, c, w')
     | (Inr registration, replacement') \<Rightarrow> (Inr registration, replacement', w')))"

subsection \<open>The queue of messages\<close>

lemma remove_snapshots_filter:
  "remove_snapshots n xs = take n xs @ filter (\<lambda>m. \<not> is_snapshot m) (drop n xs)"
proof (induction n xs rule: remove_snapshots.induct)
  case (1 n xs)
  show ?case
  proof (cases "n < length xs")
    case True
    then have "drop n xs = xs ! n # drop (n + 1) xs" by (simp add: Cons_nth_drop_Suc)
    then show ?thesis
      using True 1 by (subst remove_snapshots.simps) (simp add: take_Suc_conv_app_nth)
  qed (subst remove_snapshots.simps, simp)
qed

lemma enqueue_pending_filter:
  "filter is_snapshot (enqueue_pending q m) = (if is_snapshot m then [m] else filter is_snapshot q)"
  "filter (\<lambda>m. \<not> is_snapshot m) (enqueue_pending q m) =
     filter (\<lambda>m. \<not> is_snapshot m) q @ (if is_snapshot m then [] else [m])"
proof -
  have "filter is_snapshot (enqueue_pending q m) = [m] \<and>
      filter (\<lambda>m. \<not> is_snapshot m) (enqueue_pending q m) = filter (\<lambda>m. \<not> is_snapshot m) q" if m: "is_snapshot m"
  proof (cases "position is_snapshot q")
    case (Some i)
    note i = position_Some [OF Some]
    have q: "q = take i q @ q ! i # drop (Suc i) q" using i by (simp add: id_take_nth_drop)
    have "enqueue_pending q m = take i q @ m # filter (\<lambda>m. \<not> is_snapshot m) (drop (Suc i) q)"
      using m i by (simp add: enqueue_pending_def Some remove_snapshots_filter take_Suc_conv_app_nth)
    moreover have "filter (\<lambda>m. \<not> is_snapshot m) q =
        filter (\<lambda>m. \<not> is_snapshot m) (take i q) @ filter (\<lambda>m. \<not> is_snapshot m) (drop (Suc i) q)"
      using i by (subst q) simp
    ultimately show ?thesis using m i by simp
  next
    case None
    then show ?thesis using m None None [unfolded position_None] by (simp add: enqueue_pending_def filter_empty_conv)
  qed
  then show "filter is_snapshot (enqueue_pending q m) = (if is_snapshot m then [m] else filter is_snapshot q)"
    "filter (\<lambda>m. \<not> is_snapshot m) (enqueue_pending q m) =
     filter (\<lambda>m. \<not> is_snapshot m) q @ (if is_snapshot m then [] else [m])"
    by (auto simp: enqueue_pending_def)
qed

text \<open>The queue after the messages that arrived during a request.\<close>

definition last_snapshot :: "control_message list \<Rightarrow> control_message list \<Rightarrow> control_message list" where
  "last_snapshot q ms = (if filter is_snapshot ms = [] then filter is_snapshot q else [last (filter is_snapshot ms)])"

lemma enqueue_all:
  "filter is_snapshot (foldl enqueue_pending q ms) = last_snapshot q ms"
  "filter (\<lambda>m. \<not> is_snapshot m) (foldl enqueue_pending q ms) =
    filter (\<lambda>m. \<not> is_snapshot m) q @ filter (\<lambda>m. \<not> is_snapshot m) ms"
proof (induction ms arbitrary: q)
  case (Cons m ms)
  { case 1 show ?case using Cons(1) [of "enqueue_pending q m"] by (auto simp: last_snapshot_def enqueue_pending_filter) }
  { case 2 show ?case using Cons(2) [of "enqueue_pending q m"] by (simp add: enqueue_pending_filter) }
qed (simp_all add: last_snapshot_def)

subsection \<open>A request and its response\<close>

text \<open>What the code relies on: \<open>serde_json\<close> reads back the message it wrote, and the socket accepts
  writes.\<close>

definition json_reads :: "client_env \<Rightarrow> control_message \<Rightarrow> bool" where
  "json_reads env m \<longleftrightarrow> ke_of_json env (ke_to_json env m) = Some m"

definition writes_succeed :: "client_env \<Rightarrow> bool" where
  "writes_succeed env \<longleftrightarrow> (\<forall>n. ke_io env n = None)"

definition text_event :: "client_env \<Rightarrow> control_message \<Rightarrow> ws_event" where
  "text_event env m = Some (Inr (WsText (ke_to_json env m)))"

definition pong_text :: "client_env \<Rightarrow> control_message \<Rightarrow> ws_message list" where
  "pong_text env m = (case m of Ping number \<Rightarrow> [WsText (ke_to_json env (Pong number))] | _ \<Rightarrow> [])"

fun is_ping :: "control_message \<Rightarrow> bool" where
  "is_ping (Ping _) = True"
| "is_ping _ = False"

lemma client_send_ok:
  "writes_succeed env \<Longrightarrow> client_send env m c =
    (Inr (), c\<lparr>cl_outgoing := cl_outgoing c @ [WsText (ke_to_json env m)], cl_writes := cl_writes c + 1\<rparr>)"
  by (simp add: client_send_def ws_write_def writes_succeed_def)

lemma recv_events_incoming: "recv_events env events (c\<lparr>cl_incoming := x\<rparr>) = recv_events env events c"
proof (induction events arbitrary: c)
  case (Cons event rest)
  have "ws_write env m (c\<lparr>cl_incoming := x\<rparr>) = (let (r, c') = ws_write env m c in (r, c'\<lparr>cl_incoming := x\<rparr>))" for m
    by (simp add: ws_write_def split: option.splits)
  then show ?case
    by (auto simp: client_send_def Cons.IH split: option.splits sum.splits ws_message.splits control_message.splits prod.splits)
qed simp

lemma recv_text:
  assumes "json_reads env m" "writes_succeed env"
  shows "recv_events env (text_event env m # rest) c =
    (if is_ping m then recv_events env rest
        (c\<lparr>cl_outgoing := cl_outgoing c @ pong_text env m, cl_writes := cl_writes c + 1\<rparr>)
     else (Some (Inr m), c\<lparr>cl_incoming := rest\<rparr>))"
  using assms
  by (cases m) (simp_all add: text_event_def json_reads_def client_send_ok pong_text_def)

text \<open>A request that goes through signals, snapshots and pings before its response.\<close>

lemma await_through:
  assumes writes: "writes_succeed env"
    and json: "\<And>m. m \<in> set (ms @ [response]) \<Longrightarrow> json_reads env m"
    and pass: "\<And>m q. m \<in> set ms \<Longrightarrow> \<not> is_ping m \<Longrightarrow> handler m q = Inr (f q m)"
    and stop: "\<And>q. handler response q = Inl answer" "\<not> is_ping response"
    and c: "cl_incoming c = map (text_event env) (ms @ [response]) @ rest"
  shows "\<exists>writes. await_reply env handler c = (Some answer,
    c\<lparr>cl_incoming := rest, cl_pending := foldl f (cl_pending c) (filter (\<lambda>m. \<not> is_ping m) ms),
      cl_outgoing := cl_outgoing c @ concat (map (pong_text env) ms), cl_writes := writes\<rparr>)"
  using json pass c
proof (induction ms arbitrary: c)
  case Nil
  then show ?case
    by (subst await_reply.simps) (auto simp: recv_wire_def recv_text [OF _ writes] stop simp del: recv_events.simps
      intro!: exI [of _ "cl_writes c"])
next
  case (Cons m ms)
  define events where "events = map (text_event env) (ms @ [response]) @ rest"
  have inc: "cl_incoming c = text_event env m # events" using Cons.prems(3) by (simp add: events_def)
  have m: "json_reads env m" using Cons.prems(1) by simp
  show ?case
  proof (cases "is_ping m")
    case True
    define c1 where "c1 = c\<lparr>cl_outgoing := cl_outgoing c @ pong_text env m, cl_writes := cl_writes c + 1, cl_incoming := events\<rparr>"
    have "recv_wire env c = recv_wire env c1"
      using True unfolding recv_wire_def inc recv_text [OF m writes] c1_def recv_events_incoming
      by (simp del: recv_events.simps)
    then have "await_reply env handler c = await_reply env handler c1"
      by (subst (1 2) await_reply.simps) simp
    then show ?thesis
      using Cons.IH [of c1] Cons.prems(1,2) True by (auto simp: c1_def events_def)
  next
    case False
    then have "pong_text env m = []" by (cases m) (simp_all add: pong_text_def)
    moreover have "recv_wire env c = (Some (Inr m), c\<lparr>cl_incoming := events\<rparr>)"
      unfolding recv_wire_def inc by (simp add: recv_text [OF m writes] False del: recv_events.simps)
    then have "await_reply env handler c =
        await_reply env handler (c\<lparr>cl_incoming := events, cl_pending := f (cl_pending c) m\<rparr>)"
      using Cons.prems(2) [of m] False by (subst await_reply.simps) simp
    ultimately show ?thesis
      using Cons.IH [of "c\<lparr>cl_incoming := events, cl_pending := f (cl_pending c) m\<rparr>"] Cons.prems(1,2) False
      by (auto simp: events_def)
  qed
qed

definition interleaved :: "control_message \<Rightarrow> bool" where
  "interleaved m \<longleftrightarrow> (case m of ConnectSignal _ _ \<Rightarrow> True | Snapshot _ \<Rightarrow> True | Ping _ \<Rightarrow> True | _ \<Rightarrow> False)"

lemma interleaved_cases:
  assumes "interleaved m" "\<not> is_ping m"
  obtains peer target where "m = ConnectSignal peer target" | snapshot where "m = Snapshot snapshot"
  using assms by (cases m) (simp_all add: interleaved_def)

text \<open>While \<open>list_peers\<close> (and \<open>lookup_peer\<close>) waits, connection signals are dropped, although other
  requests keep them for \<open>recv\<close>.\<close>

lemma list_peers_drops_signals:
  assumes "writes_succeed env" "\<forall>m \<in> set (ms @ [ListPeersOk peers]). json_reads env m" "\<forall>m \<in> set ms. interleaved m"
    and "cl_incoming c = map (text_event env) (ms @ [ListPeersOk peers]) @ rest"
  shows "\<exists>c'. client_list_peers env c = (Inr peers, c') \<and>
    filter (\<lambda>m. \<not> is_snapshot m) (cl_pending c') = filter (\<lambda>m. \<not> is_snapshot m) (cl_pending c)"
proof -
  let ?f = "\<lambda>q m. if is_snapshot m then enqueue_pending q m else q"
  let ?c = "c\<lparr>cl_outgoing := cl_outgoing c @ [WsText (ke_to_json env ListPeers)], cl_writes := cl_writes c + 1\<rparr>"
  have "\<exists>writes. await_reply env list_reply ?c = (Some (Inr peers),
    ?c\<lparr>cl_incoming := rest, cl_pending := foldl ?f (cl_pending ?c) (filter (\<lambda>m. \<not> is_ping m) ms),
      cl_outgoing := cl_outgoing ?c @ concat (map (pong_text env) ms), cl_writes := writes\<rparr>)"
    using assms by (intro await_through) (auto elim!: interleaved_cases)
  moreover have "filter (\<lambda>m. \<not> is_snapshot m) (foldl ?f q xs) = filter (\<lambda>m. \<not> is_snapshot m) q" for q xs
    by (induction xs arbitrary: q) (simp_all add: enqueue_pending_filter)
  ultimately show ?thesis
    by (auto simp: client_list_peers_def client_request_def client_send_ok [OF assms(1)] with_timeout_def)
qed

text \<open>A snapshot that was sent before the server handled the update answers the update.\<close>

lemma earlier_snapshot_answers_update:
  assumes "writes_succeed env" "json_reads env (Snapshot old)"
    and "cl_incoming c = text_event env (Snapshot old) # rest"
  shows "\<exists>c'. update_candidates_and_get_snapshot env candidates c = (Inr old, c') \<and> cl_incoming c' = rest"
  using assms await_through [of env "[]" "Snapshot old" candidates_reply _ "Inr old"
      "c\<lparr>cl_outgoing := cl_outgoing c @ [WsText (ke_to_json env (UpdateCandidates candidates))],
         cl_writes := cl_writes c + 1\<rparr>" rest]
  by (auto simp: update_candidates_and_get_snapshot_def client_request_def client_send_ok with_timeout_def)

subsection \<open>Properties\<close>

text \<open>For the witnesses: a JSON codec that knows the messages of a table.\<close>

definition table_env :: "(string \<times> control_message) list \<Rightarrow> client_env" where
  "table_env table = \<lparr>ke_coord = \<lparr>ce_prims = sample_prims, ce_b64_encode = (\<lambda>_. []), ce_b64_decode = (\<lambda>_. Inl []),
       ce_cred_to_json = (\<lambda>_. []), ce_cred_of_json = (\<lambda>_. None)\<rparr>,
     ke_to_json = (\<lambda>m. case find (\<lambda>x. snd x = m) table of None \<Rightarrow> [] | Some x \<Rightarrow> fst x),
     ke_of_json = map_of table,
     ke_of_slice = (\<lambda>_. None), ke_now = 0, ke_io = (\<lambda>_. None)\<rparr>"

definition sample_signal :: control_message where
  "sample_signal = ConnectSignal \<lparr>pp_node_id = NodeId 1, pp_incarnation = 0, pp_signing_public = [], pp_noise_public = [],
     pp_candidates = [], pp_virtual_ipv4 = None, pp_virtual_ipv6 = None, pp_credential = [], pp_capabilities = []\<rparr> (NodeId 2)"

definition sample_view :: "u64 \<Rightarrow> network_snapshot" where
  "sample_view generation = \<lparr>sn_network_id = 0, sn_generation = generation, sn_virtual_ipv4 = None, sn_virtual_ipv6 = None,
     sn_doh_servers = [], sn_stun_servers = [], sn_peers = [], sn_online_peers = [], sn_expires_at = 0, sn_signature = []\<rparr>"

definition sample_table :: "(string \<times> control_message) list" where
  "sample_table = [(''signal'', sample_signal), (''ping'', Ping 1), (''old'', Snapshot (sample_view 1)),
     (''new'', Snapshot (sample_view 2)), (''response'', SnapshotResponse (sample_view 3)), (''pong'', Pong 1)]"

text \<open>C40: a request for a snapshot is answered whatever arrives meanwhile. If the server's
  response comes after any sequence of connection signals, broadcast snapshots and pings, the
  request returns the response, every ping is answered, and the queue for \<open>recv\<close> then holds the
  earlier messages and all the signals in the order of their arrival, and of the snapshots
  only the latest.\<close>

theorem snapshot_request_answered:
  assumes "writes_succeed env" "\<forall>m \<in> set (ms @ [SnapshotResponse snapshot]). json_reads env m"
    and "\<forall>m \<in> set ms. interleaved m"
    and "cl_incoming c = map (text_event env) (ms @ [SnapshotResponse snapshot]) @ rest"
  shows "\<exists>c'. request_snapshot env c = (Inr snapshot, c') \<and> cl_incoming c' = rest
    \<and> cl_outgoing c' = cl_outgoing c @ [WsText (ke_to_json env RequestSnapshot)] @ concat (map (pong_text env) ms)
    \<and> filter (\<lambda>m. \<not> is_snapshot m) (cl_pending c') =
        filter (\<lambda>m. \<not> is_snapshot m) (cl_pending c) @ filter (\<lambda>m. \<not> is_snapshot m \<and> \<not> is_ping m) ms
    \<and> filter is_snapshot (cl_pending c') = last_snapshot (cl_pending c) ms"
proof -
  let ?c = "c\<lparr>cl_outgoing := cl_outgoing c @ [WsText (ke_to_json env RequestSnapshot)], cl_writes := cl_writes c + 1\<rparr>"
  have "\<exists>writes. await_reply env snapshot_reply ?c = (Some (Inr snapshot),
    ?c\<lparr>cl_incoming := rest, cl_pending := foldl enqueue_pending (cl_pending ?c) (filter (\<lambda>m. \<not> is_ping m) ms),
      cl_outgoing := cl_outgoing ?c @ concat (map (pong_text env) ms), cl_writes := writes\<rparr>)"
    using assms by (intro await_through) (auto elim!: interleaved_cases)
  moreover have "is_snapshot m \<Longrightarrow> \<not> is_ping m" for m by (cases m) simp_all
  then have "filter is_snapshot (filter (\<lambda>m. \<not> is_ping m) ms) = filter is_snapshot ms"
    by (auto intro: filter_cong)
  then have "last_snapshot (cl_pending c) (filter (\<lambda>m. \<not> is_ping m) ms) = last_snapshot (cl_pending c) ms"
    by (simp add: last_snapshot_def)
  ultimately show ?thesis
    by (auto simp: request_snapshot_def client_request_def client_send_ok [OF assms(1)] with_timeout_def
      enqueue_all conj_commute)
qed

theorem snapshot_request_answered_witness:
  "\<exists>c'. request_snapshot (table_env sample_table)
      \<lparr>cl_endpoint = [], cl_server_public_key = None, cl_pending = [],
       cl_incoming = map (text_event (table_env sample_table)) [Snapshot (sample_view 1), sample_signal, Ping 1,
         Snapshot (sample_view 2), SnapshotResponse (sample_view 3)],
       cl_outgoing = [], cl_writes = 0\<rparr> = (Inr (sample_view 3), c')
    \<and> filter is_snapshot (cl_pending c') = [Snapshot (sample_view 2)]
    \<and> filter (\<lambda>m. \<not> is_snapshot m) (cl_pending c') = [sample_signal]
    \<and> cl_outgoing c' = [WsText [], WsText ''pong'']"
proof -
  let ?ms = "[Snapshot (sample_view 1), sample_signal, Ping 1, Snapshot (sample_view 2)]"
  have kinds: "\<not> is_snapshot sample_signal" "\<not> is_ping sample_signal" "interleaved sample_signal"
    "pong_text (table_env sample_table) sample_signal = []"
    by (simp_all add: sample_signal_def interleaved_def pong_text_def)
  have reads: "\<forall>m \<in> set (?ms @ [SnapshotResponse (sample_view 3)]). json_reads (table_env sample_table) m"
    by (simp add: json_reads_def table_env_def sample_table_def sample_view_def sample_signal_def)
  have "\<forall>m \<in> set ?ms. interleaved m" by (simp add: kinds) (simp add: interleaved_def)
  from snapshot_request_answered [OF _ reads this, of
    "\<lparr>cl_endpoint = [], cl_server_public_key = None, cl_pending = [],
       cl_incoming = map (text_event (table_env sample_table)) (?ms @ [SnapshotResponse (sample_view 3)]),
       cl_outgoing = [], cl_writes = 0\<rparr>" "[]"]
  show ?thesis
    by (auto simp: writes_succeed_def kinds last_snapshot_def)
      (auto simp: table_env_def sample_table_def pong_text_def sample_signal_def)
qed

end
