(* ===== verification/Vela_Join.thy ===== *)
theory Vela_Join
  imports Vela_Network Vela_Client
begin

section \<open>Joining the network\<close>

text \<open>
  The registration of a node, from the client's request through the coordinator's handler to
  the client's verification of the answer and the node that applies it.
\<close>

subsection \<open>What the client verifies\<close>

text \<open>What the code relies on of \<open>base64\<close>.\<close>

definition base64_law :: "coord_env \<Rightarrow> bool" where
  "base64_law env \<longleftrightarrow> (\<forall>bs. ce_b64_decode env (ce_b64_encode env bs) = Inr bs)"

lemma verify_peer_membership:
  "verify_peer_credential env (Some key) peer = Inr () \<longleftrightarrow>
   validate_peer_membership (ce_prims (ke_coord env)) (ce_cred_of_json (ke_coord env)) (ke_now env) peer (Some key) = Inr ()"
  by (auto simp: verify_peer_credential_def validate_peer_membership_def split: option.splits sum.splits)

lemma public_peer_round:
  "base64_law env \<Longrightarrow> peer_info_try_from (ce_b64_decode env) (public_peer env p) = Inr (private_peer p)"
  by (simp add: base64_law_def peer_info_try_from_def public_peer_def private_peer_def)

lemma collect_results_ok:
  "\<forall>x \<in> set xs. f x = Inr (g x) \<Longrightarrow> collect_results f xs = Inr (map g xs)"
  by (induction xs) auto

lemma collect_results_map: "collect_results f (map h xs) = collect_results (\<lambda>x. f (h x)) xs"
  by (induction xs) (simp_all cong: sum.case_cong)

lemma verify_current:
  assumes "member_row (ke_coord env) signer n r" "current_row (ke_coord env) (ke_now env) r"
  shows "verify_peer_credential env (Some (signer_public (ce_prims (ke_coord env)) signer)) (shown_peer (n, r)) = Inr ()"
  unfolding verify_peer_membership using member_accepted [OF assms(1)] assms(2) by simp

lemma load_peers_shown: "map private_peer (load_peers s) = map shown_peer (shown_rows s)"
  by (simp add: load_peers_def shown_rows_def shown_peer_def case_prod_beta comp_def)

lemma load_peers_rows: "load_peers s = map (\<lambda>x. stored_of_row (fst x) (snd x)) (shown_rows s)"
  by (simp add: load_peers_def shown_rows_def case_prod_beta)

text \<open>The answer of the server, for any state whose rows are signed and current.\<close>

lemma registration_verifies:
  fixes cenv s defines "key \<equiv> signer_public (ce_prims cenv) (co_signer s)"
  assumes env: "ke_coord env = cenv" "base64_law cenv" "signature_law (ce_prims cenv)"
    and s: "coord_inv cenv s" "members_inv cenv s" "unat (co_generation s) < 2 ^ 63 - 1"
    and current: "\<forall>(m, q) \<in> set (shown_rows s). current_row cenv (ke_now env) q"
    and row: "(n, r) \<in> set (shown_rows s)" "row_credential r = cb"
    and time: "ke_now env \<le> saturating_add t 3600"
  shows "\<exists>c. ce_cred_of_json cenv cb = Some c \<and> mc_node_id c = n \<and>
    verify_registration env (Some key) (ce_b64_encode cenv cb)
      (map (public_peer cenv) (filter (\<lambda>p. sp_node_id p \<noteq> n) (load_peers s)))
      (network_snapshot_of cenv t s (online_peer_ids s)) =
    Inr \<lparr>rg_credential = c, rg_peers = map shown_peer (filter (\<lambda>x. fst x \<noteq> n) (shown_rows s)),
      rg_snapshot = network_snapshot_of cenv t s (online_peer_ids s)\<rparr>"
proof -
  let ?snapshot = "network_snapshot_of cenv t s (online_peer_ids s)"
  have ps: "peers_inv cenv (co_peers s)" using s(1) by (simp add: coord_inv_def)
  have m: "member_row cenv (co_signer s) k q" if "(k, q) \<in> set (shown_rows s)" for k q
    using s(2) shown_rows_keys(2) [OF ps that] by (simp add: members_inv_def)
  obtain c where c: "ce_cred_of_json cenv cb = Some c" "mc_node_id c = n"
      "credential_verify (ce_prims cenv) c key (mc_issued_at c) = Inr ()"
    using m [OF row(1)] row(2) by (auto simp: member_row_def credential_issued_def key_def split: option.splits)
  have now: "credential_verify (ce_prims cenv) c key (ke_now env) = Inr ()"
    using current row c credential_verify_later [OF c(3), of "ke_now env"] by (fastforce simp: current_row_def)
  have peer: "verify_peer_credential env (Some key) (shown_peer x) = Inr ()" if "x \<in> set (shown_rows s)" for x
    using verify_current [of env "co_signer s" "fst x" "snd x"] m [of "fst x" "snd x"] current that env(1)
    by (auto simp: key_def)
  have "online_ok (co_peers s) (co_online s)" using s(1,3) by (simp add: coord_inv_def)
  then have "snapshot_ok (cp_blake3 (ce_prims cenv)) ?snapshot"
    by (intro snapshot_of_state_ok [OF s(1)]) (auto simp: online_peer_ids_def online_ok_def)
  then have valid: "snapshot_validate (cp_blake3 (ce_prims cenv)) ?snapshot = Inr ()" by (simp add: snapshot_validate_iff)
  have sig: "verify_snapshot (ce_prims cenv) ?snapshot key (ke_now env) = Inr ()"
    unfolding key_def by (rule snapshot_verifies [OF env(3) time])
  have all: "collect_results (verify_peer_credential env (Some key)) (sn_peers ?snapshot) =
      Inr (map (\<lambda>_. ()) (sn_peers ?snapshot))"
    using peer by (intro collect_results_ok) (auto simp: snapshot_peers)
  let ?others = "filter (\<lambda>x. fst x \<noteq> n) (shown_rows s)"
  have others: "map (public_peer cenv) (filter (\<lambda>p. sp_node_id p \<noteq> n) (load_peers s)) =
      map (\<lambda>x. public_peer cenv (stored_of_row (fst x) (snd x))) ?others"
    by (simp add: load_peers_rows filter_map comp_def stored_node_id)
  have "verify_public_peer env (Some key) (public_peer cenv (stored_of_row (fst x) (snd x))) = Inr (shown_peer x)"
    if "x \<in> set (shown_rows s)" for x
    using peer [OF that] public_peer_round [OF env(2), of "stored_of_row (fst x) (snd x)"]
    by (simp add: verify_public_peer_def env(1) shown_peer_def)
  then have "collect_results (verify_public_peer env (Some key))
      (map (\<lambda>x. public_peer cenv (stored_of_row (fst x) (snd x))) ?others) = Inr (map shown_peer ?others)"
    using collect_results_ok [of ?others "\<lambda>x. verify_public_peer env (Some key) (public_peer cenv (stored_of_row (fst x) (snd x)))" shown_peer]
    by (simp add: collect_results_map)
  then show ?thesis
    using c(1,2) env(2) sig valid all now
    by (intro exI [of _ c]) (simp add: verify_registration_def env(1) base64_law_def others)
qed

subsection \<open>The exchange\<close>

lemma register_store_row:
  assumes "register_store env t s p cb ir = (Inr b, s')"
  shows "\<exists>r. map_of (co_peers s') (sp_node_id p) = Some r \<and> \<not> row_revoked r \<and> row_credential r = cb"
  using assms
  by (auto simp: register_store_def Let_def touch_peer_def update_peer_metadata_def update_peer_def update_conv'
      map_of_map_entry row_of_stored_def dest!: bump_Inr split: sum.splits option.splits)

lemma handle_register_answer:
  assumes "handle_register env t is_open c s n inc sg ns cred tok cands caps = (Inr (Some n'), out, s')"
  obtains cb s3 where "n' = n"
    "out = [(c, RegisterOk (ce_b64_encode env cb)
      (map (public_peer env) (filter (\<lambda>p. sp_node_id p \<noteq> n) (load_peers s3)))
      (network_snapshot_of env t s3 (online_peer_ids s3)))]"
    "\<exists>r. map_of (co_peers s3) n = Some r \<and> \<not> row_revoked r \<and> row_credential r = cb"
    "s' \<in> {s3, snd (broadcast_snapshot s3)}"
proof -
  obtain a where a: "decode_key env sg = Inr a"
    using assms by (cases "decode_key env sg") (simp_all add: handle_register_def)
  obtain b where b: "decode_key env ns = Inr b"
    using assms by (cases "decode_key env ns") (simp_all add: handle_register_def a)
  have n: "NodeId (cp_blake3 (ce_prims env) (to_be 32 a)) = n"
    using assms by (rule_tac ccontr) (simp add: handle_register_def a b)
  obtain rc s1 where rc: "register_credential env t s n a b cred tok = (rc, s1)" by (metis surj_pair)
  obtain cr where cr: "rc = Inr cr" using assms by (cases rc) (simp_all add: handle_register_def a b n rc)
  obtain cb ir where cbir: "cr = (cb, ir)" by (metis surj_pair)
  define p where "p = \<lparr>sp_node_id = n, sp_incarnation = inc, sp_name = [], sp_signing_public = a, sp_noise_public = b,
     sp_candidates = cands, sp_virtual_ipv4 = None, sp_virtual_ipv6 = None,
     sp_credential = [], sp_capabilities = caps, sp_last_seen = 0\<rparr>"
  obtain st s2 where st: "register_store env t s1 p cb ir = (st, s2)" by (metis surj_pair)
  obtain ch where rs: "register_store env t s1 p cb ir = (Inr ch, s2)"
    using assms st by (cases st) (simp_all add: handle_register_def a b n rc cr cbir p_def [symmetric])
  have out: "n' = n" "out = [(c, RegisterOk (ce_b64_encode env cb)
      (map (public_peer env) (filter (\<lambda>p. sp_node_id p \<noteq> n) (load_peers (add_online s2 n c))))
      (network_snapshot_of env t (add_online s2 n c) (online_peer_ids (add_online s2 n c))))]"
      "s' \<in> {add_online s2 n c, snd (broadcast_snapshot (add_online s2 n c))}"
    using assms unfolding handle_register_def
    by (simp_all add: a b n rc cr cbir p_def [symmetric] rs Let_def split: if_splits) auto
  have "sp_node_id p = n" by (simp add: p_def)
  show thesis
    using register_store_row [OF rs] \<open>sp_node_id p = n\<close> by (intro that [OF out(1,2) _ out(3)]) (simp add: add_online_def Let_def)
qed

subsection \<open>Properties\<close>


text \<open>For the witness: the first member of the sample database registers again.\<close>

definition join_env :: "control_message \<Rightarrow> client_env" where
  "join_env answer = (table_env [(''answer'', answer)])\<lparr>ke_coord := member_env, ke_now := 100\<rparr>"

definition join_identity :: identity where
  "join_identity = \<lparr>id_signing = 19, id_noise_static = - 1\<rparr>"

lemma join_message:
  "register_message (join_env answer) join_identity 7 None (Some (member_credential 20)) [] =
    Register (NodeId 21) 7 (ce_b64_encode member_env (to_be 32 (20 :: 256 word)))
      (ce_b64_encode member_env (to_be 32 (1 :: 256 word))) (ce_b64_encode member_env (sample_cred_to_json (member_credential 20)))
      None [] [CapDiagnosticPing]"
  by (simp add: register_message_def identity_public_def join_env_def join_identity_def member_env_def sample_env_def
    sample_prims_def)

lemma member_decode: "ce_b64_decode member_env (ce_b64_encode member_env bs) = Inr bs"
  by (simp add: member_env_def sample_env_def as_bytes_chars)

lemma register_store_known:
  assumes "load_peer s (sp_node_id p) = Some q" "sp_virtual_ipv4 q = Some a"
    and "allocate_virtual_ipv4 env s (sp_node_id p) = Inr new" "unat (co_generation s) < 2 ^ 63 - 1"
  shows "\<exists>ch s2. register_store env t s p cb None = (Inr ch, s2)
    \<and> unat (co_generation s2) = unat (co_generation s) + 1 \<and> co_online s2 = co_online s
    \<and> (\<forall>n r. map_of (co_peers s2) n = Some r \<longrightarrow>
        (if n = sp_node_id p then row_credential r = cb \<and> row_signing_public r = sp_signing_public p
            \<and> row_noise_public r = sp_noise_public p
         else map_of (co_peers s) n = Some r))"
proof -
  let ?p = "p\<lparr>sp_virtual_ipv4 := Some a, sp_credential := cb, sp_last_seen := sp_last_seen q\<rparr>"
  define s1 where "s1 = touch_peer t (update_peer s ?p) (sp_node_id p)"
  have keep: "co_generation s1 = co_generation s" "co_online s1 = co_online s"
    by (simp_all add: s1_def touch_peer_def update_peer_def)
  then obtain s2 where s2: "bump_snapshot s1 = Inr s2" using bump_succeeds [of s1] assms(4) by auto
  have "\<exists>ch. register_store env t s p cb None = (Inr ch, s2)"
    using s2 by (simp add: register_store_def Let_def assms(1-3) coalesce_def s1_def [symmetric])
  moreover have "map_of (co_peers s1) n = Some r \<longrightarrow>
      (if n = sp_node_id p then row_credential r = cb \<and> row_signing_public r = sp_signing_public p
          \<and> row_noise_public r = sp_noise_public p
       else map_of (co_peers s) n = Some r)" for n r
    by (auto simp: s1_def touch_peer_def update_peer_def map_of_map_entry update_conv' row_of_stored_def)
  ultimately show ?thesis using bump_Inr [OF s2] keep by auto
qed

lemma join_register:
  obtains b s2 where "register_credential member_env 100 member_state (NodeId 21) 20 1
      (ce_b64_encode member_env (sample_cred_to_json (member_credential 20))) None =
      (Inr (sample_cred_to_json (member_credential 20), None), member_state)"
    "register_store member_env 100 member_state
        \<lparr>sp_node_id = NodeId 21, sp_incarnation = 7, sp_name = [], sp_signing_public = 20, sp_noise_public = 1,
         sp_candidates = [], sp_virtual_ipv4 = None, sp_virtual_ipv6 = None, sp_credential = [],
         sp_capabilities = [CapDiagnosticPing], sp_last_seen = 0\<rparr>
        (sample_cred_to_json (member_credential 20)) None = (Inr b, s2)"
    "unat (co_generation s2) = 2" "co_online s2 = []"
    "\<forall>n r. map_of (co_peers s2) n = Some r \<longrightarrow> current_row member_env 100 r"
proof -
  let ?p = "\<lparr>sp_node_id = NodeId 21, sp_incarnation = 7, sp_name = [], sp_signing_public = 20, sp_noise_public = 1,
     sp_candidates = [], sp_virtual_ipv4 = None, sp_virtual_ipv6 = None, sp_credential = [],
     sp_capabilities = [CapDiagnosticPing], sp_last_seen = 0\<rparr>"
  have json: "ce_cred_of_json member_env (sample_cred_to_json c) = Some c" for c
    using member_json by (simp add: credential_json_law_def member_env_def)
  have verify: "credential_verify (ce_prims member_env) (member_credential 20)
      (signer_public (ce_prims member_env) (co_signer member_state)) 100 = Inr ()"
    using member_credential_verifies [of 100 20] by (simp add: member_env_def sample_env_def member_signer_state)
  have fields: "mc_node_id (member_credential 20) = NodeId 21" "mc_signing_public (member_credential 20) = 20"
    "mc_noise_public (member_credential 20) = 1" "mc_tenant (member_credential 20) = ''t''"
    by (simp_all add: member_credential_def credential_sign_def credential_unsigned_def)
  have load: "load_peer member_state (NodeId 21) = Some (stored_of_row (NodeId 21) (snd (member_sample 20 0x0AFE0001)))"
    by (simp add: load_peer_def member_state_def member_sample_def sample_row_def)
  have "sp_credential (stored_of_row n r) = row_credential r" for n r by (simp add: stored_of_row_def)
  then have stored: "sp_credential (stored_of_row n (snd (member_sample 20 a))) = sample_cred_to_json (member_credential 20)" for n a
    by (simp add: member_sample_def)
  have tenant: "co_tenant member_state = ''t''" by (simp add: member_state_def sample_state_def)
  have nonempty: "ce_b64_encode member_env (sample_cred_to_json (member_credential 20)) \<noteq> []"
    by (simp add: member_env_def sample_env_def sample_cred_to_json_def)
  have cred: "register_credential member_env 100 member_state (NodeId 21) 20 1
      (ce_b64_encode member_env (sample_cred_to_json (member_credential 20))) None =
      (Inr (sample_cred_to_json (member_credential 20), None), member_state)"
    using nonempty unfolding register_credential_def
    by (simp add: member_decode json verify fields load stored tenant)
  have "in_pool 0x0AFE0009" by (auto simp: in_pool_def VIRTUAL_IPV4_NETWORK_BASE_def)
  moreover have "\<not> address_used member_state 0x0AFE0009"
    by (simp add: address_used_def member_state_def member_sample_def)
  ultimately obtain new where new: "allocate_virtual_ipv4 member_env member_state (NodeId 21) = Inr new"
    using allocate_fails [of member_env member_state "NodeId 21"]
    by (cases "allocate_virtual_ipv4 member_env member_state (NodeId 21)") auto
  have known: "sp_virtual_ipv4 (stored_of_row (NodeId 21) (snd (member_sample 20 0x0AFE0001))) = Some 0x0AFE0001"
    by (simp add: stored_of_row_def member_sample_def)
  have start: "co_generation member_state = 1" "co_online member_state = []"
    by (simp_all add: member_state_def sample_state_def)
  obtain b s2 where rs: "register_store member_env 100 member_state ?p (sample_cred_to_json (member_credential 20)) None = (Inr b, s2)"
      "unat (co_generation s2) = 2" "co_online s2 = []"
      "\<forall>n r. map_of (co_peers s2) n = Some r \<longrightarrow>
        (if n = NodeId 21 then row_credential r = sample_cred_to_json (member_credential 20) \<and> row_signing_public r = 20
            \<and> row_noise_public r = 1
         else map_of (co_peers member_state) n = Some r)"
    using register_store_known [of member_state ?p _ _ member_env new 100 "sample_cred_to_json (member_credential 20)", OF _ known]
      load new start by auto
  have "current_row member_env 100 r" if "map_of (co_peers s2) n = Some r" for n r
  proof (cases "n = NodeId 21")
    case True
    then have "row_credential r = sample_cred_to_json (member_credential 20)" "row_signing_public r = 20" "row_noise_public r = 1"
      using rs(4) that by auto
    then show ?thesis
      using json fields by (simp add: current_row_def)
        (simp add: member_credential_def credential_sign_def credential_unsigned_def saturating_add_def)
  next
    case False
    then have "map_of (co_peers member_state) n = Some r" using rs(4) that by auto
    then show ?thesis
      using member_rows(2) [of 20 "0x0AFE0001"] member_rows(2) [of 30 "0x0AFE0002"]
      by (auto simp: member_state_def split: if_splits)
  qed
  then show thesis using that [OF cred rs(1-3)] by blast
qed

lemma join_served:
  obtains answer s' where "handle_message member_env 100 (\<lambda>_. True) 5 None
      (register_message (join_env e) join_identity 7 None (Some (member_credential 20)) []) member_state =
      (Inr (Some (NodeId 21)), [(5, answer)], s')"
    "unat (co_generation s') < 2 ^ 63 - 1" "\<forall>(n, r) \<in> set (shown_rows s'). current_row member_env 100 r"
proof -
  obtain b s2 where rc: "register_credential member_env 100 member_state (NodeId 21) 20 1
      (ce_b64_encode member_env (sample_cred_to_json (member_credential 20))) None =
      (Inr (sample_cred_to_json (member_credential 20), None), member_state)"
    and rs: "register_store member_env 100 member_state
        \<lparr>sp_node_id = NodeId 21, sp_incarnation = 7, sp_name = [], sp_signing_public = 20, sp_noise_public = 1,
         sp_candidates = [], sp_virtual_ipv4 = None, sp_virtual_ipv6 = None, sp_credential = [],
         sp_capabilities = [CapDiagnosticPing], sp_last_seen = 0\<rparr>
        (sample_cred_to_json (member_credential 20)) None = (Inr b, s2)"
    and s2: "unat (co_generation s2) = 2" "\<forall>n r. map_of (co_peers s2) n = Some r \<longrightarrow> current_row member_env 100 r"
    by (rule join_register)
  have key: "decode_key member_env (ce_b64_encode member_env (to_be 32 (k :: 256 word))) = Inr k" for k
    by (simp add: decode_key_def member_decode)
  have id: "NodeId (cp_blake3 (ce_prims member_env) (to_be 32 (20 :: 256 word))) = NodeId 21"
    by (simp add: member_env_def sample_env_def sample_prims_def)
  obtain answer s' where out: "handle_message member_env 100 (\<lambda>_. True) 5 None
      (register_message (join_env e) join_identity 7 None (Some (member_credential 20)) []) member_state =
      (Inr (Some (NodeId 21)), [(5, answer)], s')" "s' \<in> {add_online s2 (NodeId 21) 5, snd (broadcast_snapshot (add_online s2 (NodeId 21) 5))}"
    by (simp add: join_message handle_message_def handle_register_def key id rc rs Let_def)
  have "co_peers s' = co_peers s2" "co_generation s' = co_generation s2"
    using out(2) by (auto simp: add_online_def broadcast_snapshot_def Let_def)
  moreover have "coord_inv member_env s'"
  proof -
    have "coord_inv member_env member_state"
      using coord_reachable_inv [OF reach_open [OF member_open] member_db_ok] by (simp add: sys_inv_def)
    from coord_op_inv [OF op_message [of member_env member_state 100 "\<lambda>_. True" 5 None] this] out(1)
    show ?thesis by (metis snd_conv)
  qed
  then have "peers_inv member_env (co_peers s')" by (simp add: coord_inv_def)
  ultimately have "\<forall>(n, r) \<in> set (shown_rows s'). current_row member_env 100 r"
    using s2(2) shown_rows_keys(2) [of member_env s'] by auto
  then show thesis using that [OF out(1)] s2(1) \<open>co_generation s' = co_generation s2\<close> by simp
qed


end
