(* ===== verification/Vela_Node_Send.thy ===== *)
theory Vela_Node_Send
  imports Vela_Membership
begin

section \<open>Sending keeps the invariant and returns (vela-core)\<close>

text \<open>
  The operations of the outbound path preserve the invariant of the node, never panic, and give
  one result per packet. \<open>keeps s t\<close> collects what the operations that allocate no peer leave
  alone; its introduction rules follow the way the operations are composed.
\<close>

subsection \<open>Steps that keep the invariant\<close>

definition keeps :: "'hs node \<Rightarrow> 'hs node \<Rightarrow> bool" where
  "keeps s t \<longleftrightarrow> (node_inv s \<longrightarrow> node_inv t) \<and> length (nd_heap t) = length (nd_heap s) \<and> nd_config t = nd_config s"

named_theorems node_keeps \<open>steps that keep the invariant, the heap's extent and the configuration\<close>

lemma keeps_refl [node_keeps]: "keeps s s"
  by (simp add: keeps_def)

lemma keeps_trans: "keeps s t \<Longrightarrow> keeps t u \<Longrightarrow> keeps s u"
  by (simp add: keeps_def)

lemma keepsI:
  "(node_inv t \<Longrightarrow> node_inv u) \<Longrightarrow> length (nd_heap u) = length (nd_heap t) \<Longrightarrow> nd_config u = nd_config t \<Longrightarrow>
   keeps s t \<Longrightarrow> keeps s u"
  by (simp add: keeps_def)

lemma keeps_frame:
  assumes "keeps s t" "nd_heap u = nd_heap t" "nd_peers u = nd_peers t" "nd_sessions u = nd_sessions t"
    "nd_config u = nd_config t" "nd_workers u = nd_workers t" "nd_data u = nd_data t"
  shows "keeps s u"
  using assms node_inv_cong [of u t] by (auto simp: keeps_def)

lemma keeps_upd:
  assumes "keeps s t" "p < length (nd_heap t) \<Longrightarrow> peer_step (nd_config s) f (peer_at t p)"
  shows "keeps s (upd_peer p f t)"
  using assms inv_upd [of t p f] by (auto simp: keeps_def)

lemma keeps_upd_step:
  "keeps s t \<Longrightarrow> (\<And>q. peer_step (nd_config s) f q) \<Longrightarrow> keeps s (upd_peer p f t)"
  by (rule keeps_upd)

lemma keeps_primitives [node_keeps]:
  "keeps s t \<Longrightarrow> keeps s (snd (emit event t))"
  "keeps s t \<Longrightarrow> keeps s (observe sample t)"
  "keeps s t \<Longrightarrow> keeps s (snd (socket_send env bytes target t))"
  "keeps s t \<Longrightarrow> keeps s (snd (send_packet env target ty i n payload t))"
  "keeps s t \<Longrightarrow> keeps s (count_transport g t)"
  "keeps s t \<Longrightarrow> keeps s (t\<lparr>nd_spawned := x\<rparr>)"
  "keeps s t \<Longrightarrow> keeps s (t\<lparr>nd_ping_answers := y\<rparr>)"
  "keeps s t \<Longrightarrow> keeps s (t\<lparr>nd_stun_waiters := z\<rparr>)"
  "keeps s t \<Longrightarrow> keeps s (t\<lparr>nd_sent := w\<rparr>)"
  "keeps s t \<Longrightarrow> keeps s (schedule_reconnect p t)"
  using inv_primitives inv_schedule by (auto simp: keeps_def intro: node_inv_cong [of _ t])

lemma keeps_invalidate [node_keeps]:
  "keeps s t \<Longrightarrow> p < length (nd_heap s) \<Longrightarrow> keeps s (invalidate_session_if p e r t)"
  "keeps s t \<Longrightarrow> p < length (nd_heap s) \<Longrightarrow> keeps s (invalidate_session p r t)"
  using inv_invalidate [of t p] inv_invalidate_session [of t p] by (auto simp: keeps_def)

lemma keeps_heap: "keeps s t \<Longrightarrow> length (nd_heap t) = length (nd_heap s)"
  by (simp add: keeps_def)

lemma keeps_config: "keeps s t \<Longrightarrow> nd_config t = nd_config s"
  by (simp add: keeps_def)

lemma keeps_inv: "keeps s t \<Longrightarrow> node_inv s \<Longrightarrow> node_inv t"
  by (simp add: keeps_def)

lemma keeps_fold:
  "keeps s t \<Longrightarrow> (\<And>x u. x \<in> set xs \<Longrightarrow> keeps s u \<Longrightarrow> keeps s (f x u)) \<Longrightarrow> keeps s (fold f xs t)"
  by (induction xs arbitrary: t) auto

subsection \<open>One packet\<close>

lemma assign_sequences_length: "length (fst (assign_sequences tx slots)) = length slots"
  by (induction tx slots rule: assign_sequences.induct) (auto simp: case_prod_beta)

lemma enqueue_packets_bounds:
  "length queue \<le> limit \<Longrightarrow> length (snd (enqueue_packets limit queue slots)) \<le> limit"
  "length (fst (enqueue_packets limit queue slots)) = length slots"
  by (induction limit queue slots rule: enqueue_packets.induct) (auto simp: case_prod_beta)

lemma prepare_ip_packets_length: "length (fst (prepare_ip_packets env p packets s)) = length packets"
  by (auto simp: prepare_ip_packets_def Let_def case_prod_beta assign_sequences_length enqueue_packets_bounds(2)
      split: option.splits)

lemma keeps_prepare [node_keeps]:
  assumes "keeps s t" "p < length (nd_heap s)"
  shows "keeps s (snd (prepare_ip_packets env p packets t))"
proof -
  have queue: "peer_step (nd_config s) (\<lambda>q. q\<lparr>ps_queue := snd (enqueue_packets (nc_per_peer_queue_limit (nd_config t))
      (ps_queue (peer_at t p)) slots)\<rparr>) (peer_at t p)" for slots
    using enqueue_packets_bounds(1) keeps_config [OF assms(1)]
    by (auto simp: peer_step_def peer_ok_def session_id_of_def)
  have "peer_step (nd_config s) (\<lambda>q. q\<lparr>ps_active := Some (session\<lparr>as_tx_sequence := tx\<rparr>)\<rparr>) (peer_at t p)"
    if "ps_active (peer_at t p) = Some session" for session tx
    by (rule peer_step_session [OF that]) (simp_all add: session_ok_def)
  then show ?thesis
    using assms queue
    by (auto simp: prepare_ip_packets_def Let_def case_prod_beta intro!: node_keeps keeps_upd split: option.splits)
qed

lemma peer_step_count_sent: "peer_step config (count_sent i packets) q"
  by (auto simp: peer_step_def peer_ok_def session_ok_def session_id_of_def count_sent_def split: option.splits)

lemma keeps_record_sent [node_keeps]: "keeps s t \<Longrightarrow> keeps s (record_sent_batch packets t)"
  by (auto simp: record_sent_batch_def intro!: keeps_fold keeps_upd peer_step_count_sent node_keeps split: list.splits)

text \<open>The packets that a call prepared carry its peer.\<close>

lemma prepared_fields:
  "prepare_encrypted_data_packet cp p n i path cipher sequence packet = Inr d \<Longrightarrow>
   pd_peer d = p \<and> pd_peer_id d = n \<and> pd_session_id d = i \<and> pd_path d = path \<and> pd_sequence d = sequence"
  by (auto simp: prepare_encrypted_data_packet_def Let_def split: sum.splits)

lemma enqueue_packets_not_prepared: "Inr (Some d) \<notin> set (fst (enqueue_packets limit queue slots))"
  by (induction limit queue slots rule: enqueue_packets.induct) (auto simp: case_prod_beta)

lemma prepared_peer:
  assumes "Inr (Some d) \<in> set (fst (prepare_ip_packets env p packets s))"
  shows "pd_peer d = p \<and> pd_peer_id d = ps_id (peer_at s p)"
  using assms
  by (auto simp: prepare_ip_packets_def Let_def case_prod_beta enqueue_packets_not_prepared map_sum_def
      dest!: prepared_fields split: option.splits sum.splits if_splits)

lemma prepare_ip_packet_cases:
  obtains r where "prepare_ip_packet env p packet s = Some (r, snd (prepare_ip_packets env p [packet] s))"
    "fst (prepare_ip_packets env p [packet] s) = [r]"
proof -
  have "length (fst (prepare_ip_packets env p [packet] s)) = 1" by (simp add: prepare_ip_packets_length)
  then obtain r where r: "fst (prepare_ip_packets env p [packet] s) = [r]" by (auto simp: length_Suc_conv)
  then have "prepare_ip_packets env p [packet] s = ([r], snd (prepare_ip_packets env p [packet] s))"
    by (metis prod.collapse)
  then show thesis using that [OF _ r] by (metis (no_types, lifting) case_prod_conv list.case(2) prepare_ip_packet_def)
qed

lemma send_ip_packet_keeps:
  assumes "keeps s t" "p < length (nd_heap s)"
  obtains r u where "send_ip_packet env p packet t = Some (r, u)" "keeps s u"
proof -
  let ?t = "snd (prepare_ip_packets env p [packet] t)"
  have t: "keeps s ?t" by (rule keeps_prepare [OF assms])
  obtain r where r: "prepare_ip_packet env p packet t = Some (r, ?t)" "fst (prepare_ip_packets env p [packet] t) = [r]"
    by (rule prepare_ip_packet_cases)
  show thesis
  proof (cases r)
    case (Inr x)
    show thesis
    proof (cases x)
      case (Some d)
      have d: "pd_peer d = p" using prepared_peer [of d env p "[packet]" t] by (simp add: r(2) Inr Some)
      obtain e u where send: "socket_send env (pd_wire_packet d) (pd_path d) ?t = (e, u)" by (metis surj_pair)
      have "keeps s u" using keeps_primitives(3) [OF t, of env "pd_wire_packet d" "pd_path d"] by (simp add: send)
      then show thesis
        using assms(2) by (cases e) (auto simp: send_ip_packet_def r(1) Inr Some send d intro!: that node_keeps)
    qed (use t in \<open>auto simp: send_ip_packet_def r(1) Inr intro: that\<close>)
  qed (use t in \<open>auto simp: send_ip_packet_def r(1) intro: that\<close>)
qed

lemma send_payload_keeps:
  assumes "keeps s t" "p < length (nd_heap s)"
  obtains r u where "send_payload env p payload t = Some (r, u)" "keeps s u"
proof -
  obtain parsed where parsed: "ip_parse payload = Some parsed" using ip_parse_total by blast
  show thesis
  proof (cases parsed)
    case (Inr packet)
    obtain r u where send: "send_ip_packet env p packet t = Some (r, u)" "keeps s u"
      by (rule send_ip_packet_keeps [OF assms])
    show thesis
      using assms(1) send
      by (cases "validate_outbound (nd_routes t) packet"; cases "projr (validate_outbound (nd_routes t) packet) = ps_id (peer_at t p)")
        (auto simp: send_payload_def parsed Inr intro: that)
  qed (use assms(1) in \<open>auto simp: send_payload_def parsed intro: that\<close>)
qed

lemma keeps_after_send [node_keeps]: "keeps s (snd out) \<Longrightarrow> keeps s (snd (after_send p n b out))"
  by (auto simp: after_send_def Let_def case_prod_beta intro!: node_keeps split: sum.splits send_error.splits)

lemma send_ip_keeps:
  assumes "node_inv s"
  obtains r u where "send_ip env bytes s = Some (r, u)" "keeps s u"
proof -
  obtain parsed where parsed: "ip_parse bytes = Some parsed" using ip_parse_total by blast
  show thesis
  proof (cases "\<exists>packet n p. parsed = Inr packet \<and> validate_outbound (nd_routes s) packet = Inr n \<and> map_of (nd_peers s) n = Some p")
    case True
    then obtain packet n p where ok: "parsed = Inr packet" "validate_outbound (nd_routes s) packet = Inr n"
      "map_of (nd_peers s) n = Some p" by blast
    then have "p < length (nd_heap s)" using node_inv_known [OF assms] by blast
    then obtain r u where send: "send_ip_packet env p packet s = Some (r, u)" "keeps s u"
      by (rule send_ip_packet_keeps [OF keeps_refl])
    have "keeps s (snd (after_send p n (wants_connection s p) (r, u)))" using send(2) by (simp add: keeps_after_send)
    then show thesis using that by (simp add: send_ip_def parsed ok send(1) prod_eq_iff)
  next
    case False
    then have "\<exists>e. send_ip env bytes s = Some (Inl e, s)"
      by (auto simp: send_ip_def parsed split: sum.splits option.splits)
    then show thesis using that keeps_refl by blast
  qed
qed

lemma peer_send_ip_keeps:
  assumes "node_inv s"
  obtains r u where "peer_send_ip env n payload s = Some (r, u)" "keeps s u"
proof (cases "map_of (nd_peers s) n")
  case (Some p)
  then have "p < length (nd_heap s)" using node_inv_known [OF assms] by blast
  then obtain r u where send: "send_payload env p payload s = Some (r, u)" "keeps s u"
    by (rule send_payload_keeps [OF keeps_refl])
  have "keeps s (snd (after_send p n (wants_connection s p) (r, u)))" using send(2) by (simp add: keeps_after_send)
  then show thesis using that by (simp add: peer_send_ip_def Some send(1) prod_eq_iff)
qed (use that keeps_refl in \<open>auto simp: peer_send_ip_def\<close>)

subsection \<open>Flushing a queue\<close>

text \<open>A packet that is sent on a session leaves the queue and the session in place.\<close>

definition on_session :: "nat \<Rightarrow> 'hs node \<Rightarrow> bool" where
  "on_session p s \<longleftrightarrow> p < length (nd_heap s) \<and> ps_active (peer_at s p) \<noteq> None"

lemma count_sent_fields: "ps_queue (count_sent i packets q) = ps_queue q" "ps_active (count_sent i packets q) = None \<longleftrightarrow> ps_active q = None"
  by (simp_all add: count_sent_def split: option.splits)

lemma fold_observe_peer: "peer_at (fold (\<lambda>d. observe (f d)) packets s) p = peer_at s p"
  "length (nd_heap (fold (\<lambda>d. observe (f d)) packets s)) = length (nd_heap s)"
  "nd_routes (fold (\<lambda>d. observe (f d)) packets s) = nd_routes s"
  "nd_sent (fold (\<lambda>d. observe (f d)) packets s) = nd_sent s"
  by (induction packets arbitrary: s) simp_all

lemma record_sent_peer:
  "ps_queue (peer_at (record_sent_batch packets s) p) = ps_queue (peer_at s p)"
  "ps_active (peer_at (record_sent_batch packets s) p) = None \<longleftrightarrow> ps_active (peer_at s p) = None"
  "length (nd_heap (record_sent_batch packets s)) = length (nd_heap s)"
  "nd_sent (record_sent_batch packets s) = nd_sent s"
  by (simp_all add: record_sent_batch_def fold_observe_peer count_sent_fields
      peers.view_upd [where v = ps_queue] peers.view_upd [where v = "\<lambda>q. ps_active q = None"] split: list.split)

lemma invalidate_queue:
  "p < length (nd_heap s) \<Longrightarrow> ps_queue (peer_at (invalidate_session p r s) p) = []"
  "p < length (nd_heap s) \<Longrightarrow>
   ps_queue (peer_at (invalidate_session_if p e r s) p) \<in> {ps_queue (peer_at s p), []}"
  by (simp_all add: invalidate_session_def invalidate_session_eq Let_def)

lemma prepare_on_session:
  assumes "on_session p s" "fst (prepare_ip_packets env p [packet] s) = [Inr x]"
  shows "\<exists>d. x = Some d" "on_session p (snd (prepare_ip_packets env p [packet] s))"
    "ps_queue (peer_at (snd (prepare_ip_packets env p [packet] s)) p) = ps_queue (peer_at s p)"
    "nd_sent (snd (prepare_ip_packets env p [packet] s)) = nd_sent s"
  using assms
  by (auto simp: on_session_def prepare_ip_packets_def Let_def case_prod_beta limit_size_def map_sum_def
      split: option.splits if_splits sum.splits)

lemma send_payload_on_session:
  assumes "on_session p s" "send_payload env p payload s = Some (Inr (), u)"
  shows "on_session p u" "ps_queue (peer_at u p) = ps_queue (peer_at s p)"
    "\<exists>target bytes. nd_sent u = nd_sent s @ [(target, bytes, None)]"
proof -
  obtain packet where packet: "send_ip_packet env p packet s = Some (Inr (), u)"
    using assms(2) by (auto simp: send_payload_def split: option.splits sum.splits if_splits)
  let ?t = "snd (prepare_ip_packets env p [packet] s)"
  obtain r where r: "prepare_ip_packet env p packet s = Some (r, ?t)" "fst (prepare_ip_packets env p [packet] s) = [r]"
    by (rule prepare_ip_packet_cases)
  obtain x where x: "r = Inr x" using packet by (cases r) (auto simp: send_ip_packet_def r(1))
  note prep = prepare_on_session [OF assms(1), of env packet x, folded x, OF r(2)]
  obtain d where d: "x = Some d" using prep(1) by blast
  obtain e v where send: "socket_send env (pd_wire_packet d) (pd_path d) ?t = (e, v)" by (metis surj_pair)
  have v: "v = snd (socket_send env (pd_wire_packet d) (pd_path d) ?t)" by (simp add: send)
  have e: "e = None" "u = record_sent_batch [d] v"
    using packet by (cases e; simp add: send_ip_packet_def r(1) x d send)+
  have "\<exists>target bytes. nd_sent v = nd_sent ?t @ [(target, bytes, None)]"
    using send e(1) by (auto simp: socket_send_def Let_def split: option.splits)
  then show "on_session p u" "ps_queue (peer_at u p) = ps_queue (peer_at s p)"
    "\<exists>target bytes. nd_sent u = nd_sent s @ [(target, bytes, None)]"
    using prep(2-4) unfolding e(2) on_session_def record_sent_peer v by simp_all
qed

lemma send_payload_refused:
  assumes "on_session p s" "send_payload env p payload s = Some (Inl e, u)"
  shows "ps_queue (peer_at u p) \<in> {ps_queue (peer_at s p), []}"
proof (cases "u = s")
  case False
  obtain packet where packet: "send_ip_packet env p packet s = Some (Inl e, u)"
    using assms(2) False by (auto simp: send_payload_def split: option.splits sum.splits if_splits)
  have p: "p < length (nd_heap s)" "ps_active (peer_at s p) \<noteq> None" using assms(1) by (auto simp: on_session_def)
  let ?t = "snd (prepare_ip_packets env p [packet] s)"
  obtain r where r: "prepare_ip_packet env p packet s = Some (r, ?t)" "fst (prepare_ip_packets env p [packet] s) = [r]"
    by (rule prepare_ip_packet_cases)
  have heap: "length (nd_heap ?t) = length (nd_heap s)" using keeps_prepare [OF keeps_refl p(1)] by (rule keeps_heap)
  have t: "ps_queue (peer_at ?t p) \<in> {ps_queue (peer_at s p), []}"
    using p by (auto simp: prepare_ip_packets_def Let_def case_prod_beta invalidate_queue split: option.splits)
  show ?thesis
  proof (cases r)
    case (Inl e')
    then show ?thesis using packet t by (simp add: send_ip_packet_def r(1))
  next
    case (Inr x)
    note prep = prepare_on_session [OF assms(1), of env packet x, folded Inr, OF r(2)]
    obtain d where d: "x = Some d" using prep(1) by blast
    have peer: "pd_peer d = p" using prepared_peer [of d env p "[packet]" s] by (simp add: r(2) Inr d)
    obtain x v where send: "socket_send env (pd_wire_packet d) (pd_path d) ?t = (x, v)" by (metis surj_pair)
    have v: "v = snd (socket_send env (pd_wire_packet d) (pd_path d) ?t)" by (simp add: send)
    have u: "u = invalidate_session_if p (Some (pd_session_id d)) True v"
      using packet by (cases x) (simp_all add: send_ip_packet_def r(1) Inr d send peer)
    have "peer_at v p = peer_at ?t p" "length (nd_heap v) = length (nd_heap s)"
      unfolding v by (simp_all add: heap)
    then show ?thesis using invalidate_queue(2) [of p v "Some (pd_session_id d)" True] p(1) prep(3) u by simp
  qed
qed simp

text \<open>A loop over a queue: pops until the queue is empty or a packet is refused.\<close>

lemma flush_queue_step:
  "ps_queue (peer_at s p) = [] \<Longrightarrow> flush_queue env p s = Some s"
  "ps_queue (peer_at s p) = payload # queue \<Longrightarrow>
   send_payload env p payload (upd_peer p (\<lambda>q. q\<lparr>ps_queue := queue\<rparr>) s) = Some (r, u) \<Longrightarrow>
   flush_queue env p s = (case r of Inl _ \<Rightarrow> Some u | Inr _ \<Rightarrow> flush_queue env p u)"
  by (subst flush_queue.simps, simp)+

definition flushed :: "nat \<Rightarrow> 'hs node \<Rightarrow> 'hs node \<Rightarrow> bool" where
  "flushed p s s' \<longleftrightarrow> (\<exists>k. let queue = ps_queue (peer_at s p); queue' = ps_queue (peer_at s' p) in
     k = length queue \<and> queue' = [] \<and> ps_active (peer_at s' p) \<noteq> None
       \<and> length (nd_sent s') = length (nd_sent s) + k
     \<or> k < length queue \<and> queue' \<in> {drop (k + 1) queue, []})"

lemma flush_returns:
  assumes "on_session p s"
  shows "\<exists>s'. flush_queue env p s = Some s' \<and> keeps s s' \<and> flushed p s s'"
  using assms
proof (induction "length (ps_queue (peer_at s p))" arbitrary: s)
  case 0
  then show ?case
    by (auto simp: flush_queue_step(1) flushed_def on_session_def Let_def intro: keeps_refl)
next
  case (Suc n)
  then obtain payload queue where q: "ps_queue (peer_at s p) = payload # queue" "n = length queue"
    by (metis length_Suc_conv)
  have p: "p < length (nd_heap s)" using Suc.prems by (simp add: on_session_def)
  let ?s = "upd_peer p (\<lambda>q. q\<lparr>ps_queue := queue\<rparr>) s"
  have on: "on_session p ?s" "ps_queue (peer_at ?s p) = queue" using Suc.prems by (simp_all add: on_session_def)
  have "peer_step (nd_config s) (\<lambda>q. q\<lparr>ps_queue := queue\<rparr>) (peer_at s p)"
    using q(1) by (auto simp: peer_step_def peer_ok_def session_id_of_def)
  then have keep: "keeps s ?s" by (intro keeps_upd keeps_refl)
  obtain r u where send: "send_payload env p payload ?s = Some (r, u)" "keeps s u"
    by (rule send_payload_keeps [OF keep p])
  show ?case
  proof (cases r)
    case (Inl e)
    then have "ps_queue (peer_at u p) \<in> {queue, []}"
      using send_payload_refused [OF on(1)] send(1) on(2) by auto
    then have "flushed p s u" using q by (auto simp: flushed_def Let_def intro!: exI [of _ 0])
    then show ?thesis using flush_queue_step(2) [OF q(1) send(1)] Inl send(2) by auto
  next
    case (Inr x)
    note ok = send_payload_on_session [OF on(1), of env payload u]
    have u: "on_session p u" "ps_queue (peer_at u p) = queue" "length (nd_sent u) = length (nd_sent s) + 1"
      using ok send(1) Inr on(2) by auto
    obtain s' where s': "flush_queue env p u = Some s'" "keeps u s'" "flushed p u s'"
      using Suc.hyps(1) [of u] u q(2) by auto
    then obtain k where k: "k = length queue \<and> ps_queue (peer_at s' p) = [] \<and> ps_active (peer_at s' p) \<noteq> None
        \<and> length (nd_sent s') = length (nd_sent u) + k
      \<or> k < length queue \<and> ps_queue (peer_at s' p) \<in> {drop (k + 1) queue, []}"
      unfolding flushed_def u(2) Let_def by blast
    then have "flushed p s s'"
      unfolding flushed_def q(1) Let_def using u(3) by (intro exI [of _ "k + 1"]) auto
    then show ?thesis
      using flush_queue_step(2) [OF q(1) send(1)] Inr s'(1) keeps_trans [OF send(2) s'(2)] by auto
  qed
qed

text \<open>Without a session the loop puts back what it popped: a queue of packets that the checks let
  through is never drained and the loop does not end.\<close>

definition sendable :: "nat \<Rightarrow> 'hs node \<Rightarrow> bytes \<Rightarrow> bool" where
  "sendable p s payload \<longleftrightarrow> (case ip_parse payload of
      Some (Inr packet) \<Rightarrow> validate_outbound (nd_routes s) packet = Inr (ps_id (peer_at s p))
        \<and> length payload \<le> nc_virtual_mtu (nd_config s) \<and> length payload \<le> nc_max_payload_size (nd_config s)
    | _ \<Rightarrow> False)"

definition stuck :: "'hs node_env \<Rightarrow> nat \<Rightarrow> 'hs node \<Rightarrow> bool" where
  "stuck env p s \<longleftrightarrow> p < length (nd_heap s) \<and> ps_active (peer_at s p) = None
     \<and> ne_now env < nd_snapshot_expires_at s \<and> ps_queue (peer_at s p) \<noteq> []
     \<and> length (ps_queue (peer_at s p)) \<le> nc_per_peer_queue_limit (nd_config s)
     \<and> (\<forall>payload \<in> set (ps_queue (peer_at s p)). sendable p s payload)"

lemma stuck_step:
  assumes "stuck env p s" "ps_queue (peer_at s p) = payload # queue"
  shows "\<exists>u. send_payload env p payload (upd_peer p (\<lambda>q. q\<lparr>ps_queue := queue\<rparr>) s) = Some (Inr (), u) \<and> stuck env p u"
proof -
  let ?s = "upd_peer p (\<lambda>q. q\<lparr>ps_queue := queue\<rparr>) s"
  let ?u = "upd_peer p (\<lambda>q. q\<lparr>ps_queue := queue @ [payload]\<rparr>) ?s"
  have p: "p < length (nd_heap s)" using assms(1) by (simp add: stuck_def)
  obtain packet where packet: "ip_parse payload = Some (Inr packet)"
      "validate_outbound (nd_routes s) packet = Inr (ps_id (peer_at s p))"
      "length payload \<le> nc_virtual_mtu (nd_config s)" "length payload \<le> nc_max_payload_size (nd_config s)"
    using assms by (fastforce simp: stuck_def sendable_def split: option.splits sum.splits)
  have bytes: "ip_bytes packet = payload" using ip_parse_bytes [OF packet(1)] .
  have "prepare_ip_packets env p [packet] ?s = ([Inr None], ?u)"
    using assms packet p bytes by (simp add: prepare_ip_packets_def stuck_def not_le)
  then have "send_ip_packet env p packet ?s = Some (Inr (), ?u)"
    by (simp add: send_ip_packet_def prepare_ip_packet_def)
  then have "send_payload env p payload ?s = Some (Inr (), ?u)"
    using packet p by (simp add: send_payload_def)
  moreover have "stuck env p ?u"
    using assms p by (auto simp: stuck_def sendable_def split: option.splits sum.splits)
  ultimately show ?thesis by blast
qed

lemma flush_diverges:
  fixes s :: "'hs node"
  assumes "stuck env p s"
  shows "flush_queue env p s = None"
proof (rule ccontr)
  assume "flush_queue env p s \<noteq> None"
  then obtain s' where "flush_queue env p s = Some s'" by blast
  then have "\<not> stuck env p s"
  proof (rule flush_queue.raw_induct [where P = "\<lambda>env p s y. \<not> stuck env p s", rotated], rule_tac notI)
    fix flush env p and s :: "'hs node" and y
    assume IH: "\<And>env p s y. flush env p s = Some y \<Longrightarrow> \<not> stuck env p s"
      and step: "(case ps_queue (peer_at s p) of [] \<Rightarrow> Some s
        | payload # queue \<Rightarrow> Option.bind (send_payload env p payload (upd_peer p (\<lambda>q. q\<lparr>ps_queue := queue\<rparr>) s))
          (\<lambda>(result, s'). case result of Inl _ \<Rightarrow> Some s' | Inr _ \<Rightarrow> flush env p s')) = Some y"
      and stuck: "stuck env p s"
    then obtain payload queue where q: "ps_queue (peer_at s p) = payload # queue"
      by (auto simp: stuck_def neq_Nil_conv)
    obtain u where u: "send_payload env p payload (upd_peer p (\<lambda>q. q\<lparr>ps_queue := queue\<rparr>) s) = Some (Inr (), u)" "stuck env p u"
      using stuck_step [OF stuck q] by blast
    then have "flush env p u = Some y" using step by (simp add: q)
    then show False using IH u(2) by blast
  qed
  then show False using assms by simp
qed

subsection \<open>Batches\<close>

lemma keeps_socket_batch [node_keeps]: "keeps s t \<Longrightarrow> keeps s (snd (socket_send_batch env packets t))"
  by (auto simp: socket_send_batch_def Let_def case_prod_beta intro!: node_keeps split: option.splits)

lemma send_group_result:
  assumes "keeps s t" "pd_peer first < length (nd_heap s)"
  shows "keeps s (snd (send_group env first flow t)) \<and> length (fst (send_group env first flow t)) = length flow"
proof -
  obtain r u where r: "socket_send_batch env (map (\<lambda>packet. (pd_wire_packet packet, pd_path packet)) flow) t = (r, u)"
    by (metis surj_pair)
  have "keeps s u" using keeps_socket_batch [OF assms(1)] r by (metis snd_conv)
  then show ?thesis
    using assms(2) by (cases r) (auto simp: send_group_def r Let_def intro!: node_keeps)
qed

lemma send_prepared_result:
  assumes "keeps s t" "\<forall>d \<in> set prepared. pd_peer d < length (nd_heap s)"
  shows "keeps s (snd (send_prepared_batch env prepared t))
    \<and> length (fst (send_prepared_batch env prepared t)) = length prepared"
  using assms
proof (induction env prepared t rule: send_prepared_batch.induct)
  case (2 env first prepared t)
  let ?flow = "first # takeWhile (same_flow first) prepared"
  obtain results u where group: "send_group env first ?flow t = (results, u)" by (metis surj_pair)
  have u: "keeps s u" "length results = length ?flow"
    using send_group_result [OF "2.prems"(1), of first env ?flow] "2.prems"(2) by (simp_all add: group)
  have rest: "\<forall>d \<in> set (dropWhile (same_flow first) prepared). pd_peer d < length (nd_heap s)"
    using "2.prems"(2) by (auto dest: set_dropWhileD)
  note IH = "2.IH" [OF refl group [symmetric] refl u(1) rest]
  have "length prepared = length (takeWhile (same_flow first) prepared) + length (dropWhile (same_flow first) prepared)"
    by (metis length_append takeWhile_dropWhile_id)
  then show ?case using IH u(2) by (simp add: Let_def group case_prod_beta)
qed simp

definition covered :: "send_batch \<Rightarrow> nat \<Rightarrow> bool" where
  "covered b i \<longleftrightarrow> i < length (sb_results b) \<and> (sb_results b ! i \<noteq> None \<or> i \<in> fst ` set (sb_prepared b))"

lemma place_length [simp]: "length (sb_results (place_result n w entry b)) = length (sb_results b)"
  by (auto simp: place_result_def split: prod.splits sum.splits option.splits)

lemma place_covers:
  "covered b i \<or> i = fst entry \<and> i < length (sb_results b) \<Longrightarrow> covered (place_result n w entry b) i"
  by (cases "i = fst entry") (auto simp: covered_def place_result_def split: prod.splits sum.splits option.splits)

lemma place_prepared:
  "set (sb_prepared (place_result n w entry b)) \<subseteq>
    set (sb_prepared b) \<union> {(i, d) | i d. entry = (i, Inr (Some d))}"
  by (auto simp: place_result_def split: prod.splits sum.splits option.splits)

lemma fold_place:
  "length (sb_results (fold (place_result n w) entries b)) = length (sb_results b)"
  "covered b i \<or> i \<in> fst ` set entries \<and> i < length (sb_results b) \<Longrightarrow> covered (fold (place_result n w) entries b) i"
  "set (sb_prepared (fold (place_result n w) entries b)) \<subseteq>
    set (sb_prepared b) \<union> {(i, d) | i d. (i, Inr (Some d)) \<in> set entries}"
proof (induction entries arbitrary: b)
  case (Cons entry entries)
  { case 1 show ?case by (simp add: Cons(1)) }
  { case 2 show ?case using 2 Cons(2) [of "place_result n w entry b"] place_covers [of b i entry n w] by auto }
  { case 3 show ?case using Cons(3) [of "place_result n w entry b"] place_prepared [of n w entry b] by auto }
qed simp_all

lemma prepare_groups_result:
  assumes "keeps s t" "\<forall>(i, packet, p) \<in> set routed. p < length (nd_heap s) \<and> i < length (sb_results b)"
    and "\<forall>(i, d) \<in> set (sb_prepared b). pd_peer d < length (nd_heap s)"
  shows "keeps s (snd (prepare_groups env routed b t))
    \<and> length (sb_results (fst (prepare_groups env routed b t))) = length (sb_results b)
    \<and> (\<forall>i. covered b i \<or> i \<in> fst ` set routed \<longrightarrow> covered (fst (prepare_groups env routed b t)) i)
    \<and> (\<forall>(i, d) \<in> set (sb_prepared (fst (prepare_groups env routed b t))). pd_peer d < length (nd_heap s))"
  using assms
proof (induction "length routed" arbitrary: routed b t rule: less_induct)
  case (less all)
  show ?case
  proof (cases all)
    case (Cons entry routed)
    obtain i packet p where entry: "entry = (i, packet, p)" by (metis prod_cases3)
    note prems = less.prems [unfolded Cons entry]
    let ?same = "\<lambda>(_, _, q). ps_id (peer_at t q) = ps_id (peer_at t p)"
    let ?flow = "(i, packet, p) # takeWhile ?same routed"
    let ?rest = "dropWhile ?same routed"
    obtain results u where prep: "prepare_ip_packets env p (map (\<lambda>(_, packet, _). packet) ?flow) t = (results, u)"
      by (metis surj_pair)
    define b1 where "b1 = fold (place_result (ps_id (peer_at t p)) (wants_connection t p)) (zip (map fst ?flow) results) b"
    have p: "p < length (nd_heap s)" using prems(2) by simp
    have u: "keeps s u" using keeps_prepare [OF prems(1) p] prep by (metis snd_conv)
    have len: "length results = length ?flow"
      using prepare_ip_packets_length [of env p "map (\<lambda>(_, packet, _). packet) ?flow" t]
      unfolding prep fst_conv length_map .
    have split: "set routed = set (takeWhile ?same routed) \<union> set ?rest" by (metis set_append takeWhile_dropWhile_id)
    have "map fst (zip (map fst ?flow) results) = map fst ?flow" using len by (intro map_fst_zip) simp
    then have "set (map fst (zip (map fst ?flow) results)) = set (map fst ?flow)" by (rule arg_cong)
    then have idx: "fst ` set (zip (map fst ?flow) results) = fst ` set ?flow" unfolding list.set_map .
    have b1: "length (sb_results b1) = length (sb_results b)"
      "covered b k \<or> k \<in> fst ` set ?flow \<and> k < length (sb_results b) \<Longrightarrow> covered b1 k" for k
      unfolding b1_def by (simp_all only: fold_place(1) fold_place(2) idx)
    have "pd_peer d = p" if "(k, Inr (Some d)) \<in> set (zip (map fst ?flow) results)" for k d
      using prepared_peer [of d env p "map (\<lambda>(_, packet, _). packet) ?flow" t] set_zip_rightD [OF that]
      unfolding prep fst_conv by blast
    then have prepared: "\<forall>(k, d) \<in> set (sb_prepared b1). pd_peer d < length (nd_heap s)"
      using fold_place(3) [of "ps_id (peer_at t p)" "wants_connection t p" "zip (map fst ?flow) results" b] prems(3) p
      unfolding b1_def by blast
    have routed: "\<forall>(k, packet, q) \<in> set ?rest. q < length (nd_heap s) \<and> k < length (sb_results b1)"
      using prems(2) split b1(1) by auto
    have eq: "prepare_groups env ((i, packet, p) # routed) b t = prepare_groups env ?rest b1 u"
      by (simp only: prepare_groups.simps Let_def prep case_prod_conv b1_def)
    have bound: "k < length (sb_results b)" if "k \<in> fst ` set ?flow" for k
      using that prems(2) split by auto
    have "length ?rest < length all" by (simp add: Cons le_imp_less_Suc length_dropWhile_le)
    note IH = less.hyps [OF this u routed prepared]
    have "covered b k \<or> k \<in> fst ` set ((i, packet, p) # routed) \<longrightarrow> covered b1 k \<or> k \<in> fst ` set ?rest" for k
      using b1(2) bound split by auto
    then show ?thesis unfolding Cons entry eq using IH b1(1) by metis
  qed (use less.prems in simp)
qed

lemma finish_send_state: "keeps s (snd state) \<Longrightarrow> keeps s (snd (finish_send entry state))"
  by (auto simp: finish_send_def intro!: node_keeps split: prod.splits sum.splits send_error.splits)

lemma finish_send_results:
  "sb_results (fst (finish_send entry state)) = (sb_results (fst state))[fst (fst entry) := Some (snd entry)]"
  by (auto simp: finish_send_def split: prod.splits)

lemma fold_finish:
  "keeps s (snd state) \<Longrightarrow> keeps s (snd (fold finish_send entries state))"
  "length (sb_results (fst (fold finish_send entries state))) = length (sb_results (fst state))"
  "i < length (sb_results (fst state)) \<Longrightarrow> sb_results (fst state) ! i \<noteq> None \<or> i \<in> fst ` fst ` set entries \<Longrightarrow>
   sb_results (fst (fold finish_send entries state)) ! i \<noteq> None"
proof (induction entries arbitrary: state)
  case (Cons entry entries)
  { case 1 then show ?case using Cons(1) [OF finish_send_state [OF 1]] by simp }
  { case 2 then show ?case using Cons(2) by (simp add: finish_send_results) }
  { case 3
    have "sb_results (fst (finish_send entry state)) ! i \<noteq> None"
      if "sb_results (fst state) ! i \<noteq> None \<or> i = fst (fst entry)"
      using 3(1) that by (cases "i = fst (fst entry)") (auto simp: finish_send_results)
    then show ?case using Cons(3) [of "finish_send entry state"] 3 by (auto simp: finish_send_results) }
qed simp_all

lemma keeps_request [node_keeps]: "keeps s t \<Longrightarrow> keeps s (request_connection n t)"
  by (auto simp: request_connection_def Let_def intro!: node_keeps)

lemma route_packet_total:
  assumes "node_inv s"
  obtains slot where "route_packet s payload = Some slot" "\<forall>packet p. slot = Inr (packet, p) \<longrightarrow> p < length (nd_heap s)"
proof -
  obtain parsed where parsed: "ip_parse payload = Some parsed" using ip_parse_total by blast
  then have "route_packet s payload \<noteq> None" by (cases parsed) (simp_all add: route_packet_def)
  then obtain slot where slot: "route_packet s payload = Some slot" by blast
  moreover have "p < length (nd_heap s)" if "slot = Inr (packet, p)" for packet p
    using slot node_inv_known [OF assms] that
    by (auto simp: route_packet_def parsed split: sum.splits option.splits)
  ultimately show thesis using that by blast
qed

lemma send_ip_batch_keeps:
  assumes inv: "node_inv s"
  obtains results s' where "send_ip_batch env packets s = Some (results, s')" "length results = length packets" "keeps s s'"
proof -
  define slot where "slot = (\<lambda>payload. the (route_packet s payload))"
  have slot: "route_packet s payload = Some (slot payload)"
    "slot payload = Inr (packet, p) \<Longrightarrow> p < length (nd_heap s)" for payload packet p
    using route_packet_total [OF inv, of payload] unfolding slot_def by (metis option.sel)+
  let ?slots = "map slot packets"
  have slots: "slot_results (map (route_packet s) packets) = Some ?slots"
    by (simp add: slot_results_def slot(1) comp_def image_iff)
  let ?routed = "concat (map (\<lambda>(slot_index, slot). case slot of Inl _ \<Rightarrow> [] | Inr (packet, p) \<Rightarrow> [(slot_index, packet, p)])
              (zip [0..<length ?slots] ?slots))"
  let ?b = "\<lparr>sb_results = map (\<lambda>slot. case slot of Inl e \<Rightarrow> Some (Inl e) | Inr _ \<Rightarrow> None) ?slots,
     sb_prepared = [], sb_connect = []\<rparr>"
  have mem: "(i, packet, p) \<in> set ?routed \<longleftrightarrow> i < length packets \<and> slot (packets ! i) = Inr (packet, p)" for i packet p
    by (force simp: set_zip split: sum.splits)
  have routed: "\<forall>(i, packet, p) \<in> set ?routed. p < length (nd_heap s) \<and> i < length (sb_results ?b)"
    using mem slot(2) by auto
  obtain b1 s1 where b1: "prepare_groups env ?routed ?b s = (b1, s1)" by (metis surj_pair)
  have "\<forall>(i, d) \<in> set (sb_prepared ?b). pd_peer d < length (nd_heap s)" by simp
  note groups = prepare_groups_result [OF keeps_refl routed this, of env, unfolded b1 fst_conv snd_conv]
  have prep: "keeps s s1" "length (sb_results b1) = length (sb_results ?b)"
    "\<forall>i. covered ?b i \<or> i \<in> fst ` set ?routed \<longrightarrow> covered b1 i"
    "\<forall>(i, d) \<in> set (sb_prepared b1). pd_peer d < length (nd_heap s)"
    using groups by - (elim conjE, assumption)+
  have len1: "length (sb_results b1) = length packets" using prep(2) by simp
  have cover: "covered b1 i" if "i < length packets" for i
  proof (rule prep(3) [rule_format], cases "slot (packets ! i)")
    case (Inr r)
    then have "(i, fst r, snd r) \<in> set ?routed" unfolding mem using that by simp
    then have "fst (i, fst r, snd r) \<in> fst ` set ?routed" by (rule imageI)
    then show "covered ?b i \<or> i \<in> fst ` set ?routed" unfolding fst_conv by (rule disjI2)
  next
    case (Inl e)
    have "covered ?b i" using that Inl by (simp add: covered_def)
    then show "covered ?b i \<or> i \<in> fst ` set ?routed" by (rule disjI1)
  qed
  obtain sent s2 where sent: "send_prepared_batch env (map snd (sb_prepared b1)) s1 = (sent, s2)" by (metis surj_pair)
  have s2: "keeps s s2" "length sent = length (sb_prepared b1)"
    using send_prepared_result [OF prep(1), of "map snd (sb_prepared b1)" env] prep(4)
    by (simp_all add: sent case_prod_beta)
  obtain b2 s3 where b2: "fold finish_send (zip (sb_prepared b1) sent) (b1, s2) = (b2, s3)" by (metis surj_pair)
  have s3: "keeps s s3" using fold_finish(1) [of s "(b1, s2)" "zip (sb_prepared b1) sent"] s2(1) by (simp add: b2)
  have len: "length (sb_results b2) = length packets"
    using fold_finish(2) [of "zip (sb_prepared b1) sent" "(b1, s2)"] len1 by (simp add: b2)
  have "map fst (zip (sb_prepared b1) sent) = sb_prepared b1" using s2(2) by simp
  then have "fst ` set (zip (sb_prepared b1) sent) = set (sb_prepared b1)" by (metis list.set_map)
  then have "sb_results b2 ! i \<noteq> None" if "i < length packets" for i
    using fold_finish(3) [of i "(b1, s2)" "zip (sb_prepared b1) sent"] cover [OF that] len1 that
    by (simp add: b2 covered_def)
  then have "None \<notin> set (sb_results b2)" by (metis in_set_conv_nth len)
  then have "send_ip_batch env packets s = Some (map the (sb_results b2),
      fold request_connection (remdups_adj (sort (sb_connect b2))) s3)"
    unfolding send_ip_batch_def slots option.case Let_def b1 sent b2 case_prod_conv by (simp add: slot_results_def)
  moreover have "keeps s (fold request_connection (remdups_adj (sort (sb_connect b2))) s3)"
    by (intro keeps_fold s3 node_keeps)
  ultimately show thesis using that len by simp
qed

end
