(* ===== verification/Vela_Node_Receive.thy ===== *)
theory Vela_Node_Receive
  imports Vela_Node_Send
begin

section \<open>Receiving keeps the invariant and returns (vela-core)\<close>

text \<open>
  The handlers of the inbound path preserve the invariant of the node and return on every
  datagram: no input makes the node panic or loop.
\<close>

subsection \<open>Sessions\<close>

lemma session_ok_fields:
  "session_ok config (session\<lparr>as_pending_path := a\<rparr>) = session_ok config session"
  "session_ok config (session\<lparr>as_path := b\<rparr>) = session_ok config session"
  "session_ok config (session\<lparr>as_tx_sequence := c\<rparr>) = session_ok config session"
  "session_ok config (session\<lparr>as_ping_waiters := d\<rparr>) = session_ok config session"
  "session_ok config (session\<lparr>as_pending_keepalive := e\<rparr>) = session_ok config session"
  "session_ok config (session\<lparr>as_last_rx := f\<rparr>) = session_ok config session"
  "session_ok config (session\<lparr>as_path_changed_at := g\<rparr>) = session_ok config session"
  "session_ok config (session\<lparr>as_last_rtt_ms := h\<rparr>) = session_ok config session"
  "session_ok config (session\<lparr>as_rx_bytes := i\<rparr>) = session_ok config session"
  by (simp_all add: session_ok_def)

lemma session_ok_replay:
  "session_ok config session \<Longrightarrow> session_ok config (session\<lparr>as_replay := snd (replay_accept (as_replay session) n)\<rparr>)"
  using replay_accept_refines(2) by (fastforce simp: session_ok_def)

lemma mtu_reset_bounds:
  assumes "mtu_inv m" "pm_upper m \<le> maximum"
  shows "mtu_inv (snd (mtu_reset m base maximum)) \<and> pm_upper (snd (mtu_reset m base maximum)) \<le> maximum"
  using assms mtu_new_inv [of base maximum] by (auto simp: mtu_reset_def Let_def mtu_new_def)

lemma acknowledge_upper: "pm_upper (snd (acknowledge m n peer_max)) \<le> pm_upper m"
  by (auto simp: acknowledge_def Let_def split: option.splits)

lemma poll_upper: "pm_upper (snd (poll_probe m now n)) \<le> pm_upper m"
  by (auto simp: poll_probe_def send_next_probe_def Let_def split: option.splits)

lemma session_ok_new:
  "session_ok (nd_config s) (new_session env s i path cipher)"
  using replay_rel_default mtu_new_inv
  by (auto simp: session_ok_def new_session_def mtu_new_def Let_def)

lemma session_ok_reset:
  "session_ok config session \<Longrightarrow>
   session_ok config (session\<lparr>as_path_mtu := snd (mtu_reset (as_path_mtu session) base (nc_virtual_mtu config))\<rparr>)"
  using mtu_reset_bounds [of "as_path_mtu session"] by (simp add: session_ok_def)

lemma session_ok_acknowledge:
  "session_ok config session \<Longrightarrow>
   session_ok config (session\<lparr>as_path_mtu := snd (acknowledge (as_path_mtu session) n peer_max)\<rparr>)"
  using acknowledge_inv [of "as_path_mtu session"] acknowledge_upper [of "as_path_mtu session"]
  by (fastforce simp: session_ok_def intro: order_trans)

subsection \<open>Connection attempts\<close>

lemma peer_step_candidate [peer_steps]: "peer_step config (update_attempt_candidate i address f) q"
  by (auto simp: peer_step_def peer_ok_def session_id_of_def update_attempt_candidate_def split: option.splits)

lemma keeps_attempts [node_keeps]:
  "keeps s t \<Longrightarrow> keeps s (record_candidate_probe env p i address error t)"
  "keeps s t \<Longrightarrow> keeps s (record_candidate_response env p i address t)"
  "keeps s t \<Longrightarrow> keeps s (emit_peer_connecting p t)"
  "keeps s t \<Longrightarrow> keeps s (count_receive p g t)"
  by (auto simp: record_candidate_probe_def record_candidate_response_def emit_peer_connecting_def count_receive_def
      Let_def intro!: keeps_upd_step peer_steps node_keeps)

lemma keeps_send_handshake [node_keeps]:
  assumes "keeps s t"
  shows "keeps s (snd (send_handshake env p path i attempt payload hs t))"
proof -
  obtain r u where send: "send_packet env path Handshake i 0 payload t = (r, u)" by (metis surj_pair)
  have "keeps s u" using keeps_primitives(4) [OF assms] send by (metis snd_conv)
  then show ?thesis
    by (cases r) (auto simp: send_handshake_def send Let_def intro!: keeps_upd_step peer_steps node_keeps)
qed

lemma keeps_start_initiator [node_keeps]: "keeps s t \<Longrightarrow> keeps s (snd (start_initiator env p path i t))"
  by (auto simp: start_initiator_def intro!: node_keeps split: option.splits sum.splits)

lemma inv_fewer_sessions:
  assumes "node_inv s" "distinct (map fst entries)"
    and "\<And>i p. map_of entries i = Some p \<Longrightarrow> map_of (nd_sessions s) i = Some p"
  shows "node_inv (s\<lparr>nd_sessions := entries\<rparr>)"
  using assms(1,2) assms(3) [THEN node_inv_session [OF assms(1)]]
  unfolding node_inv_def tables_ok_def queues_ok_def peer_at_frame by simp

lemma keeps_remove_session [node_keeps]: "keeps s t \<Longrightarrow> keeps s (remove_session p i t)"
proof (rule keepsI [of t])
  assume inv: "node_inv t"
  then have "distinct (map fst (nd_sessions t))" by (simp add: node_inv_def tables_ok_def)
  then have "node_inv (t\<lparr>nd_sessions := AList.delete i (nd_sessions t)\<rparr>)"
    by (intro inv_fewer_sessions [OF inv]) (auto simp: distinct_delete map_of_delete split: if_splits)
  then show "node_inv (remove_session p i t)" using inv by (simp add: remove_session_def)
qed simp_all

lemma keeps_close_session [node_keeps]: "keeps s t \<Longrightarrow> p < length (nd_heap s) \<Longrightarrow> keeps s (close_session p t)"
  using inv_close_session [of t p] by (auto simp: keeps_def)

lemma remove_closed:
  assumes "session_id_of (peer_at s p) = Some i"
  shows "remove_session p i (upd_peer p (\<lambda>q. q\<lparr>ps_active := None\<rparr>) s) = close_session p s"
  by (simp add: close_session_def assms)

text \<open>A new session of a peer that has none.\<close>

definition open_session :: "nat \<Rightarrow> active_session \<Rightarrow> 'hs node \<Rightarrow> 'hs node" where
  "open_session p session s =
    (let s1 = upd_peer p (\<lambda>q. q\<lparr>ps_active := Some session\<rparr>) s
     in s1\<lparr>nd_sessions := AList.update (as_session_id session) p (nd_sessions s1)\<rparr>)"

lemma keeps_open_session:
  assumes "keeps s t" "p < length (nd_heap s)" "ps_active (peer_at t p) = None" "session_ok (nd_config s) session"
  shows "keeps s (open_session p session t)"
proof (rule keepsI [OF _ _ _ assms(1)])
  have p: "p < length (nd_heap t)" using assms(1,2) by (simp add: keeps_def)
  have at: "peer_at (open_session p session t) q =
      (if q = p then (peer_at t p)\<lparr>ps_active := Some session\<rparr> else peer_at t q)" for q
    using p by (simp add: open_session_def Let_def peer_at_upd)
  assume inv: "node_inv t"
  have other: "q \<noteq> p" if "map_of (nd_sessions t) i = Some q" for i q
    using node_inv_session [OF inv that] assms(3) by (auto simp: session_id_of_def)
  have entry: "q < length (nd_heap t) \<and> session_id_of (peer_at (open_session p session t) q) = Some i"
    if "map_of (nd_sessions (open_session p session t)) i = Some q" for i q
    using that p other [of i q] node_inv_session [OF inv, of i q]
    by (auto simp: open_session_def Let_def update_conv' peer_at_upd session_id_of_def split: if_splits)
  have "peer_ok (nd_config t) ((peer_at t p)\<lparr>ps_active := Some session\<rparr>)"
    using node_inv_peer [OF inv p] assms(4) keeps_config [OF assms(1)] by (simp add: peer_ok_def)
  moreover have frame: "nd_peers (open_session p session t) = nd_peers t" "nd_config (open_session p session t) = nd_config t"
    "nd_data (open_session p session t) = nd_data t" "nd_workers (open_session p session t) = nd_workers t"
    "length (nd_heap (open_session p session t)) = length (nd_heap t)"
    by (simp_all add: open_session_def Let_def)
  moreover have "distinct (map fst (nd_sessions (open_session p session t)))"
    using inv by (simp add: node_inv_def tables_ok_def open_session_def Let_def distinct_update)
  ultimately show "node_inv (open_session p session t)"
    using inv entry unfolding node_inv_def tables_ok_def queues_ok_def by (simp add: at)
qed (simp_all add: open_session_def Let_def)

subsection \<open>Handshakes\<close>

lemma peer_step_established [peer_steps]:
  "peer_step config (\<lambda>q. (clear_failure (record_path now path candidates q))
     \<lparr>ps_connecting := False, ps_attempt := None, ps_reconnect := reconnect_default\<rparr>) q"
  by (auto simp: peer_step_def peer_ok_def session_id_of_def reconnect_default_def clear_failure_def
    record_path_def Let_def)

lemma establish_eq:
  "establish env p i path cipher expected s =
    (if ps_active (peer_at s p) \<noteq> None \<or> ps_info (peer_at s p) \<noteq> expected then Some s
     else
       let s2 = open_session p (new_session env s i path cipher) s;
           s3 = upd_peer p (\<lambda>q. (clear_failure (record_path (ne_now env) path (pi_candidates expected) q))
                  \<lparr>ps_connecting := False, ps_attempt := None, ps_reconnect := reconnect_default\<rparr>) s2
       in flush_queue env p (snd (emit (PeerConnected (pi_node_id (ps_info (peer_at s3 p)))) s3)))"
  by (simp add: establish_def open_session_def Let_def new_session_def)

lemma establish_keeps:
  assumes "keeps s t" "p < length (nd_heap s)"
  shows "\<exists>u. establish env p i path cipher expected t = Some u \<and> keeps s u"
proof (cases "ps_active (peer_at t p) \<noteq> None \<or> ps_info (peer_at t p) \<noteq> expected")
  case False
  define s2 where "s2 = open_session p (new_session env t i path cipher) t"
  define s3 where "s3 = upd_peer p (\<lambda>q. (clear_failure (record_path (ne_now env) path (pi_candidates expected) q))
                  \<lparr>ps_connecting := False, ps_attempt := None, ps_reconnect := reconnect_default\<rparr>) s2"
  define s4 where "s4 = snd (emit (PeerConnected (pi_node_id (ps_info (peer_at s3 p)))) s3)"
  have p: "p < length (nd_heap t)" using assms by (simp add: keeps_def)
  have k2: "keeps s s2"
    using session_ok_new [of t env i path cipher] keeps_config [OF assms(1)] False
    unfolding s2_def by (intro keeps_open_session assms) simp_all
  then have k3: "keeps s s3" unfolding s3_def by (intro keeps_upd_step peer_steps)
  then have k4: "keeps s s4" unfolding s4_def by (intro node_keeps)
  have "p < length (nd_heap s2)" "ps_active (peer_at s2 p) \<noteq> None"
    using p by (simp_all add: s2_def open_session_def Let_def)
  then have "on_session p s4"
    by (simp add: on_session_def s4_def s3_def clear_failure_def record_path_def Let_def)
  then obtain u where "flush_queue env p s4 = Some u" "keeps s4 u" using flush_returns by blast
  then show ?thesis
    using False keeps_trans [OF k4] by (auto simp: establish_eq Let_def s2_def s3_def s4_def)
qed (use assms(1) in \<open>auto simp: establish_eq\<close>)

lemma validate_context_total [simp]: "validate_handshake_context net bs sender peer \<noteq> None"
  using decode_context_total [of bs] by (auto simp: validate_handshake_context_def Let_def split: option.splits)

text \<open>\<open>returns s r\<close>: the operation returned, and what it did keeps the invariant.\<close>

definition returns :: "'hs node \<Rightarrow> ('r \<times> 'hs node) option \<Rightarrow> bool" where
  "returns s r \<longleftrightarrow> (case r of None \<Rightarrow> False | Some (_, t) \<Rightarrow> keeps s t)"

lemma returns_Some [simp]: "returns s (Some x) \<longleftrightarrow> keeps s (snd x)"
  by (simp add: returns_def case_prod_beta)

lemma returns_establish:
  assumes "keeps s t" "p < length (nd_heap s)"
  shows "returns s (map_option (\<lambda>u. (r, u)) (establish env p i path cipher expected t))"
  using establish_keeps [OF assms, of env i path cipher expected] by auto

lemma respond_returns:
  assumes "keeps s t" "p < length (nd_heap s)"
  shows "returns s (respond_handshake env p sender packet source t)"
proof -
  let ?i = "hdr_session_id (wp_header packet)" and ?info = "ps_info (peer_at t p)"
  have inner: "returns s (case send_packet env source Handshake ?i 0 payload t of
       (Inl e, s1) \<Rightarrow> Some (Inl e, s1)
     | (Inr _, s1) \<Rightarrow>
       let s2 = (if ps_active (peer_at s1 p) \<noteq> None then invalidate_session p False s1 else s1)
       in map_option (\<lambda>s'. (Inr (), s')) (establish env p ?i source cipher ?info s2))" for payload cipher
  proof -
    obtain r u where send: "send_packet env source Handshake ?i 0 payload t = (r, u)" by (metis surj_pair)
    have u: "keeps s u" using keeps_primitives(4) [OF assms(1)] send by (metis snd_conv)
    show ?thesis
      using u assms(2) by (cases r) (auto simp: send Let_def intro!: returns_establish node_keeps)
  qed
  show ?thesis
    unfolding respond_handshake_def Let_def
    using assms(1) inner [unfolded Let_def]
    by (auto split: sum.splits option.splits)
qed

lemma finish_returns:
  assumes "keeps s t" "p < length (nd_heap s)"
  shows "returns s (finish_handshake env p sender packet source t)"
proof -
  have attempt: "keeps s (upd_peer p (\<lambda>q. q\<lparr>ps_attempt := a\<rparr>) t)" for a
    using assms(1) by (intro keeps_upd_step peer_steps)
  show ?thesis
    unfolding finish_handshake_def Let_def
    using assms attempt
    by (auto intro!: returns_establish node_keeps split: sum.splits option.splits)
qed

lemma peer_for_heap: "node_inv s \<Longrightarrow> peer_for s n = Inr p \<Longrightarrow> p < length (nd_heap s)"
  using node_inv_known [of s n p] by (auto simp: peer_for_def split: option.splits)

lemma handshake_returns: "node_inv s \<Longrightarrow> returns s (handle_handshake env packet source s)"
  by (auto simp: handle_handshake_def Let_def keeps_refl dest: peer_for_heap
      intro!: respond_returns finish_returns split: sum.splits)

subsection \<open>Probes\<close>

lemma authenticate_heap: "node_inv s \<Longrightarrow> authenticate_probe env payload s = Inr (probe, p) \<Longrightarrow> p < length (nd_heap s)"
  by (auto simp: authenticate_probe_def dest: peer_for_heap split: sum.splits if_splits)

lemma keeps_handle_probe:
  assumes "node_inv s"
  shows "keeps s (snd (handle_probe env packet source s))"
proof (cases "authenticate_probe env (wp_payload packet) s")
  case (Inr r)
  obtain probe p where r: "r = (probe, p)" by (metis surj_pair)
  define payload where "payload = encode_probe (ne_cp env) (node_id_of env s) (pr_sender probe)
             (pr_session_id probe) (pr_timestamp probe) (pr_nonce probe) (nd_identity s)"
  obtain x u where send: "send_packet env source ProbeResponse (pr_session_id probe) 0 payload s = (x, u)" by (metis surj_pair)
  have u: "keeps s u" using keeps_primitives(4) [OF keeps_refl] send by (metis snd_conv)
  show ?thesis
    using u by (cases x) (auto simp: handle_probe_def Inr r payload_def [symmetric] send Let_def
      intro!: node_keeps keeps_upd_step peer_steps)
qed (simp add: handle_probe_def keeps_refl)

lemma keeps_handle_probe_response: "keeps s (snd (handle_probe_response env packet source s))"
  by (auto simp: handle_probe_response_def Let_def intro!: node_keeps split: sum.splits)

subsection \<open>Data packets\<close>

lemma session_peer_heap: "node_inv s \<Longrightarrow> session_peer s i = Some p \<Longrightarrow> p < length (nd_heap s)"
  using node_inv_session [of s i p] by (simp add: session_peer_def)

lemma context_keeps:
  assumes "node_inv s" "keeps s t"
  shows "keeps s (snd (data_decrypt_context_at packet now t))"
    "fst (data_decrypt_context_at packet now t) = Inr (Some (p, cipher)) \<Longrightarrow> p < length (nd_heap s)"
  using session_peer_heap [OF keeps_inv [OF assms(2,1)]] keeps_heap [OF assms(2)] assms(2)
  by (auto simp: data_decrypt_context_at_def Let_def intro!: node_keeps split: option.splits if_splits)

lemma commit_session_step:
  assumes "commit_session env s source len candidates (session\<lparr>as_replay := snd (replay_accept (as_replay session) n)\<rparr>) q =
      (path_changed, reset, q')" "ps_active q = Some session"
  shows "peer_step (nd_config s) (\<lambda>_. q') q"
proof -
  let ?c = "nd_config s"
  define s0 where "s0 = session\<lparr>as_replay := snd (replay_accept (as_replay session) n), as_last_rx := ne_instant env\<rparr>"
  obtain pc s1 where observe: "observe_data_source (ne_instant env) source s0 = (pc, s1)" by (metis surj_pair)
  have s1: "as_session_id s1 = as_session_id session" "session_ok ?c session \<Longrightarrow> session_ok ?c s1"
    using observe session_ok_replay [of ?c session n]
    by (auto simp: observe_data_source_def s0_def Let_def session_ok_fields split: prod.splits if_splits)
  obtain r m where m: "mtu_reset (as_path_mtu s1) (safe_virtual_mtu s) (nc_virtual_mtu ?c) = (r, m)" by (metis surj_pair)
  have s2: "session_ok ?c (s1\<lparr>as_path_mtu := m\<rparr>)" if "session_ok ?c session"
    using session_ok_reset [OF s1(2) [OF that], of "safe_virtual_mtu s"] by (simp add: m)
  have q: "q' = (if pc then record_path (ne_now env) source candidates q else q)\<lparr>ps_active := Some
      ((if pc then s1\<lparr>as_path_changed_at := Some (ne_now env), as_path_mtu := m\<rparr> else s1)
        \<lparr>as_rx_bytes := as_rx_bytes s1 + word_of_nat len\<rparr>)\<rparr>"
    using assms(1) observe by (auto simp: commit_session_def s0_def m Let_def split: if_splits)
  have "session_ok ?c (s1\<lparr>as_path_changed_at := x, as_path_mtu := m, as_rx_bytes := y\<rparr>)" if "session_ok ?c session" for x y
    using s2 [OF that] by (simp add: session_ok_def)
  then show ?thesis
    using assms(2) s1 unfolding q
    by (auto simp: peer_step_def peer_ok_def session_id_of_def session_ok_fields record_path_def Let_def)
qed

lemma keeps_deliver [node_keeps]: "keeps s t \<Longrightarrow> keeps s (deliver_packet p source len packet path_changed reset t)"
  by (auto simp: deliver_packet_def Let_def case_prod_beta intro!: node_keeps)

lemma keeps_commit_session:
  assumes "keeps s t" "ps_active (peer_at t p) = Some session"
    "replay_accept (as_replay session) n = (accepted, replay)"
    "commit_session env t source len candidates (session\<lparr>as_replay := replay\<rparr>) (peer_at t p) = (path_changed, reset, q)"
  shows "keeps s (upd_peer p (\<lambda>_. q) t)"
proof (rule keeps_upd [OF assms(1)])
  have "replay = snd (replay_accept (as_replay session) n)" by (simp add: assms(3))
  then show "peer_step (nd_config s) (\<lambda>_. q) (peer_at t p)"
    using commit_session_step [of env t source len candidates session n "peer_at t p"] assms keeps_config [OF assms(1)] by simp
qed

lemma commit_ip_data_returns:
  assumes "keeps s t"
  shows "returns s (commit_ip_data env p packet t)"
proof -
  obtain parsed where parsed: "ip_parse (dp_payload packet) = Some parsed" using ip_parse_total by blast
  show ?thesis
  proof (cases parsed)
    case (Inr ip_packet)
    show ?thesis
    proof (cases "ps_active (peer_at t p)")
      case (Some session)
      obtain accepted replay where replay: "replay_accept (as_replay session) (hdr_sequence (dp_header packet)) = (accepted, replay)"
        by (metis surj_pair)
      obtain path_changed reset q where commit: "commit_session env t (dp_source packet) (dp_encrypted_len packet)
          (pi_candidates (ps_info (peer_at t p))) (session\<lparr>as_replay := replay\<rparr>) (peer_at t p) = (path_changed, reset, q)"
        by (metis prod_cases3)
      have "keeps s (upd_peer p (\<lambda>_. q) t)" by (rule keeps_commit_session [OF assms Some replay commit])
      then show ?thesis
        using assms by (auto simp: commit_ip_data_def parsed Inr Some replay commit Let_def intro!: node_keeps)
    qed (use assms in \<open>simp add: commit_ip_data_def parsed Inr\<close>)
  qed (use assms in \<open>simp add: commit_ip_data_def parsed keeps_attempts(4)\<close>)
qed

lemma decrypt_inline_returns:
  assumes "node_inv s" "keeps s t"
  shows "returns s (decrypt_data_inline_at env packet now t)"
proof -
  obtain r u where r: "data_decrypt_context_at packet now t = (r, u)" by (metis surj_pair)
  have "keeps s u" using context_keeps(1) [OF assms, of packet now] by (simp add: r)
  then show ?thesis
    by (auto simp: decrypt_data_inline_at_def r Let_def intro!: node_keeps commit_ip_data_returns
        split: sum.splits option.splits)
qed

subsection \<open>Batches\<close>

lemma keeps_decrypt_jobs:
  "node_inv s \<Longrightarrow> keeps s t \<Longrightarrow> keeps s (snd (decrypt_jobs now packets contexts t))"
proof (induction packets arbitrary: contexts t)
  case (Cons packet packets)
  let ?i = "hdr_session_id (dp_header packet)"
  define step where "step = (case map_of contexts ?i of Some _ \<Rightarrow> (contexts, t)
    | None \<Rightarrow> (case data_decrypt_context_at packet now t of
        (Inl _, s') \<Rightarrow> (AList.update ?i None contexts, s')
      | (Inr context, s') \<Rightarrow> (AList.update ?i context contexts, s')))"
  have "keeps s (snd step)"
    using Cons.prems context_keeps(1) [OF Cons.prems, of packet now]
    by (auto simp: step_def split: option.splits prod.splits sum.splits)
  then show ?case
    unfolding decrypt_jobs.simps step_def [symmetric] Let_def
    by (auto simp: case_prod_beta intro!: Cons.IH [OF Cons.prems(1)] node_keeps split: option.splits)
qed simp

lemma keeps_run_decrypt_jobs: "keeps s t \<Longrightarrow> keeps s (snd (run_decrypt_jobs cp jobs t))"
  by (induction cp jobs t rule: run_decrypt_jobs.induct)
    (auto simp: case_prod_beta Let_def intro: node_keeps split: sum.splits)

lemma parse_batch_returns: "keeps s t \<Longrightarrow> returns s (parse_batch packets t)"
proof (induction packets t rule: parse_batch.induct)
  case (2 p packet packets t)
  obtain parsed where parsed: "ip_parse (dp_payload packet) = Some parsed" using ip_parse_total by blast
  show ?case
  proof (cases parsed)
    case (Inl e)
    then show ?thesis using 2 by (simp add: parsed keeps_attempts(4))
  next
    case (Inr ip_packet)
    then have "returns s (parse_batch packets t)" using 2 by (simp add: parsed)
    then show ?thesis
      by (cases "parse_batch packets t") (auto simp: parsed Inr returns_def)
  qed
qed simp

lemma keeps_commit_run: "keeps s t \<Longrightarrow> keeps s (snd (commit_run env p candidates run t))"
proof (induction env p candidates run t rule: commit_run.induct)
  case (2 env p candidates x packet ip_packet run t)
  show ?case
  proof (cases "ps_active (peer_at t p)")
    case (Some session)
    obtain accepted replay where replay: "replay_accept (as_replay session) (hdr_sequence (dp_header packet)) = (accepted, replay)"
      by (metis surj_pair)
    obtain path_changed reset q where commit: "commit_session env t (dp_source packet) (dp_encrypted_len packet) candidates
        (session\<lparr>as_replay := replay\<rparr>) (peer_at t p) = (path_changed, reset, q)" by (metis prod_cases3)
    show ?thesis
    proof (cases accepted)
      case True
      have "keeps s (upd_peer p (\<lambda>_. q) t)" by (rule keeps_commit_session [OF "2.prems" Some replay commit])
      then show ?thesis
        using "2.IH"(2) [OF Some replay [symmetric]] True commit
        by (simp add: Some replay Let_def case_prod_beta)
    next
      case False
      have "keeps s (count_replay_drop p t)" using "2.prems" by (rule keeps_attempts(4))
      then show ?thesis
        using "2.IH"(1) [OF Some replay [symmetric]] False by (simp add: Some replay)
    qed
  qed (use "2.prems" in simp)
qed simp

lemma keeps_commit_runs: "keeps s t \<Longrightarrow> keeps s (snd (commit_runs env parsed t))"
proof (induction "length parsed" arbitrary: parsed t rule: less_induct)
  case less
  show ?case
  proof (cases parsed)
    case (Cons entry rest)
    obtain p packet ip_packet where entry: "entry = (p, packet, ip_packet)" by (metis prod_cases3)
    let ?i = "hdr_session_id (dp_header packet)"
    define first where "first = (if map_option as_session_id (ps_active (peer_at t p)) = Some ?i
      then commit_run env p (pi_candidates (ps_info (peer_at t p)))
        ((p, packet, ip_packet) # takeWhile (same_session p ?i) rest) t else ([], t))"
    have "keeps s (snd first)" unfolding first_def using keeps_commit_run [OF less.prems] less.prems by (simp del: commit_run.simps)
    moreover have "length (dropWhile (same_session p ?i) rest) < length parsed"
      by (simp add: Cons le_imp_less_Suc length_dropWhile_le)
    ultimately have "keeps s (snd (commit_runs env (dropWhile (same_session p ?i) rest) (snd first)))"
      using less.hyps by blast
    then show ?thesis
      unfolding Cons entry commit_runs.simps Let_def first_def [symmetric] by (simp add: case_prod_beta)
  qed (use less.prems in simp)
qed

lemma keeps_accept_batch: "keeps s t \<Longrightarrow> keeps s (snd (accept_batch cs t))"
  by (induction cs t rule: accept_batch.induct) (auto simp: case_prod_beta Let_def intro: node_keeps)

lemma commit_batch_keeps:
  assumes "keeps s t"
  shows "\<exists>u. commit_ip_data_batch env packets t = Some u \<and> keeps s u"
proof -
  obtain parsed u where parse: "parse_batch packets t = Some (parsed, u)" "keeps s u"
    using parse_batch_returns [OF assms, of packets] by (auto simp: returns_def split: option.splits)
  have "keeps s (fold deliver_committed xs (snd (accept_batch cs (snd (commit_runs env parsed u)))))" for xs cs
    by (intro keeps_fold keeps_accept_batch keeps_commit_runs parse(2)) (simp add: deliver_committed_def keeps_deliver)
  then show ?thesis by (simp add: commit_ip_data_batch_def parse(1) case_prod_beta Let_def)
qed

lemma data_batch_keeps:
  assumes "node_inv s" "keeps s t"
  shows "\<exists>u. data_batch env batch t = Some u \<and> keeps s u"
proof -
  let ?t = "count_transport (\<lambda>c. c\<lparr>tr_worker_data_datagrams := tr_worker_data_datagrams c + word_of_nat (length batch)\<rparr>) t"
  have t: "keeps s ?t" using assms(2) by (intro node_keeps)
  have one: "\<exists>u. map_option snd (decrypt_data_inline_at env packet now ?t) = Some u \<and> keeps s u" for packet now
    using decrypt_inline_returns [OF assms(1) t, of env packet now] by (auto simp: returns_def split: option.splits)
  obtain jobs t2 where jobs: "decrypt_jobs (ne_now env) batch [] ?t = (jobs, t2)" by (rule prod.exhaust)
  have t2: "keeps s t2" using keeps_decrypt_jobs [OF assms(1) t, of "ne_now env" batch "[]"] by (simp add: jobs)
  have many: "\<exists>u. (case run_decrypt_jobs (ne_cp env) jobs t2 of (decrypted, t3) \<Rightarrow> commit_ip_data_batch env decrypted t3) = Some u \<and> keeps s u"
    unfolding case_prod_beta by (rule commit_batch_keeps [OF keeps_run_decrypt_jobs [OF t2]])
  show ?thesis
  proof (cases "ne_now env \<ge> nd_snapshot_expires_at t")
    case False
    then have eq: "data_batch env batch t = (case batch of
        [packet] \<Rightarrow> map_option snd (decrypt_data_inline_at env packet (ne_now env) ?t)
      | _ \<Rightarrow> (case run_decrypt_jobs (ne_cp env) jobs t2 of (decrypted, t3) \<Rightarrow> commit_ip_data_batch env decrypted t3))"
      unfolding data_batch_def Let_def jobs case_prod_conv by simp
    consider packet where "batch = [packet]" | "\<nexists>packet. batch = [packet]" by blast
    then show ?thesis
    proof cases
      case 1
      then show ?thesis using one unfolding eq by simp
    next
      case 2
      then have "batch = [] \<or> (\<exists>x y zs. batch = x # y # zs)" by (metis list.exhaust)
      then show ?thesis using many unfolding eq by (elim disjE exE) simp_all
    qed
  qed (use t in \<open>simp add: data_batch_def\<close>)
qed

lemma data_worker_keeps:
  assumes "node_inv s"
  shows "\<exists>u. data_worker_step env w s = Some u \<and> keeps s u"
proof -
  let ?q = "nd_workers s ! w"
  let ?t = "s\<lparr>nd_workers := (nd_workers s)[w := drop DATA_WORKER_BATCH_SIZE ?q]\<rparr>"
  have limit: "\<forall>queue \<in> set (nd_workers s). length queue \<le> DATA_WORKER_QUEUE_LIMIT"
    using assms by (simp add: node_inv_def queues_ok_def)
  have "length queue \<le> DATA_WORKER_QUEUE_LIMIT" if "queue \<in> set ((nd_workers s)[w := drop DATA_WORKER_BATCH_SIZE ?q])" for queue
  proof (cases "w < length (nd_workers s)")
    case True
    then have "length ?q \<le> DATA_WORKER_QUEUE_LIMIT" using limit by simp
    then have "length (drop DATA_WORKER_BATCH_SIZE ?q) \<le> DATA_WORKER_QUEUE_LIMIT" by simp
    then show ?thesis using that limit set_update_subset_insert by fast
  qed (use that limit in \<open>simp add: list_update_beyond\<close>)
  then have "queues_ok ?t" using assms by (simp add: node_inv_def queues_ok_def)
  then have "keeps s ?t" using assms by (simp add: keeps_def node_inv_def tables_ok_def)
  then show ?thesis using data_batch_keeps [OF assms] by (simp add: data_worker_step_def Let_def)
qed

subsection \<open>Session packets\<close>

lemma answer_session_ok:
  "session_ok config session \<Longrightarrow> session_ok config (snd (answer_session cp ty payload session))"
  "as_session_id (snd (answer_session cp ty payload session)) = as_session_id session"
  by (simp_all add: answer_session_def Let_def session_ok_fields split: sum.splits)

lemma session_packet_ok:
  "session_ok config session \<Longrightarrow> session_ok config (snd (handle_session_packet env s n ty source plaintext session))"
  "as_session_id (snd (handle_session_packet env s n ty source plaintext session)) = as_session_id session"
  by (auto simp: handle_session_packet_def Let_def case_prod_beta answer_session_ok session_ok_fields session_ok_acknowledge
      split: packet_type.split option.split)

lemma keeps_finish_session [node_keeps]:
  "keeps s t \<Longrightarrow> keeps s (snd (finish_session_packet env i source outcome t))"
  by (auto simp: finish_session_packet_def Let_def intro!: keeps_fold node_keeps split: option.splits)

lemma keeps_session_data:
  assumes "node_inv s"
  shows "keeps s (snd (handle_session_data env packet source s))"
proof -
  let ?i = "hdr_session_id (wp_header packet)"
  show ?thesis
  proof (cases "session_peer s ?i")
    case (Some p)
    have p: "p < length (nd_heap s)" by (rule session_peer_heap [OF assms Some])
    have other: "keeps s (remove_session p ?i s)" by (intro node_keeps)
    show ?thesis
    proof (cases "ps_active (peer_at s p)")
      case active: (Some session)
      have closed: "keeps s (upd_peer p (\<lambda>q. q\<lparr>ps_attempt := None, ps_queue := []\<rparr>)
          (remove_session p ?i (upd_peer p (\<lambda>q. q\<lparr>ps_active := None\<rparr>) s)))" if "as_session_id session = ?i"
        using p that active remove_closed [of s p ?i]
        by (auto simp: session_id_of_def intro!: keeps_upd_step peer_steps node_keeps)
      have step: "keeps s (upd_peer p (\<lambda>q. q\<lparr>ps_active := Some (snd (handle_session_packet env s n ty source plaintext
            (session\<lparr>as_replay := snd (replay_accept (as_replay session) k), as_last_rx := x, as_rx_bytes := y\<rparr>)))\<rparr>) s)"
        for n ty plaintext k x y
      proof (rule keeps_upd [OF keeps_refl], rule peer_step_session [OF active])
        show "session_ok (nd_config s) (snd (handle_session_packet env s n ty source plaintext
            (session\<lparr>as_replay := snd (replay_accept (as_replay session) k), as_last_rx := x, as_rx_bytes := y\<rparr>)))"
          if "session_ok (nd_config s) session"
          using session_ok_replay [OF that, of k] by (intro session_packet_ok(1)) (simp add: session_ok_fields)
      qed (simp add: session_packet_ok(2))
      show ?thesis
        unfolding handle_session_data_def Let_def Some active option.case
        using other closed step
        by (auto simp: case_prod_beta keeps_refl intro!: node_keeps split: sum.splits)
    qed (use other in \<open>simp add: handle_session_data_def Some Let_def\<close>)
  qed (simp add: handle_session_data_def keeps_refl)
qed

subsection \<open>Dispatch\<close>

lemma handle_data_returns: "node_inv s \<Longrightarrow> returns s (handle_data env packet source s)"
  by (auto simp: handle_data_def keeps_refl intro!: decrypt_inline_returns keeps_session_data split: sum.splits)

lemma handle_packet_returns: "node_inv s \<Longrightarrow> returns s (handle_packet env input source s)"
  by (auto simp: handle_packet_def keeps_refl intro!: handle_data_returns handshake_returns keeps_handle_probe
      keeps_handle_probe_response split: sum.splits packet_type.splits)

lemma keeps_queue_data [node_keeps]:
  assumes "keeps s t"
  shows "keeps s (queue_data_packet packet t)"
proof -
  let ?w = "unat (hdr_session_id (dp_header packet)) mod length (nd_workers t)"
  let ?u = "t\<lparr>nd_workers := (nd_workers t)[?w := nd_workers t ! ?w @ [packet]]\<rparr>"
  have "keeps s ?u" if "length (nd_workers t ! ?w) < DATA_WORKER_QUEUE_LIMIT"
    by (rule keepsI [OF _ _ _ assms])
      (use that in \<open>auto simp: node_inv_def tables_ok_def queues_ok_def dest!: set_update_subset_insert [THEN subsetD]\<close>)
  then show ?thesis using assms by (auto simp: queue_data_packet_def Let_def intro: node_keeps)
qed

lemma keeps_stun_answers [node_keeps]: "keeps s t \<Longrightarrow> keeps s (t\<lparr>nd_stun_waiters := w, nd_stun_answers := a\<rparr>)"
  by (rule keeps_frame [of s t]) simp_all

lemma keeps_dispatch_stun [node_keeps]: "keeps s t \<Longrightarrow> keeps s (dispatch_stun transaction packet source t)"
  by (auto simp: dispatch_stun_def Let_def intro!: node_keeps split: option.splits)

lemma receive_keeps:
  assumes "node_inv s"
  shows "\<exists>t. receive_datagram env packet source s = Some t \<and> keeps s t"
proof -
  let ?s = "count_transport (\<lambda>c. c\<lparr>tr_udp_datagrams := tr_udp_datagrams c + 1\<rparr>) s"
  have s: "keeps s ?s" by (intro node_keeps)
  have "\<exists>t. map_option snd (handle_packet env packet source ?s) = Some t \<and> keeps s t"
    using handle_packet_returns [OF keeps_inv [OF s assms], of env packet source] keeps_trans [OF s]
    by (auto simp: returns_def split: option.splits)
  then show ?thesis
    unfolding receive_datagram_def Let_def
    using s by (auto intro!: node_keeps split: option.splits sum.splits)
qed

lemma keeps_stun_send: "keeps s (snd (snd (stun_send_to env bytes target waiter s)))"
  using keeps_primitives(3) [OF keeps_refl, of s env bytes target]
    keeps_primitives(3) [OF keeps_primitives(8) [OF keeps_refl], of s env bytes target]
  by (auto simp: stun_send_to_def Let_def split: option.splits prod.splits intro!: node_keeps) (metis snd_conv)+

end
