(* ===== verification/Vela_Node_Run.thy ===== *)
theory Vela_Node_Run
  imports Vela_Node_Receive
begin

section \<open>Runs of a node (vela-core)\<close>

text \<open>
  The operations of a node as one datatype, the state that each leads to, and what holds along
  every sequence of them. A step that panics or does not return has no result; the tasks a node
  spawns are steps that carry a pointer to their peer.
\<close>

subsection \<open>Background tasks\<close>

lemma keeps_send_probe [node_keeps]:
  assumes "keeps s t"
  shows "keeps s (send_probe env ct candidate t)"
proof -
  let ?send = "send_packet env (candidate_address candidate) Probe (ct_session_id ct) 0
    (encode_probe (ne_cp env) (node_id_of env t) (ct_peer_id ct) (ct_session_id ct) (ct_timestamp ct) (ct_nonce ct) (nd_identity t)) t"
  obtain r u where send: "?send = (r, u)" by (rule prod.exhaust)
  have "keeps s u" using keeps_primitives(4) [OF assms] send by (metis snd_conv)
  then show ?thesis by (cases r) (simp_all add: send_probe_def Let_def send keeps_attempts)
qed

lemma keeps_send_probes [node_keeps]: "keeps s t \<Longrightarrow> keeps s (send_probes env ct candidates t)"
  by (auto simp: send_probes_def intro!: keeps_fold node_keeps)

lemma peer_step_new_attempt [peer_steps]: "peer_step config (\<lambda>q. clear_failure (q\<lparr>ps_attempt := a\<rparr>)) q"
  "peer_step config (\<lambda>q. (record_failure now reason (q\<lparr>ps_attempt := a\<rparr>))\<lparr>ps_connecting := b\<rparr>) q"
  by (simp_all add: peer_step_def peer_ok_def session_id_of_def clear_failure_def record_failure_def)

lemma keeps_connect_begin: "keeps s (snd (connect_begin env n s))"
  by (auto simp: connect_begin_def Let_def intro!: node_keeps keeps_upd_step peer_steps split: option.splits)

lemma connect_begin_peer:
  "node_inv s \<Longrightarrow> fst (connect_begin env n s) = Inr (Some ct) \<Longrightarrow> ct_peer ct < length (nd_heap s)"
  using node_inv_known [of s n] by (auto simp: connect_begin_def Let_def split: option.splits if_splits)

lemma keeps_connect_expire: "keeps s (snd (connect_expire env ct s))"
  by (auto simp: connect_expire_def Let_def intro!: node_keeps keeps_upd_step peer_steps)

lemma keeps_connect_turn: "keeps s (snd (snd (connect_turn env ct s)))"
  unfolding connect_turn_def Let_def case_prod_beta
  by (simp add: keeps_connect_expire keeps_send_probes keeps_refl)

lemma keeps_connect_notified: "keeps s (snd (connect_notified env ct s))"
  using keeps_connect_expire by (auto simp: connect_notified_def intro: keeps_refl)

lemma peer_step_attempts:
  "rc_attempts (ps_reconnect q) < MAX_RECONNECT_ATTEMPTS \<Longrightarrow>
   peer_step config (\<lambda>p. p\<lparr>ps_reconnect := (ps_reconnect p)\<lparr>rc_attempts := rc_attempts (ps_reconnect q) + 1\<rparr>\<rparr>) q"
  using inc_le [of "rc_attempts (ps_reconnect q)" MAX_RECONNECT_ATTEMPTS]
  by (simp add: peer_step_def peer_ok_def session_id_of_def)

lemma keeps_reconnect_top: "keeps s (snd (reconnect_top p s))"
proof (cases "\<not> rc_requested (ps_reconnect (peer_at s p)) \<or> nd_stopping s \<or> \<not> ps_is_online (peer_at s p)
    \<or> rc_attempts (ps_reconnect (peer_at s p)) \<ge> MAX_RECONNECT_ATTEMPTS")
  case True
  then show ?thesis by (simp add: reconnect_top_def Let_def keeps_upd_step keeps_refl peer_steps)
next
  case False
  then show ?thesis
    unfolding reconnect_top_def Let_def if_not_P [OF False] by (simp add: keeps_upd keeps_refl peer_step_attempts not_le)
qed

lemma keeps_reconnect:
  "keeps s (snd (reconnect_wake p s))"
  "keeps s (snd (reconnect_result env p result s))"
  by (auto simp: reconnect_wake_def reconnect_result_def Let_def
      intro!: node_keeps keeps_upd_step peer_steps split: sum.splits)

lemma keeps_session_upd:
  assumes "keeps s t" "ps_active (peer_at t p) = Some session"
    "session_ok (nd_config s) session \<Longrightarrow> session_ok (nd_config s) session'" "as_session_id session' = as_session_id session"
  shows "keeps s (upd_peer p (\<lambda>q. q\<lparr>ps_active := Some session'\<rparr>) t)"
  using assms by (intro keeps_upd peer_step_session)

lemma keeps_rekey [node_keeps]:
  assumes "keeps s t" "p < length (nd_heap s)" "ps_active (peer_at t p) = Some session"
  shows "keeps s (rekey_peer env p session t)"
proof -
  have "keeps s (remove_session p (as_session_id session) (upd_peer p (\<lambda>q. q\<lparr>ps_active := None\<rparr>) t))"
    using assms remove_closed [of t p "as_session_id session"] by (simp add: session_id_of_def keeps_close_session)
  then show ?thesis by (auto simp: rekey_peer_def Let_def intro!: node_keeps keeps_upd_step peer_steps)
qed

lemma keeps_send_keepalive [node_keeps]:
  "keeps s t \<Longrightarrow> ps_active (peer_at t p) = Some session \<Longrightarrow> keeps s (send_keepalive env p session t)"
  by (auto simp: send_keepalive_def Let_def session_ok_fields intro!: node_keeps keeps_session_upd split: sum.splits)

lemma keeps_keepalive_peer [node_keeps]: "keeps s t \<Longrightarrow> p < length (nd_heap s) \<Longrightarrow> keeps s (keepalive_peer env p t)"
  by (auto simp: keepalive_peer_def Let_def intro!: node_keeps split: option.splits)

lemma known_heap: "node_inv s \<Longrightarrow> p \<in> snd ` set (nd_peers s) \<Longrightarrow> p < length (nd_heap s)"
proof -
  assume inv: "node_inv s" and "p \<in> snd ` set (nd_peers s)"
  then obtain n where "(n, p) \<in> set (nd_peers s)" by auto
  moreover have "distinct (map fst (nd_peers s))" using inv by (simp add: node_inv_def tables_ok_def)
  ultimately have "map_of (nd_peers s) n = Some p" by simp
  then show "p < length (nd_heap s)" using node_inv_known [OF inv] by blast
qed

lemma keeps_keepalive_tick: "node_inv s \<Longrightarrow> keeps s (keepalive_tick env s)"
  by (auto simp: keepalive_tick_def intro!: keeps_fold node_keeps known_heap)

lemma session_ok_poll:
  "session_ok config session \<Longrightarrow> session_ok config (session\<lparr>as_path_mtu := snd (poll_probe (as_path_mtu session) now n)\<rparr>)"
  using poll_probe_inv [of "as_path_mtu session"] poll_upper [of "as_path_mtu session"]
  by (fastforce simp: session_ok_def intro: order_trans)

lemma keeps_mtu_probe [node_keeps]:
  assumes "keeps s t"
  shows "keeps s (snd (mtu_probe_peer env p t))"
proof (cases "ps_active (peer_at t p)")
  case (Some session)
  obtain probe m where poll: "poll_probe (as_path_mtu session) (ne_instant env) (ne_nonce env p) = (probe, m)"
    by (rule prod.exhaust)
  have "session_ok c session \<Longrightarrow> session_ok c (session\<lparr>as_path_mtu := m\<rparr>)" for c
    using session_ok_poll [of c session "ne_instant env" "ne_nonce env p"] by (simp add: poll)
  moreover have "upd_peer p (\<lambda>q. q\<lparr>ps_active := a\<rparr>) (upd_peer p (\<lambda>q. q\<lparr>ps_active := b\<rparr>) t) = upd_peer p (\<lambda>q. q\<lparr>ps_active := a\<rparr>) t" for a b
    by (cases "p < length (nd_heap t)") (simp_all add: upd_peer_outside, simp add: upd_peer_def)
  ultimately show ?thesis
    using assms by (auto simp: mtu_probe_peer_def Some poll Let_def session_ok_def
      intro!: node_keeps keeps_session_upd [OF _ Some] split: option.splits sum.splits)
qed (use assms in \<open>simp add: mtu_probe_peer_def\<close>)

lemma keeps_mtu_probes: "keeps s t \<Longrightarrow> keeps s (snd (mtu_probe_peers env ps t))"
  by (induction ps arbitrary: t) (simp_all add: case_prod_beta Let_def keeps_mtu_probe)

lemma keeps_mtu_tick: "keeps s (mtu_tick env s)"
  by (auto simp: mtu_tick_def case_prod_beta intro!: keeps_fold keeps_mtu_probes node_keeps)

lemma peer_step_forget_ping [peer_steps]: "peer_step config (forget_ping n) q"
  by (auto simp: peer_step_def peer_ok_def session_id_of_def forget_ping_def session_ok_fields option.map_comp comp_def)

lemma keeps_ping_round: "keeps s (snd (ping_round env p waiter s))"
proof (cases "ps_active (peer_at s p)")
  case (Some session)
  let ?s = "upd_peer p (\<lambda>q. q\<lparr>ps_active := Some (session\<lparr>as_tx_sequence := as_tx_sequence session + 1,
    as_ping_waiters := AList.update (ne_nonce env p) waiter (as_ping_waiters session)\<rparr>)\<rparr>) s"
  have s: "keeps s ?s" by (rule keeps_session_upd [OF keeps_refl Some]) (simp_all add: session_ok_fields)
  have sent: "keeps s (snd (case send_packet env target ty i n payload ?s of
      (Inl e, s2) \<Rightarrow> (Inl (PingCore e), upd_peer p (forget_ping m) s2) | (Inr _, s2) \<Rightarrow> (Inr m, s2)))"
    for target ty i n payload m
  proof -
    obtain r u where send: "send_packet env target ty i n payload ?s = (r, u)" by (rule prod.exhaust)
    have "keeps s u" using keeps_primitives(4) [OF s, of env target ty i n payload] by (simp only: send snd_conv)
    then show ?thesis unfolding send by (cases r) (simp_all add: keeps_upd_step peer_step_forget_ping)
  qed
  show ?thesis
    unfolding ping_round_def Some Let_def option.case using s sent by (simp split: sum.split)
qed (simp add: ping_round_def keeps_refl)

lemma keeps_ping_timeout: "keeps s (snd (ping_timeout p n s))"
  by (simp add: ping_timeout_def keeps_upd_step keeps_refl peer_step_forget_ping)

lemma keeps_lifecycle:
  "keeps s (node_start s)" "keeps s (node_shutdown s)"
  by (auto simp: keeps_def node_start_def node_shutdown_def intro: node_inv_cong [of _ s])

lemma keeps_next_event: "keeps s t \<Longrightarrow> keeps s (snd (next_event t))"
  by (rule keepsI [of t]) (auto simp: next_event_def intro: node_inv_cong [of _ t] split: list.splits)

lemma keeps_event_batches:
  "keeps s (snd (next_control_event_batch limit s))"
  "keeps s (snd (next_data_event_batch limit s))"
  by (auto simp: keeps_def next_control_event_batch_def next_data_event_batch_def intro: node_inv_cong [of _ s])

lemma keeps_next_event_batch: "keeps s t \<Longrightarrow> keeps s (snd (next_event_batch limit t))"
proof (induction limit arbitrary: t)
  case (Suc limit)
  obtain e u where event: "next_event t = (e, u)" by (rule prod.exhaust)
  have "keeps s u" using keeps_next_event [OF Suc.prems] by (simp add: event)
  then show ?case using Suc.IH by (cases e) (simp_all add: event case_prod_beta)
qed simp

subsection \<open>Steps\<close>

text \<open>What can happen to a node: the calls of its interface, the datagrams and queues of its loops,
  and the turns of its tasks.\<close>

datatype node_op =
    StepRegister peer_info
  | StepRemove node_id
  | StepSnapshot network_snapshot
  | StepSend bytes
  | StepSendBatch "bytes list"
  | StepPeerSend node_id bytes
  | StepReceive bytes socket_addr
  | StepWorker nat
  | StepStun bytes socket_addr nat
  | StepConnect node_id
  | StepConnectTurn connect_task
  | StepConnectNotified connect_task
  | StepReconnect nat
  | StepReconnectWake nat
  | StepReconnectResult nat "connect_error + unit"
  | StepKeepalive
  | StepMtu
  | StepPing nat nat
  | StepPingTimeout nat u128
  | StepStart
  | StepShutdown
  | StepNextEvent
  | StepControlEvents nat
  | StepDataEvents nat
  | StepEvents nat

fun node_step :: "'hs node_env \<Rightarrow> node_op \<Rightarrow> 'hs node \<Rightarrow> 'hs node option" where
  "node_step env (StepRegister info) s = Some (snd (register_peer env info s))"
| "node_step env (StepRemove n) s = Some (snd (remove_peer n s))"
| "node_step env (StepSnapshot snapshot) s = Some (snd (apply_snapshot env snapshot s))"
| "node_step env (StepSend bytes) s = map_option snd (send_ip env bytes s)"
| "node_step env (StepSendBatch packets) s = map_option snd (send_ip_batch env packets s)"
| "node_step env (StepPeerSend n payload) s = map_option snd (peer_send_ip env n payload s)"
| "node_step env (StepReceive packet source) s = receive_datagram env packet source s"
| "node_step env (StepWorker w) s = data_worker_step env w s"
| "node_step env (StepStun bytes target waiter) s = Some (snd (snd (stun_send_to env bytes target waiter s)))"
| "node_step env (StepConnect n) s = Some (snd (connect_begin env n s))"
| "node_step env (StepConnectTurn ct) s = Some (snd (snd (connect_turn env ct s)))"
| "node_step env (StepConnectNotified ct) s = Some (snd (connect_notified env ct s))"
| "node_step env (StepReconnect p) s = Some (snd (reconnect_top p s))"
| "node_step env (StepReconnectWake p) s = Some (snd (reconnect_wake p s))"
| "node_step env (StepReconnectResult p result) s = Some (snd (reconnect_result env p result s))"
| "node_step env StepKeepalive s = Some (keepalive_tick env s)"
| "node_step env StepMtu s = Some (mtu_tick env s)"
| "node_step env (StepPing p waiter) s = Some (snd (ping_round env p waiter s))"
| "node_step env (StepPingTimeout p n) s = Some (snd (ping_timeout p n s))"
| "node_step env StepStart s = Some (node_start s)"
| "node_step env StepShutdown s = Some (node_shutdown s)"
| "node_step env StepNextEvent s = Some (snd (next_event s))"
| "node_step env (StepControlEvents limit) s = Some (snd (next_control_event_batch limit s))"
| "node_step env (StepDataEvents limit) s = Some (snd (next_data_event_batch limit s))"
| "node_step env (StepEvents limit) s = Some (snd (next_event_batch limit s))"

text \<open>The states a node can be in. The environment of a step is arbitrary.\<close>

inductive node_reachable :: "node_config \<Rightarrow> 'hs node \<Rightarrow> bool" for config where
  built: "node_build i n provider config observer g r bind_error parallelism = Inr s \<Longrightarrow> node_reachable config s"
| step: "node_reachable config s \<Longrightarrow> node_step env op s = Some t \<Longrightarrow> node_reachable config t"

inductive_cases node_reachableE: "node_reachable config s"

subsection \<open>Membership steps\<close>

lemma inv_apply_snapshot: "node_inv s \<Longrightarrow> node_inv (snd (apply_snapshot env snapshot s))"
proof -
  assume inv: "node_inv s"
  show ?thesis
  proof (cases "fst (apply_snapshot env snapshot s)")
    case (Inr u)
    then have ok: "apply_snapshot env snapshot s = (Inr (), snd (apply_snapshot env snapshot s))"
      by (simp add: prod_eq_iff)
    show ?thesis by (rule apply_snapshot_effect [OF inv ok])
  next
    case (Inl e)
    show ?thesis
    proof (cases "check_snapshot env snapshot s")
      case chk: (Inr local)
      obtain r s1 where m: "merge_peers env (sn_online_peers snapshot) (nd_peers s) (sn_peers snapshot) [] [] s = (r, s1)"
        by (rule prod.exhaust)
      have "distinct (map pi_node_id ([] @ others env s (sn_peers snapshot)))"
        using check_snapshot_facts(1) [OF chk] by (simp add: snapshot_ok_def distinct_map_filter)
      then have "node_inv s1" using merge_peers_merged [OF inv merged_start [OF inv] _ m] by blast
      moreover have "snd (apply_snapshot env snapshot s) = s1"
        using Inl by (cases r) (auto simp: apply_snapshot_def chk m Let_def)
      ultimately show ?thesis by simp
    qed (use inv in \<open>simp add: apply_snapshot_def\<close>)
  qed
qed

lemma register_config: "nd_config (snd (register_peer env info s)) = nd_config s"
  by (auto simp: register_peer_def Let_def case_prod_beta split: sum.splits option.splits)

lemma remove_config: "nd_config (snd (remove_peer n s)) = nd_config s"
  by (auto simp: remove_peer_def Let_def split: option.splits)

lemma merge_peers_config:
  "nd_config (snd (merge_peers env online old infos replacement reconnect s)) = nd_config s"
proof (induction infos arbitrary: replacement reconnect s)
  case (Cons info infos)
  obtain replacement1 reconnect1 s1 where
    step: "merge_peer env online old info replacement reconnect s = (replacement1, reconnect1, s1)"
    by (metis prod_cases3)
  show ?case using Cons.IH merge_peer_frame(1) [OF step] by (simp add: step split: sum.split)
qed simp

lemma drop_old_config: "nd_config (fold (drop_old_peer replacement) xs s) = nd_config s"
  by (induction xs arbitrary: s) (simp_all add: drop_old_peer_def case_prod_beta)

lemma schedule_all_config: "nd_config (fold (\<lambda>(n, p). schedule_reconnect p) xs s) = nd_config s"
  by (induction xs arbitrary: s) (auto simp: case_prod_beta)

lemma snapshot_config: "nd_config (snd (apply_snapshot env snapshot s)) = nd_config s"
  using merge_peers_config [of env "sn_online_peers snapshot" "nd_peers s" "sn_peers snapshot" "[]" "[]" s]
  by (auto simp: apply_snapshot_def Let_def drop_old_config schedule_all_config split: sum.splits prod.splits)

subsection \<open>Every step returns and keeps the invariant\<close>

definition steps_to :: "'hs node \<Rightarrow> 'hs node option \<Rightarrow> bool" where
  "steps_to s r \<longleftrightarrow> (\<exists>t. r = Some t \<and> node_inv t \<and> nd_config t = nd_config s)"

lemma steps_keeps: "node_inv s \<Longrightarrow> keeps s t \<Longrightarrow> steps_to s (Some t)"
  by (simp add: steps_to_def keeps_def)

lemma steps_keeps_ex: "node_inv s \<Longrightarrow> \<exists>t. r = Some t \<and> keeps s t \<Longrightarrow> steps_to s r"
  using steps_keeps by blast

lemma node_step_returns:
  assumes inv: "node_inv s"
  shows "steps_to s (node_step env op s)"
proof (cases op)
  case (StepRegister info)
  then show ?thesis using inv_register_peer [OF inv] by (simp add: steps_to_def register_config)
next
  case (StepRemove n)
  then show ?thesis using inv_remove_peer [OF inv] by (simp add: steps_to_def remove_config)
next
  case (StepSnapshot snapshot)
  then show ?thesis using inv_apply_snapshot [OF inv] by (simp add: steps_to_def snapshot_config)
next
  case (StepSend bytes)
  obtain r u where "send_ip env bytes s = Some (r, u)" "keeps s u" by (rule send_ip_keeps [OF inv])
  then show ?thesis using StepSend by (simp add: steps_keeps [OF inv])
next
  case (StepSendBatch packets)
  obtain r u where "send_ip_batch env packets s = Some (r, u)" "keeps s u" by (rule send_ip_batch_keeps [OF inv])
  then show ?thesis using StepSendBatch by (simp add: steps_keeps [OF inv])
next
  case (StepPeerSend n payload)
  obtain r u where "peer_send_ip env n payload s = Some (r, u)" "keeps s u" by (rule peer_send_ip_keeps [OF inv])
  then show ?thesis using StepPeerSend by (simp add: steps_keeps [OF inv])
next
  case (StepReceive packet source)
  then show ?thesis using receive_keeps [OF inv] by (simp add: steps_keeps_ex [OF inv])
next
  case (StepWorker w)
  then show ?thesis using data_worker_keeps [OF inv] by (simp add: steps_keeps_ex [OF inv])
qed (simp_all add: steps_keeps [OF inv] keeps_stun_send keeps_connect_begin keeps_connect_turn keeps_connect_notified
    keeps_reconnect_top keeps_reconnect keeps_keepalive_tick [OF inv] keeps_mtu_tick keeps_ping_round keeps_ping_timeout
    keeps_lifecycle keeps_next_event [OF keeps_refl] keeps_event_batches keeps_next_event_batch [OF keeps_refl])

lemma reachable_inv: "node_reachable config s \<Longrightarrow> node_inv s \<and> nd_config s = config"
proof (induction rule: node_reachable.induct)
  case (built i n provider observer g r bind_error parallelism s)
  then show ?case using node_inv_build [OF built] by (auto simp: node_build_def split: if_splits option.splits)
next
  case (step s env op t)
  then show ?case using node_step_returns [of s env op] by (auto simp: steps_to_def)
qed

subsection \<open>A concrete node\<close>

text \<open>For the witnesses: the node of key 10 when it knows the peer of key 20, with a packet for
  that peer waiting, and the same node with a session.\<close>

definition sample_packet :: bytes where
  "sample_packet = [0x45, 0, 0, 20, 0, 0, 0, 0, 64, 17, 102, 12, 10, 88, 0, 10, 10, 88, 0, 20]"

definition waiting_node :: "bytes list node" where
  "waiting_node = (fresh_node node_config_default 10)
    \<lparr>nd_heap := [(with_online (\<lambda>_. None) (sample_info 20) True None)\<lparr>ps_queue := [sample_packet]\<rparr>],
     nd_peers := [(NodeId 22, 0)],
     nd_routes := route_insert (IpV4 0x0A580014) (NodeId 22) (route_table_new [IpV4 0x0A58000A])\<rparr>"

definition connected_node :: "bytes list node" where
  "connected_node = open_session 0 (new_session sample_node_env waiting_node 7 (SockV4 0x0A000000 20)
     \<lparr>sc_tx = 1, sc_rx = 2\<rparr>) waiting_node"

lemma sample_packet_parses: "ip_parse sample_packet = Some (Inr (ip4_view sample_packet))"
proof -
  have "ip4_ok sample_packet" by code_simp
  then show ?thesis using ip_parse_iff by blast
qed

lemma sample_packet_view:
  "ip_source (ip4_view sample_packet) = IpV4 0x0A58000A" "ip_destination (ip4_view sample_packet) = IpV4 0x0A580014"
  "length sample_packet = 20"
  by code_simp+

lemma waiting_fields:
  "nd_heap waiting_node = [(with_online (\<lambda>_. None) (sample_info 20) True None)\<lparr>ps_queue := [sample_packet]\<rparr>]"
  "nd_config waiting_node = node_config_default" "nd_snapshot_expires_at waiting_node = - 1"
  "nd_routes waiting_node = route_insert (IpV4 0x0A580014) (NodeId 22) (route_table_new [IpV4 0x0A58000A])"
  by (simp_all add: waiting_node_def fresh_node_def node_build_def node_config_default_def)

lemma waiting_stuck: "stuck sample_node_env 0 waiting_node"
  by (simp add: stuck_def sendable_def peer_at_def waiting_fields with_online_def sample_packet_parses validate_outbound_def
      sample_packet_view is_local_def route_insert_def route_table_new_def route_peer_for_def sample_info_def
      node_config_default_def DEFAULT_MAX_VIRTUAL_MTU_def sample_node_env_def)

subsection \<open>Properties\<close>





text \<open>C6: sending a batch gives one result for each packet, in every state that satisfies the
  invariant and whatever the packets are, and keeps the invariant; none of the lookups by index
  of the batch fails.\<close>

theorem send_ip_batch_results:
  assumes "node_inv s"
  shows "\<exists>results s'. send_ip_batch env packets s = Some (results, s') \<and> length results = length packets \<and> node_inv s'"
proof -
  obtain results s' where "send_ip_batch env packets s = Some (results, s')" "length results = length packets" "keeps s s'"
    by (rule send_ip_batch_keeps [OF assms])
  then show ?thesis using keeps_inv assms by blast
qed

theorem send_ip_batch_results_witness:
  "\<exists>results s'. send_ip_batch sample_node_env [[1, 2], sample_packet] (fresh_node node_config_default 10) = Some (results, s')
    \<and> length results = 2"
  using send_ip_batch_results [OF node_inv_fresh [of node_config_default 10], of sample_node_env "[[1, 2], sample_packet]"]
  by (auto simp: node_config_default_def)

end
