(* ===== verification/Vela_Tun.thy ===== *)
theory Vela_Tun
  imports Vela_Node_Run Vela_Stun
begin

section \<open>TUN device, host routes and bridge (vela-tun)\<close>

text \<open>
  \<open>vela-tun/src/lib.rs\<close>: the checks of \<open>TunDevice::open\<close>, the read and write loops of the device,
  the reference counts of \<open>RouteManager\<close> with the leases that release themselves when dropped,
  the routes of a snapshot, and the two loops of \<open>run_bridge\<close>; and \<open>apply_tun_snapshot\<close> of
  \<open>vela-cli/src/main.rs\<close>, which keeps the leases in step with the snapshots. The outcomes of
  system calls are given: reads and writes as lists of outcomes (an exhausted list of reads means
  that the loop still waits, \<open>None\<close>), netlink requests by a function of their number, with a log
  of the requests and their outcomes from which the routes of the interface follow.
\<close>

subsection \<open>Device\<close>

datatype tun_error =
    TunIo string
  | InvalidName
  | InvalidMtu
  | TunPacketTooLarge
  | TunClosed
  | TunUnsupported
  | InterfaceNotFound string
  | Netlink string
  | TunCore string
  | TunSnapshot proto_error

record tun_config =
  tc_name :: string
  tc_mtu :: nat

definition tun_config_default :: tun_config where
  "tun_config_default = \<lparr>tc_name = ''vela0'', tc_mtu = 1200\<rparr>"

record tun_device =
  td_name :: string
  td_mtu :: nat

definition IFNAMSIZ :: nat where
  "IFNAMSIZ = 16"

text \<open>The name field of the request: the bytes of the name, then zeros.\<close>

definition ifreq_name :: "string \<Rightarrow> bytes" where
  "ifreq_name name = take IFNAMSIZ (as_bytes name) @ replicate (IFNAMSIZ - length name) 0"

text \<open>\<open>TunDevice::open\<close> on Linux, with the outcomes of \<open>open\<close>, \<open>ioctl\<close> and \<open>AsyncFd::new\<close>; the
  request that \<open>ioctl\<close> got is part of the result.\<close>

definition tun_open ::
  "string option \<Rightarrow> (bytes \<Rightarrow> string option) \<Rightarrow> string option \<Rightarrow> tun_config \<Rightarrow> tun_error + tun_device" where
  "tun_open open_error ioctl_error async_error config =
    (if tc_name config = [] \<or> length (tc_name config) \<ge> IFNAMSIZ then Inl InvalidName
     else if tc_mtu config < 576 then Inl InvalidMtu
     else case open_error of
       Some e \<Rightarrow> Inl (TunIo e)
     | None \<Rightarrow>
    (case ioctl_error (ifreq_name (tc_name config)) of
       Some e \<Rightarrow> Inl (TunIo e)
     | None \<Rightarrow>
    (case async_error of
       Some e \<Rightarrow> Inl (TunIo e)
     | None \<Rightarrow> Inr \<lparr>td_name = tc_name config, td_mtu = tc_mtu config\<rparr>)))"

datatype tun_read = ReadPacket bytes | ReadWouldBlock | ReadFailed string

text \<open>A read returns at most the size of the buffer.\<close>

definition read_packet :: "tun_device \<Rightarrow> bytes \<Rightarrow> tun_error + bytes" where
  "read_packet tun packet =
    (let buffer = take (td_mtu tun) packet in if buffer = [] then Inl TunClosed else Inr buffer)"

fun tun_recv :: "tun_device \<Rightarrow> tun_read list \<Rightarrow> ((tun_error + bytes) \<times> tun_read list) option" where
  "tun_recv tun [] = None"
| "tun_recv tun (ReadWouldBlock # reads) = tun_recv tun reads"
| "tun_recv tun (ReadFailed e # reads) = Some (Inl (TunIo e), reads)"
| "tun_recv tun (ReadPacket packet # reads) = Some (read_packet tun packet, reads)"

fun tun_try_recv :: "tun_device \<Rightarrow> tun_read list \<Rightarrow> (tun_error + bytes option) \<times> tun_read list" where
  "tun_try_recv tun [] = (Inr None, [])"
| "tun_try_recv tun (ReadWouldBlock # reads) = (Inr None, reads)"
| "tun_try_recv tun (ReadFailed e # reads) = (Inl (TunIo e), reads)"
| "tun_try_recv tun (ReadPacket packet # reads) = (map_sum id Some (read_packet tun packet), reads)"

text \<open>The loop of \<open>recv_many\<close> after its first packet.\<close>

fun recv_more :: "tun_device \<Rightarrow> nat \<Rightarrow> tun_read list \<Rightarrow> (tun_error + bytes list) \<times> tun_read list" where
  "recv_more tun 0 reads = (Inr [], reads)"
| "recv_more tun (Suc room) reads =
    (case tun_try_recv tun reads of
       (Inl e, reads') \<Rightarrow> (Inl e, reads')
     | (Inr None, reads') \<Rightarrow> (Inr [], reads')
     | (Inr (Some packet), reads') \<Rightarrow>
        (case recv_more tun room reads' of
           (Inl e, reads'') \<Rightarrow> (Inl e, reads'')
         | (Inr packets, reads'') \<Rightarrow> (Inr (packet # packets), reads'')))"

definition tun_recv_many ::
  "tun_device \<Rightarrow> nat \<Rightarrow> tun_read list \<Rightarrow> ((tun_error + bytes list) \<times> tun_read list) option" where
  "tun_recv_many tun limit reads =
    (if limit = 0 then Some (Inr [], reads)
     else case tun_recv tun reads of
       None \<Rightarrow> None
     | Some (Inl e, reads') \<Rightarrow> Some (Inl e, reads')
     | Some (Inr packet, reads') \<Rightarrow> Some
        (case recv_more tun (limit - 1) reads' of
           (Inl e, reads'') \<Rightarrow> (Inl e, reads'')
         | (Inr packets, reads'') \<Rightarrow> (Inr (packet # packets), reads'')))"

datatype tun_write = Wrote nat | WriteWouldBlock | WriteFailed string

text \<open>The loop of \<open>send\<close> over the bytes that are left; the chunks that the device took are part of
  the result.\<close>

fun write_loop :: "bytes \<Rightarrow> tun_write list \<Rightarrow> ((tun_error + unit) \<times> bytes list \<times> tun_write list) option" where
  "write_loop [] writes = Some (Inr (), [], writes)"
| "write_loop (b # left) [] = None"
| "write_loop (b # left) (WriteWouldBlock # writes) = write_loop (b # left) writes"
| "write_loop (b # left) (WriteFailed e # writes) = Some (Inl (TunIo e), [], writes)"
| "write_loop (b # left) (Wrote n # writes) =
    (if n = 0 then Some (Inl TunClosed, [], writes)
     else map_option (\<lambda>(r, chunks, writes'). (r, take n (b # left) # chunks, writes'))
       (write_loop (drop n (b # left)) writes))"

definition tun_send ::
  "tun_device \<Rightarrow> bytes \<Rightarrow> tun_write list \<Rightarrow> ((tun_error + unit) \<times> bytes list \<times> tun_write list) option" where
  "tun_send tun packet writes =
    (if packet = [] \<or> length packet > td_mtu tun then Some (Inl TunPacketTooLarge, [], writes)
     else write_loop packet writes)"

subsection \<open>The device of macOS and Windows\<close>

text \<open>The device reports a length, which is checked; an outcome of \<open>recv\<close> is that length with the
  buffer.\<close>

definition device_packet :: "tun_device \<Rightarrow> nat \<times> bytes \<Rightarrow> tun_error + bytes" where
  "device_packet tun outcome =
    (let (n, buffer) = outcome in
     if n = 0 then Inl TunClosed
     else if n > td_mtu tun then Inl (TunIo ''TUN returned a packet larger than the configured MTU'')
     else Inr (take n buffer))"

text \<open>\<open>str::parse\<close> for an unsigned type of \<open>bound\<close> values: decimal digits after an optional plus
  sign.\<close>

definition parse_unsigned :: "nat \<Rightarrow> string \<Rightarrow> nat option" where
  "parse_unsigned bound s =
    (case s of
       [] \<Rightarrow> None
     | c # cs \<Rightarrow>
        if c = CHR ''+'' then (if cs = [] then None else decimal_digits bound 0 cs)
        else decimal_digits bound 0 s)"

definition device_open ::
  "bool \<Rightarrow> string option \<Rightarrow> string + string \<Rightarrow> tun_config \<Rightarrow> tun_error + tun_device" where
  "device_open macos build_error reported_name config =
    (let name = tc_name config in
     if \<not> macos \<and> name = [] then Inl InvalidName
     else if tc_mtu config < 576 then Inl InvalidMtu
     else if tc_mtu config \<ge> 2 ^ 16 then Inl InvalidMtu
     else if macos \<and> name \<noteq> []
       \<and> (case strip_prefix ''utun'' name of None \<Rightarrow> True | Some rest \<Rightarrow> parse_unsigned (2 ^ 32) rest = None)
     then Inl InvalidName
     else case build_error of
       Some e \<Rightarrow> Inl (TunIo e)
     | None \<Rightarrow>
    (case reported_name of
       Inl e \<Rightarrow> Inl (TunIo e)
     | Inr actual \<Rightarrow> Inr \<lparr>td_name = actual, td_mtu = tc_mtu config\<rparr>))"

definition device_set_mtu :: "string option \<Rightarrow> nat \<Rightarrow> tun_error + unit" where
  "device_set_mtu outcome mtu =
    (if mtu \<ge> 2 ^ 16 then Inl InvalidMtu
     else case outcome of Some e \<Rightarrow> Inl (TunIo e) | None \<Rightarrow> Inr ())"

definition device_recv :: "tun_device \<Rightarrow> string + nat \<times> bytes \<Rightarrow> tun_error + bytes" where
  "device_recv tun outcome = (case outcome of Inl e \<Rightarrow> Inl (TunIo e) | Inr r \<Rightarrow> device_packet tun r)"

text \<open>\<open>recv_many\<close>: on macOS further packets are taken as long as \<open>try_recv\<close> has one; an outcome \<open>None\<close>
  is a read that would block.\<close>

fun device_try_more ::
  "tun_device \<Rightarrow> nat \<Rightarrow> (string + nat \<times> bytes) option list \<Rightarrow> tun_error + bytes list" where
  "device_try_more tun 0 outcomes = Inr []"
| "device_try_more tun (Suc room) [] = Inr []"
| "device_try_more tun (Suc room) (None # outcomes) = Inr []"
| "device_try_more tun (Suc room) (Some outcome # outcomes) =
    (case device_recv tun outcome of
       Inl e \<Rightarrow> Inl e
     | Inr packet \<Rightarrow> map_sum id ((#) packet) (device_try_more tun room outcomes))"

definition device_recv_many ::
  "bool \<Rightarrow> tun_device \<Rightarrow> nat \<Rightarrow> string + nat \<times> bytes \<Rightarrow> (string + nat \<times> bytes) option list \<Rightarrow> tun_error + bytes list" where
  "device_recv_many macos tun limit first outcomes =
    (if limit = 0 then Inr []
     else case device_recv tun first of
       Inl e \<Rightarrow> Inl e
     | Inr packet \<Rightarrow>
        if macos then map_sum id ((#) packet) (device_try_more tun (limit - 1) outcomes) else Inr [packet])"

fun device_write_loop :: "bytes \<Rightarrow> (string + nat) list \<Rightarrow> ((tun_error + unit) \<times> bytes list) option" where
  "device_write_loop [] writes = Some (Inr (), [])"
| "device_write_loop (b # left) [] = None"
| "device_write_loop (b # left) (Inl e # writes) = Some (Inl (TunIo e), [])"
| "device_write_loop (b # left) (Inr n # writes) =
    (if n = 0 then Some (Inl TunClosed, [])
     else if n > length (b # left) then Some (Inl (TunIo ''TUN sent more bytes than requested''), [])
     else map_option (\<lambda>(r, chunks). (r, take n (b # left) # chunks)) (device_write_loop (drop n (b # left)) writes))"

definition device_send ::
  "tun_device \<Rightarrow> bytes \<Rightarrow> (string + nat) list \<Rightarrow> ((tun_error + unit) \<times> bytes list) option" where
  "device_send tun packet writes =
    (if packet = [] \<or> length packet > td_mtu tun then Some (Inl TunPacketTooLarge, [])
     else device_write_loop packet writes)"

subsection \<open>Host routes\<close>

record route_manager =
  rm_interface_index :: u32
  rm_owned :: "(ip_addr \<times> nat) list"
  rm_log :: "(bool \<times> ip_addr \<times> string option) list"
  rm_spawned :: "ip_addr list"
  rm_addresses :: "(ip_addr \<times> nat) list"
  rm_mtu :: "u32 option"

definition route_manager_new :: "u32 \<Rightarrow> route_manager" where
  "route_manager_new interface_index =
    \<lparr>rm_interface_index = interface_index, rm_owned = [], rm_log = [], rm_spawned = [], rm_addresses = [], rm_mtu = None\<rparr>"

text \<open>\<open>RouteManager::for_interface\<close>: looks the link up and brings it up.\<close>

definition for_interface ::
  "string option \<Rightarrow> (string + u32) option \<Rightarrow> string option \<Rightarrow> string \<Rightarrow> tun_error + route_manager" where
  "for_interface connection_error link up_error name =
    (case connection_error of
       Some e \<Rightarrow> Inl (Netlink e)
     | None \<Rightarrow>
    (case link of
       None \<Rightarrow> Inl (InterfaceNotFound name)
     | Some (Inl e) \<Rightarrow> Inl (Netlink e)
     | Some (Inr interface_index) \<Rightarrow>
    (case up_error of
       Some e \<Rightarrow> Inl (Netlink e)
     | None \<Rightarrow> Inr (route_manager_new interface_index))))"

definition set_mtu :: "string option \<Rightarrow> nat \<Rightarrow> route_manager \<Rightarrow> (tun_error + unit) \<times> route_manager" where
  "set_mtu outcome mtu m =
    (if mtu \<ge> 2 ^ 32 then (Inl InvalidMtu, m)
     else case outcome of
       Some e \<Rightarrow> (Inl (Netlink e), m)
     | None \<Rightarrow> (Inr (), m\<lparr>rm_mtu := Some (word_of_nat mtu)\<rparr>))"

definition add_local_address ::
  "string option \<Rightarrow> ip_addr \<Rightarrow> nat \<Rightarrow> route_manager \<Rightarrow> (tun_error + unit) \<times> route_manager" where
  "add_local_address outcome address prefix_len m =
    (case outcome of
       Some e \<Rightarrow> (Inl (Netlink e), m)
     | None \<Rightarrow> (Inr (), m\<lparr>rm_addresses := AList.update address prefix_len (rm_addresses m)\<rparr>))"

text \<open>One request to add or delete a host route; \<open>net k\<close> is the outcome of the \<open>k\<close>-th.\<close>

definition change_route ::
  "(nat \<Rightarrow> string option) \<Rightarrow> bool \<Rightarrow> ip_addr \<Rightarrow> route_manager \<Rightarrow> (tun_error + unit) \<times> route_manager" where
  "change_route net add key m =
    (let outcome = net (length (rm_log m))
     in (case outcome of None \<Rightarrow> Inr () | Some e \<Rightarrow> Inl (Netlink e),
         m\<lparr>rm_log := rm_log m @ [(add, key, outcome)]\<rparr>))"

definition claim_host_route ::
  "(nat \<Rightarrow> string option) \<Rightarrow> ip_addr \<Rightarrow> route_manager \<Rightarrow> (tun_error + ip_addr) \<times> route_manager" where
  "claim_host_route net key m =
    (case map_of (rm_owned m) key of
       Some count \<Rightarrow> (Inr key, m\<lparr>rm_owned := AList.update key (count + 1) (rm_owned m)\<rparr>)
     | None \<Rightarrow>
       let m1 = m\<lparr>rm_owned := AList.update key 1 (rm_owned m)\<rparr>
       in case change_route net True key m1 of
            (Inl e, m2) \<Rightarrow> (Inl e, m2\<lparr>rm_owned := AList.delete key (rm_owned m2)\<rparr>)
          | (Inr _, m2) \<Rightarrow> (Inr key, m2))"

definition manager_release ::
  "(nat \<Rightarrow> string option) \<Rightarrow> ip_addr \<Rightarrow> route_manager \<Rightarrow> (tun_error + unit) \<times> route_manager" where
  "manager_release net key m =
    (case map_of (rm_owned m) key of
       Some (Suc (Suc count)) \<Rightarrow> (Inr (), m\<lparr>rm_owned := AList.update key (Suc count) (rm_owned m)\<rparr>)
     | _ \<Rightarrow>
       let (result, m1) = change_route net False key m
       in (result, m1\<lparr>rm_owned := AList.delete key (rm_owned m1)\<rparr>))"

text \<open>A lease that is dropped spawns its release.\<close>

definition lease_drop :: "ip_addr \<Rightarrow> route_manager \<Rightarrow> route_manager" where
  "lease_drop key m = m\<lparr>rm_spawned := rm_spawned m @ [key]\<rparr>"

text \<open>\<open>RouteLease::release\<close>: on an error the lease is dropped with \<open>released\<close> still false.\<close>

definition lease_release ::
  "(nat \<Rightarrow> string option) \<Rightarrow> ip_addr \<Rightarrow> route_manager \<Rightarrow> (tun_error + unit) \<times> route_manager" where
  "lease_release net key m =
    (case manager_release net key m of
       (Inl e, m1) \<Rightarrow> (Inl e, lease_drop key m1)
     | (Inr _, m1) \<Rightarrow> (Inr (), m1))"

text \<open>A spawned release runs.\<close>

definition run_spawned :: "(nat \<Rightarrow> string option) \<Rightarrow> route_manager \<Rightarrow> route_manager" where
  "run_spawned net m =
    (case rm_spawned m of
       [] \<Rightarrow> m
     | key # rest \<Rightarrow> snd (manager_release net key (m\<lparr>rm_spawned := rest\<rparr>)))"

subsection \<open>The routes of a snapshot\<close>

definition snapshot_route_addresses ::
  "(bytes \<Rightarrow> 256 word) \<Rightarrow> network_snapshot \<Rightarrow> node_id \<Rightarrow> tun_error + ip_addr list" where
  "snapshot_route_addresses blake3 snapshot local =
    (case snapshot_validate blake3 snapshot of
       Inl e \<Rightarrow> Inl (TunSnapshot e)
     | Inr _ \<Rightarrow> Inr (concat (map (\<lambda>peer.
         if pi_node_id peer = local then [] else info_addresses peer) (sn_peers snapshot))))"

fun claim_all ::
  "(nat \<Rightarrow> string option) \<Rightarrow> ip_addr list \<Rightarrow> ip_addr list \<Rightarrow> route_manager \<Rightarrow>
   (tun_error + unit) \<times> ip_addr list \<times> route_manager" where
  "claim_all net [] leases m = (Inr (), leases, m)"
| "claim_all net (address # addresses) leases m =
    (case claim_host_route net address m of
       (Inl e, m1) \<Rightarrow> (Inl e, leases, m1)
     | (Inr lease, m1) \<Rightarrow> claim_all net addresses (leases @ [lease]) m1)"

text \<open>\<open>install_snapshot_routes\<close>: on an error the leases claimed so far are dropped.\<close>

definition install_snapshot_routes ::
  "(bytes \<Rightarrow> 256 word) \<Rightarrow> (nat \<Rightarrow> string option) \<Rightarrow> network_snapshot \<Rightarrow> node_id \<Rightarrow> route_manager \<Rightarrow>
   (tun_error + ip_addr list) \<times> route_manager" where
  "install_snapshot_routes blake3 net snapshot local m =
    (case snapshot_route_addresses blake3 snapshot local of
       Inl e \<Rightarrow> (Inl e, m)
     | Inr addresses \<Rightarrow>
    (case claim_all net addresses [] m of
       (Inl e, leases, m1) \<Rightarrow> (Inl e, fold lease_drop leases m1)
     | (Inr _, leases, m1) \<Rightarrow> (Inr leases, m1)))"

subsection \<open>Keeping the leases in step with the snapshots (vela-cli)\<close>

datatype cli_error = InvalidInput string | InvalidSnapshotInput proto_error | CliTun tun_error | CliIo string | CliRuntime string

text \<open>The stale leases are taken out of the map and released, ignoring errors.\<close>

fun release_all :: "(nat \<Rightarrow> string option) \<Rightarrow> ip_addr list \<Rightarrow> route_manager \<Rightarrow> route_manager" where
  "release_all net [] m = m"
| "release_all net (key # keys) m = release_all net keys (snd (lease_release net key m))"

definition local_address_pairs :: "peer_info \<Rightarrow> network_snapshot \<Rightarrow> (ip_addr \<times> nat) list" where
  "local_address_pairs local snapshot =
    (case (pi_virtual_ipv4 local, sn_virtual_ipv4 snapshot) of
       (Some address, Some cidr) \<Rightarrow> [(IpV4 address, unat (c4_prefix_len cidr))] | _ \<Rightarrow> [])
    @ (case (pi_virtual_ipv6 local, sn_virtual_ipv6 snapshot) of
       (Some address, Some cidr) \<Rightarrow> [(IpV6 address, unat (c6_prefix_len cidr))] | _ \<Rightarrow> [])"

fun add_local_addresses ::
  "(ip_addr \<Rightarrow> string option) \<Rightarrow> (ip_addr \<times> nat) list \<Rightarrow> route_manager \<Rightarrow> (tun_error + unit) \<times> route_manager" where
  "add_local_addresses outcome [] m = (Inr (), m)"
| "add_local_addresses outcome ((address, prefix_len) # pairs) m =
    (case add_local_address (outcome address) address prefix_len m of
       (Inl e, m1) \<Rightarrow> (Inl e, m1)
     | (Inr _, m1) \<Rightarrow> add_local_addresses outcome pairs m1)"

text \<open>\<open>apply_tun_snapshot\<close>: \<open>leases\<close> are the keys of the map, \<open>addr\<close> gives the outcomes for the local
  addresses. The order in which the source goes through its hash sets is not specified; here it
  is the order of the addresses in the snapshot and of the leases.\<close>

definition apply_tun_snapshot ::
  "(bytes \<Rightarrow> 256 word) \<Rightarrow> (ip_addr \<Rightarrow> string option) \<Rightarrow> (nat \<Rightarrow> string option) \<Rightarrow> node_id \<Rightarrow> network_snapshot \<Rightarrow>
   ip_addr list \<Rightarrow> route_manager \<Rightarrow> (cli_error + unit) \<times> ip_addr list \<times> route_manager" where
  "apply_tun_snapshot blake3 addr net node_id snapshot leases m =
    (case snapshot_validate blake3 snapshot of
       Inl e \<Rightarrow> (Inl (InvalidSnapshotInput e), leases, m)
     | Inr _ \<Rightarrow>
    (case find (\<lambda>peer. pi_node_id peer = node_id) (sn_peers snapshot) of
       None \<Rightarrow> (Inl (InvalidInput ''snapshot does not contain this node''), leases, m)
     | Some local \<Rightarrow>
    (case add_local_addresses addr (local_address_pairs local snapshot) m of
       (Inl e, m1) \<Rightarrow> (Inl (CliTun e), leases, m1)
     | (Inr _, m1) \<Rightarrow>
    (case snapshot_route_addresses blake3 snapshot node_id of
       Inl e \<Rightarrow> (Inl (CliTun e), leases, m1)
     | Inr addresses \<Rightarrow>
       let desired = remdups addresses;
           missing = filter (\<lambda>address. address \<notin> set leases) desired
       in case claim_all net missing leases m1 of
            (Inl e, leases1, m2) \<Rightarrow> (Inl (CliTun e), leases1, m2)
          | (Inr _, leases1, m2) \<Rightarrow>
             let stale = filter (\<lambda>address. address \<notin> set desired) leases1
             in (Inr (), filter (\<lambda>address. address \<in> set desired) leases1, release_all net stale m2)))))"

text \<open>\<open>release_route_leases\<close>, when it ends within its timeout.\<close>

definition release_route_leases :: "(nat \<Rightarrow> string option) \<Rightarrow> ip_addr list \<Rightarrow> route_manager \<Rightarrow> route_manager" where
  "release_route_leases net leases m = release_all net leases m"

subsection \<open>Bridge\<close>

text \<open>One turn of the reader of \<open>run_bridge\<close>: a batch of packets from the device into the node. The
  results are only logged.\<close>

definition bridge_read ::
  "'hs node_env \<Rightarrow> tun_device \<Rightarrow> tun_read list \<Rightarrow> 'hs node \<Rightarrow>
   ((tun_error + unit) \<times> tun_read list \<times> 'hs node) option" where
  "bridge_read env tun reads s =
    (case tun_recv_many tun 64 reads of
       None \<Rightarrow> None
     | Some (Inl e, reads') \<Rightarrow> Some (Inl e, reads', s)
     | Some (Inr packets, reads') \<Rightarrow>
        map_option (\<lambda>(_, s'). (Inr (), reads', s')) (send_ip_batch env packets s))"

text \<open>One turn of the writer: the next batch of events to the device. The first error ends the
  bridge.\<close>

fun write_events ::
  "tun_device \<Rightarrow> vela_event list \<Rightarrow> tun_write list \<Rightarrow> ((tun_error + unit) \<times> bytes list \<times> tun_write list) option" where
  "write_events tun [] writes = Some (Inr (), [], writes)"
| "write_events tun (IpPacketEvent peer packet # events) writes =
    (case tun_send tun (ip_bytes packet) writes of
       None \<Rightarrow> None
     | Some (Inl e, chunks, writes') \<Rightarrow> Some (Inl e, chunks, writes')
     | Some (Inr _, chunks, writes') \<Rightarrow>
        map_option (\<lambda>(r, chunks', writes''). (r, chunks @ chunks', writes'')) (write_events tun events writes'))"
| "write_events tun (event # events) writes = write_events tun events writes"

definition bridge_write ::
  "tun_device \<Rightarrow> tun_write list \<Rightarrow> 'hs node \<Rightarrow> ((tun_error + unit) \<times> bytes list \<times> tun_write list \<times> 'hs node) option" where
  "bridge_write tun writes s =
    (let (events, s1) = next_data_event_batch 64 s
     in if events = [] then None
        else map_option (\<lambda>(r, chunks, writes'). (r, chunks, writes', s1)) (write_events tun events writes))"

subsection \<open>Device lemmas\<close>

lemma write_loop_ok: "write_loop packet writes = Some (Inr (), chunks, writes') \<Longrightarrow> concat chunks = packet"
  by (induction packet writes arbitrary: chunks writes' rule: write_loop.induct)
    (fastforce split: if_splits prod.splits)+

text \<open>A packet that \<open>send\<close> reports as sent has gone to the device, in order and completely.\<close>

lemma tun_send_complete:
  "tun_send tun packet writes = Some (Inr (), chunks, writes') \<Longrightarrow> concat chunks = packet \<and> 0 < length packet \<and> length packet \<le> td_mtu tun"
  by (auto simp: tun_send_def write_loop_ok split: if_splits)

lemma device_write_loop_ok: "device_write_loop packet writes = Some (Inr (), chunks) \<Longrightarrow> concat chunks = packet"
  by (induction packet writes arbitrary: chunks rule: device_write_loop.induct) (fastforce split: if_splits)+

lemma device_send_complete:
  "device_send tun packet writes = Some (Inr (), chunks) \<Longrightarrow>
   concat chunks = packet \<and> packet \<noteq> [] \<and> length packet \<le> td_mtu tun"
  by (auto simp: device_send_def dest: device_write_loop_ok split: if_splits)

lemma recv_more_bounds:
  "recv_more tun room reads = (Inr packets, reads') \<Longrightarrow> length packets \<le> room \<and> (\<forall>packet \<in> set packets. packet \<noteq> [] \<and> length packet \<le> td_mtu tun)"
proof (induction room arbitrary: reads packets reads')
  case (Suc room)
  have bounds: "packet \<noteq> [] \<and> length packet \<le> td_mtu tun" if "tun_try_recv tun reads = (Inr (Some packet), r)" for packet r
    using that by (cases "(tun, reads)" rule: tun_try_recv.cases)
      (auto simp: read_packet_def Let_def split: if_splits)
  show ?case
    using Suc.prems Suc.IH bounds
    by (fastforce split: prod.splits sum.splits option.splits)
qed simp

lemma tun_recv_bounds: "tun_recv tun reads = Some (Inr packet, reads') \<Longrightarrow> packet \<noteq> [] \<and> length packet \<le> td_mtu tun"
  by (induction tun reads rule: tun_recv.induct) (auto simp: read_packet_def Let_def split: if_splits)

lemma tun_recv_many_bounds:
  assumes "tun_recv_many tun limit reads = Some (Inr packets, reads')"
  shows "length packets \<le> limit \<and> (\<forall>packet \<in> set packets. packet \<noteq> [] \<and> length packet \<le> td_mtu tun)"
  using assms recv_more_bounds [of tun "limit - 1"] tun_recv_bounds [of tun reads]
  by (fastforce simp: tun_recv_many_def split: if_splits option.splits prod.splits sum.splits)

lemma ifreq_name_terminated: "length name < IFNAMSIZ \<Longrightarrow> length (ifreq_name name) = IFNAMSIZ \<and> last (ifreq_name name) = 0"
  by (simp add: ifreq_name_def IFNAMSIZ_def)

subsection \<open>Reference counts\<close>

text \<open>The routes that the requests of the log have left in the kernel.\<close>

definition installed :: "route_manager \<Rightarrow> ip_addr \<Rightarrow> bool" where
  "installed m a = fold (\<lambda>(add, key, outcome) present. if key = a \<and> outcome = None then add else present) (rm_log m) False"

text \<open>\<open>uses m n\<close>: the counts are \<open>n\<close>, and a route is installed as long as it is counted.\<close>

definition uses :: "route_manager \<Rightarrow> (ip_addr \<Rightarrow> nat) \<Rightarrow> bool" where
  "uses m n \<longleftrightarrow> (\<forall>a. map_of (rm_owned m) a = (if n a = 0 then None else Some (n a)) \<and> (installed m a \<longleftrightarrow> 0 < n a))"

text \<open>The counts are those of the leases and of the releases that dropped leases have spawned.\<close>

definition balanced :: "route_manager \<Rightarrow> ip_addr list \<Rightarrow> bool" where
  "balanced m leases \<longleftrightarrow> uses m (\<lambda>a. count_list leases a + count_list (rm_spawned m) a)"

lemma count_list_pos: "0 < count_list xs a \<longleftrightarrow> a \<in> set xs"
  by (metis count_list_0_iff neq0_conv)

lemma balanced_installed: "balanced m leases \<Longrightarrow> installed m a \<longleftrightarrow> a \<in> set leases \<union> set (rm_spawned m)"
  by (auto simp: balanced_def uses_def count_list_0_iff count_list_pos)

lemma installed_log:
  "installed (m\<lparr>rm_log := rm_log m @ [(add, key, outcome)]\<rparr>) a =
    (if key = a \<and> outcome = None then add else installed m a)"
  by (simp add: installed_def)

lemma installed_frame [simp]:
  "installed (m\<lparr>rm_owned := owned\<rparr>) a = installed m a"
  "installed (m\<lparr>rm_spawned := spawned\<rparr>) a = installed m a"
  "installed (m\<lparr>rm_addresses := addresses\<rparr>) a = installed m a"
  by (simp_all add: installed_def)

lemma change_route_simps [simp]:
  "rm_owned (snd (change_route net add key m)) = rm_owned m"
  "rm_spawned (snd (change_route net add key m)) = rm_spawned m"
  "fst (change_route net add key m) = (case net (length (rm_log m)) of None \<Rightarrow> Inr () | Some e \<Rightarrow> Inl (Netlink e))"
  "installed (snd (change_route net add key m)) a =
    (if key = a \<and> net (length (rm_log m)) = None then add else installed m a)"
  by (simp_all add: change_route_def Let_def installed_log)

lemma claim_uses:
  assumes "uses m n" "claim_host_route net a m = (r, m')"
  shows "rm_spawned m' = rm_spawned m \<and> (r = Inr a \<and> uses m' (n(a := n a + 1)) \<or> (\<exists>e. r = Inl e) \<and> uses m' n)"
proof -
  have u: "map_of (rm_owned m) b = (if n b = 0 then None else Some (n b))" "installed m b \<longleftrightarrow> 0 < n b" for b
    using assms(1) by (simp_all add: uses_def)
  show ?thesis
    using assms(2) unfolding claim_host_route_def change_route_def Let_def
    by (cases "n a = 0"; cases "net (length (rm_log m))")
      (auto simp: uses_def update_conv' delete_conv' u installed_def u(2) [unfolded installed_def] split: if_splits)
qed

lemma manager_release_uses:
  assumes "uses m n" "0 < n a" "net (length (rm_log m)) = None"
  shows "\<exists>m'. manager_release net a m = (Inr (), m') \<and> rm_spawned m' = rm_spawned m \<and> uses m' (n(a := n a - 1))"
proof -
  have u: "map_of (rm_owned m) b = (if n b = 0 then None else Some (n b))" "installed m b \<longleftrightarrow> 0 < n b" for b
    using assms(1) by (simp_all add: uses_def)
  obtain k where k: "n a = Suc k" using assms(2) gr0_conv_Suc by blast
  show ?thesis
    using assms(3) unfolding manager_release_def change_route_def Let_def
    by (cases k) (auto simp: k uses_def update_conv' delete_conv' u installed_def u(2) [unfolded installed_def])
qed

lemma claim_balanced:
  assumes "balanced m leases" "claim_host_route net a m = (r, m')"
  shows "rm_spawned m' = rm_spawned m \<and> (r = Inr a \<and> balanced m' (leases @ [a]) \<or> (\<exists>e. r = Inl e) \<and> balanced m' leases)"
proof -
  have "(\<lambda>b. count_list leases b + count_list (rm_spawned m) b)(a := count_list leases a + count_list (rm_spawned m) a + 1) =
      (\<lambda>b. count_list (leases @ [a]) b + count_list (rm_spawned m) b)"
    by auto
  then show ?thesis using claim_uses [OF assms(1) [unfolded balanced_def] assms(2)] by (simp add: balanced_def)
qed

lemma count_remove1: "count_list (remove1 a xs) b = count_list xs b - (if b = a then 1 else 0)"
  by (induction xs) auto

lemma lease_release_balanced:
  assumes "balanced m leases" "a \<in> set leases" "net (length (rm_log m)) = None"
  shows "\<exists>m'. lease_release net a m = (Inr (), m') \<and> balanced m' (remove1 a leases) \<and> rm_spawned m' = rm_spawned m"
proof -
  have pos: "0 < count_list leases a" using assms(2) by (simp add: count_list_pos)
  then have "(\<lambda>b. count_list leases b + count_list (rm_spawned m) b)(a := count_list leases a + count_list (rm_spawned m) a - 1) =
      (\<lambda>b. count_list (remove1 a leases) b + count_list (rm_spawned m) b)"
    by (auto simp: count_remove1 fun_eq_iff)
  then show ?thesis
    using manager_release_uses [of m "\<lambda>b. count_list leases b + count_list (rm_spawned m) b" a net] assms(1,3) pos
    by (auto simp: lease_release_def balanced_def)
qed

lemma lease_drop_balanced: "balanced m leases \<Longrightarrow> a \<in> set leases \<Longrightarrow> balanced (lease_drop a m) (remove1 a leases)"
proof -
  assume assms: "balanced m leases" "a \<in> set leases"
  have "0 < count_list leases a" using assms(2) by (simp add: count_list_pos)
  then have "(\<lambda>b. count_list leases b + count_list (rm_spawned m) b) =
      (\<lambda>b. count_list (remove1 a leases) b + count_list (rm_spawned (lease_drop a m)) b)"
    by (auto simp: count_remove1 lease_drop_def fun_eq_iff)
  then show ?thesis using assms(1) by (simp add: balanced_def lease_drop_def uses_def)
qed

lemma run_spawned_balanced:
  assumes "balanced m leases" "net (length (rm_log m)) = None"
  shows "balanced (run_spawned net m) leases"
proof (cases "rm_spawned m")
  case (Cons key rest)
  let ?m = "m\<lparr>rm_spawned := rest\<rparr>"
  let ?n = "\<lambda>b. count_list leases b + count_list (key # rest) b"
  have uses: "uses ?m ?n" using assms(1) by (simp add: balanced_def Cons uses_def)
  have "?n(key := ?n key - 1) = (\<lambda>b. count_list leases b + count_list rest b)" by auto
  then show ?thesis
    using manager_release_uses [OF uses, of key net] assms(2) by (auto simp: run_spawned_def Cons balanced_def)
qed (use assms in \<open>simp add: run_spawned_def\<close>)

text \<open>A release whose deletion fails is run twice: by the call and, when the lease is dropped with the
  error, by the task that the drop spawns. A lease claimed in between loses its route.\<close>

definition failing_release :: route_manager where
  "failing_release =
    (let net = (\<lambda>k. if k = 1 then Some ''busy'' else None); a = IpV4 0x0A580014;
         m1 = snd (claim_host_route net a (route_manager_new 7));
         m2 = snd (lease_release net a m1);
         m3 = snd (claim_host_route net a m2)
     in run_spawned net m3)"

lemma failed_release_drops_live_route:
  "claim_host_route (\<lambda>k. if k = 1 then Some ''busy'' else None) (IpV4 0x0A580014)
      (snd (lease_release (\<lambda>k. if k = 1 then Some ''busy'' else None) (IpV4 0x0A580014)
        (snd (claim_host_route (\<lambda>k. if k = 1 then Some ''busy'' else None) (IpV4 0x0A580014) (route_manager_new 7))))) =
    (Inr (IpV4 0x0A580014), failing_release\<lparr>rm_owned := [(IpV4 0x0A580014, 1)],
       rm_log := butlast (rm_log failing_release), rm_spawned := [IpV4 0x0A580014]\<rparr>)"
  "\<not> installed failing_release (IpV4 0x0A580014)"
  by code_simp+

subsection \<open>Leases and snapshots\<close>

lemma claim_all_ok:
  assumes "balanced m leases" "\<forall>k. net k = None"
  shows "\<exists>m'. claim_all net addresses leases m = (Inr (), leases @ addresses, m') \<and> balanced m' (leases @ addresses)
    \<and> rm_spawned m' = rm_spawned m \<and> (\<forall>a. a \<notin> set addresses \<longrightarrow> filter (\<lambda>(_, b, _). b = a) (rm_log m') = filter (\<lambda>(_, b, _). b = a) (rm_log m))"
  using assms(1)
proof (induction addresses arbitrary: leases m)
  case (Cons address addresses)
  obtain r m1 where claim: "claim_host_route net address m = (r, m1)" by (rule prod.exhaust)
  then have r: "r = Inr address" using assms(2)
    by (auto simp: claim_host_route_def change_route_def Let_def split: option.splits)
  have m1: "balanced m1 (leases @ [address])" "rm_spawned m1 = rm_spawned m"
    using claim_balanced [OF Cons.prems claim] r by auto
  have log: "filter (\<lambda>(_, b, _). b = a) (rm_log m1) = filter (\<lambda>(_, b, _). b = a) (rm_log m)" if "a \<noteq> address" for a
    using claim that assms(2) by (auto simp: claim_host_route_def change_route_def Let_def split: option.splits)
  show ?case using Cons.IH [OF m1(1)] m1(2) log by (auto simp: claim r)
qed simp

lemma release_all_ok:
  assumes "balanced m leases" "\<forall>k. net k = None" "set stale \<subseteq> set leases" "distinct stale"
  shows "balanced (release_all net stale m) (fold remove1 stale leases) \<and> rm_spawned (release_all net stale m) = rm_spawned m
    \<and> (\<forall>a. a \<notin> set stale \<longrightarrow> filter (\<lambda>(_, b, _). b = a) (rm_log (release_all net stale m)) = filter (\<lambda>(_, b, _). b = a) (rm_log m))"
  using assms(1,3,4)
proof (induction stale arbitrary: leases m)
  case (Cons key stale)
  obtain m1 where m1: "lease_release net key m = (Inr (), m1)" "balanced m1 (remove1 key leases)" "rm_spawned m1 = rm_spawned m"
    using lease_release_balanced [OF Cons.prems(1), of key net] Cons.prems(2) assms(2) by auto
  have sub: "set stale \<subseteq> set (remove1 key leases)"
    using Cons.prems(2,3) by (metis distinct.simps(2) in_set_remove1 list.set_intros(2) subset_iff)
  have log: "filter (\<lambda>(_, b, _). b = a) (rm_log m1) = filter (\<lambda>(_, b, _). b = a) (rm_log m)" if "a \<noteq> key" for a
    using m1(1) that assms(2)
    by (auto simp: lease_release_def manager_release_def change_route_def lease_drop_def Let_def split: option.splits nat.splits)
  show ?case using Cons.IH [OF m1(2) sub] Cons.prems(3) m1(3) log by (simp add: m1(1))
qed simp

lemma fold_remove1_filter:
  "distinct leases \<Longrightarrow> fold remove1 (filter (\<lambda>a. \<not> P a) leases) leases = filter P leases"
proof -
  assume "distinct leases"
  then have "fold remove1 ks leases = filter (\<lambda>a. a \<notin> set ks) leases" for ks
    by (induction ks arbitrary: leases) (auto simp: distinct_remove1_removeAll removeAll_filter_not_eq intro: filter_cong)
  then show ?thesis by (auto intro: filter_cong)
qed

lemma add_local_addresses_ok:
  "\<forall>a. outcome a = None \<Longrightarrow> \<exists>addresses. add_local_addresses outcome pairs m = (Inr (), m\<lparr>rm_addresses := addresses\<rparr>)"
proof (induction pairs arbitrary: m)
  case Nil
  show ?case by (auto intro: exI [of _ "rm_addresses m"])
next
  case (Cons pair pairs)
  obtain address prefix_len where "pair = (address, prefix_len)" by (rule prod.exhaust)
  then show ?case using Cons by (auto simp: add_local_address_def) (metis (no_types, lifting) route_manager.update_convs(5) route_manager.surjective)
qed

lemma snapshot_addresses:
  assumes "snapshot_validate blake3 snapshot = Inr ()"
  shows "\<exists>addresses. snapshot_route_addresses blake3 snapshot n = Inr addresses \<and> set addresses =
    (\<Union>info \<in> {info \<in> set (sn_peers snapshot). pi_node_id info \<noteq> n}. set (info_addresses info))"
  using assms by (auto simp: snapshot_route_addresses_def split: if_splits)

lemma balanced_addresses: "balanced (m\<lparr>rm_addresses := x\<rparr>) leases = balanced m leases"
  by (simp add: balanced_def uses_def)

lemma apply_tun_snapshot_ok:
  assumes "snapshot_validate blake3 snapshot = Inr ()" "find (\<lambda>peer. pi_node_id peer = n) (sn_peers snapshot) = Some local"
    and "balanced m leases" "distinct leases" "\<forall>k. net k = None" "\<forall>a. addr a = None"
  shows "\<exists>leases' m'. apply_tun_snapshot blake3 addr net n snapshot leases m = (Inr (), leases', m')
    \<and> set leases' = (\<Union>info \<in> {info \<in> set (sn_peers snapshot). pi_node_id info \<noteq> n}. set (info_addresses info))
    \<and> balanced m' leases' \<and> distinct leases' \<and> rm_spawned m' = rm_spawned m
    \<and> (\<forall>a \<in> set leases \<inter> set leases'. filter (\<lambda>(_, b, _). b = a) (rm_log m') = filter (\<lambda>(_, b, _). b = a) (rm_log m))"
proof -
  obtain addresses where addresses: "snapshot_route_addresses blake3 snapshot n = Inr addresses"
      "set addresses = (\<Union>info \<in> {info \<in> set (sn_peers snapshot). pi_node_id info \<noteq> n}. set (info_addresses info))"
    using snapshot_addresses [OF assms(1)] by blast
  obtain x where local: "add_local_addresses addr (local_address_pairs local snapshot) m = (Inr (), m\<lparr>rm_addresses := x\<rparr>)"
    using add_local_addresses_ok [OF assms(6)] by blast
  let ?m = "m\<lparr>rm_addresses := x\<rparr>"
  let ?missing = "filter (\<lambda>address. address \<notin> set leases) (remdups addresses)"
  let ?leases = "leases @ ?missing"
  let ?stale = "filter (\<lambda>address. address \<notin> set addresses) ?leases"
  let ?kept = "filter (\<lambda>address. address \<in> set addresses) ?leases"
  obtain m1 where claimed: "claim_all net ?missing leases ?m = (Inr (), ?leases, m1)" "balanced m1 ?leases"
      "rm_spawned m1 = rm_spawned m"
      "\<forall>a. a \<notin> set ?missing \<longrightarrow> filter (\<lambda>(_, b, _). b = a) (rm_log m1) = filter (\<lambda>(_, b, _). b = a) (rm_log m)"
    using claim_all_ok [of ?m leases net ?missing] assms(3,5) by (auto simp: balanced_addresses)
  have dist: "distinct ?leases" using assms(4) by auto
  then have released: "balanced (release_all net ?stale m1) ?kept" "rm_spawned (release_all net ?stale m1) = rm_spawned m"
      "\<forall>a. a \<notin> set ?stale \<longrightarrow> filter (\<lambda>(_, b, _). b = a) (rm_log (release_all net ?stale m1)) = filter (\<lambda>(_, b, _). b = a) (rm_log m1)"
    using release_all_ok [OF claimed(2) assms(5), of ?stale] fold_remove1_filter [OF dist, of "\<lambda>a. a \<in> set addresses"] claimed(3)
    by (auto simp del: filter_append)
  have "apply_tun_snapshot blake3 addr net n snapshot leases m = (Inr (), ?kept, release_all net ?stale m1)"
    unfolding apply_tun_snapshot_def assms(1,2) local addresses(1) Let_def sum.case option.case case_prod_conv set_remdups claimed(1) ..
  moreover have "set ?kept = set addresses" by auto
  moreover have "filter (\<lambda>(_, b, _). b = a) (rm_log (release_all net ?stale m1)) = filter (\<lambda>(_, b, _). b = a) (rm_log m)"
    if "a \<in> set leases" "a \<in> set ?kept" for a
    using that released(3) claimed(4) by auto
  ultimately show ?thesis
    using released(1,2) dist addresses(2) by (intro exI [of _ ?kept] exI [of _ "release_all net ?stale m1"]) (simp del: filter_append)
qed

subsection \<open>Bridge lemmas\<close>

text \<open>Every packet of the batch is written whole and in order, unless a write fails.\<close>

lemma write_events_complete:
  "write_events tun events writes = Some (Inr (), chunks, writes') \<Longrightarrow>
   concat chunks = concat (map (\<lambda>event. case event of IpPacketEvent _ packet \<Rightarrow> ip_bytes packet | _ \<Rightarrow> []) events)"
proof (induction tun events writes arbitrary: chunks writes' rule: write_events.induct)
  case (2 tun peer packet events writes)
  then show ?case using tun_send_complete [of tun "ip_bytes packet" writes]
    by (fastforce split: option.splits prod.splits sum.splits)
qed simp_all

text \<open>A packet that is longer than the MTU of the device ends the bridge; nothing on the way from the
  session to the device checks its length.\<close>

lemma oversized_packet_ends_bridge:
  assumes "nd_data s = IpPacketEvent peer packet # rest" "td_mtu tun < length (ip_bytes packet)"
  shows "\<exists>s'. bridge_write tun writes s = Some (Inl TunPacketTooLarge, [], writes, s')"
  using assms by (simp add: bridge_write_def next_data_event_batch_def tun_send_def)

subsection \<open>Properties\<close>



end
