(* ===== verification/Vela_Stack.thy ===== *)
theory Vela_Stack
  imports Vela_Node_Run "HOL-Library.Multiset"
begin

text \<open>
  The user-space TCP/IP stack of \<open>vela-stack\<close>: the public handles that turn a call into a command,
  the virtual device between the node and smoltcp, the command handler and the completion of
  pending operations of the owner task, the choice of ephemeral ports, and one turn of its loop.
  smoltcp is the parameter \<open>smoltcp\<close>: sockets of four kinds in a \<open>SocketSet\<close> whose handles are
  indices (the code never removes a socket), and an interface that is polled. A oneshot channel
  is a number; the replies that were sent are logged in order.
\<close>

section \<open>User-space stack\<close>

subsection \<open>Configuration\<close>

datatype stack_error =
    StackClosed
  | StackInvalidConfig string
  | StackSocket string
  | StackPacketTooLarge
  | StackQueueFull
  | StackUnknownSocket
  | StackNoEphemeralPort
  | StackOperationPending
  | StackCore core_error

definition DEFAULT_SOCKET_BUFFER :: nat where "DEFAULT_SOCKET_BUFFER = 64 * 1024"
definition DEVICE_QUEUE_LIMIT :: nat where "DEVICE_QUEUE_LIMIT = 256"
definition EPHEMERAL_PORT_START :: u16 where "EPHEMERAL_PORT_START = 49152"
definition EPHEMERAL_PORT_END :: u16 where "EPHEMERAL_PORT_END = 65535"
definition STACK_POLL_MIN_INTERVAL :: nat where "STACK_POLL_MIN_INTERVAL = 1"
definition STACK_POLL_IDLE_INTERVAL :: nat where "STACK_POLL_IDLE_INTERVAL = 100"

record stack_config =
  sk_ipv4 :: "(u32 \<times> u8) option"
  sk_ipv6 :: "(u128 \<times> u8) option"
  sk_mtu :: nat
  sk_socket_buffer :: nat

definition stack_config_default :: stack_config where
  "stack_config_default = \<lparr>sk_ipv4 = None, sk_ipv6 = None, sk_mtu = DEFAULT_VIRTUAL_MTU,
     sk_socket_buffer = DEFAULT_SOCKET_BUFFER\<rparr>"

definition stack_config_ipv4 :: "u32 \<Rightarrow> stack_config" where
  "stack_config_ipv4 address = stack_config_default\<lparr>sk_ipv4 := Some (address, 10)\<rparr>"

definition attach_check :: "stack_config \<Rightarrow> stack_error + unit" where
  "attach_check config =
    (if sk_mtu config < 576 then Inl (StackInvalidConfig ''MTU must be at least 576'')
     else if (case sk_ipv4 config of None \<Rightarrow> False | Some (_, prefix_len) \<Rightarrow> prefix_len > 32)
       \<or> (case sk_ipv6 config of None \<Rightarrow> False | Some (_, prefix_len) \<Rightarrow> prefix_len > 128)
     then Inl (StackInvalidConfig ''invalid IP prefix length'')
     else if sk_ipv4 config = None \<and> sk_ipv6 config = None
     then Inl (StackInvalidConfig ''at least one local IP is required'')
     else Inr ())"

subsection \<open>Commands\<close>

datatype stack_ip_version = IpVersion4 | IpVersion6

datatype stack_command =
    Shutdown nat
  | Inject bytes nat
  | DialTcp socket_addr nat
  | ListenTcp socket_addr nat
  | BindUdp socket_addr nat
  | BindRaw stack_ip_version u8 nat
  | BindIcmp u16 nat
  | TcpSend u64 bytes nat
  | TcpRecv u64 nat nat
  | TcpShutdown u64 nat
  | TcpAccept u64 nat
  | UdpSend u64 bytes socket_addr nat
  | UdpRecv u64 nat nat
  | RawSend u64 bytes nat
  | RawRecv u64 nat nat
  | IcmpSend u64 bytes ip_addr nat
  | IcmpRecv u64 nat nat

fun command_reply :: "stack_command \<Rightarrow> nat" where
  "command_reply (Shutdown t) = t"
| "command_reply (Inject _ t) = t"
| "command_reply (DialTcp _ t) = t"
| "command_reply (ListenTcp _ t) = t"
| "command_reply (BindUdp _ t) = t"
| "command_reply (BindRaw _ _ t) = t"
| "command_reply (BindIcmp _ t) = t"
| "command_reply (TcpSend _ _ t) = t"
| "command_reply (TcpRecv _ _ t) = t"
| "command_reply (TcpShutdown _ t) = t"
| "command_reply (TcpAccept _ t) = t"
| "command_reply (UdpSend _ _ _ t) = t"
| "command_reply (UdpRecv _ _ t) = t"
| "command_reply (RawSend _ _ t) = t"
| "command_reply (RawRecv _ _ t) = t"
| "command_reply (IcmpSend _ _ _ t) = t"
| "command_reply (IcmpRecv _ _ t) = t"

text \<open>A reply carries what the oneshot of its command carries; a handle is the id of its socket.\<close>

datatype stack_reply =
    ReplyUnit "stack_error + unit"
  | ReplyHandle "stack_error + u64"
  | ReplySize "stack_error + nat"
  | ReplyBytes "stack_error + bytes"
  | ReplyAccept "stack_error + u64 \<times> socket_addr"
  | ReplyDatagram "stack_error + bytes \<times> socket_addr"
  | ReplyIcmp "stack_error + bytes \<times> ip_addr"

text \<open>The channel of commands: a call creates a oneshot, sends the command (which waits while 256
  commands are queued and fails once the owner is gone) and waits for the reply. \<open>None\<close> is a call
  that still waits.\<close>

record command_channel =
  ch_open :: bool
  ch_queue :: "stack_command list"
  ch_next :: nat

definition stack_request ::
  "(nat \<Rightarrow> stack_command) \<Rightarrow> command_channel \<Rightarrow> ((stack_error + nat) \<times> command_channel) option" where
  "stack_request command ch =
    (if \<not> ch_open ch then Some (Inl StackClosed, ch)
     else if length (ch_queue ch) \<ge> 256 then None
     else Some (Inr (ch_next ch), ch\<lparr>ch_queue := ch_queue ch @ [command (ch_next ch)], ch_next := ch_next ch + 1\<rparr>))"

definition stack_await :: "command_channel \<Rightarrow> (nat \<times> stack_reply) list \<Rightarrow> nat \<Rightarrow> (stack_error + stack_reply) option" where
  "stack_await ch replies token =
    (case map_of replies token of
       Some reply \<Rightarrow> Some (Inr reply)
     | None \<Rightarrow> if ch_open ch then None else Some (Inl StackClosed))"

definition inject_ip where "inject_ip packet = stack_request (Inject packet)"
definition stack_send_ip where "stack_send_ip packet = inject_ip packet"
definition stack_shutdown where "stack_shutdown = stack_request Shutdown"
definition dial_tcp where "dial_tcp remote = stack_request (DialTcp remote)"
definition stack_dial where "stack_dial remote = dial_tcp remote"
definition listen_tcp where "listen_tcp local = stack_request (ListenTcp local)"
definition stack_listen where "stack_listen local = listen_tcp local"
definition bind_udp where "bind_udp local = stack_request (BindUdp local)"
definition listen_packet where "listen_packet local = bind_udp local"
definition raw_socket where "raw_socket version protocol = stack_request (BindRaw version protocol)"
definition bind_icmp where "bind_icmp identifier = stack_request (BindIcmp identifier)"
definition tcp_stream_send where "tcp_stream_send sid data = stack_request (TcpSend sid data)"
definition tcp_stream_recv where "tcp_stream_recv sid max_len = stack_request (TcpRecv sid max_len)"
definition tcp_stream_shutdown where "tcp_stream_shutdown sid = stack_request (TcpShutdown sid)"
definition tcp_listener_accept where "tcp_listener_accept sid = stack_request (TcpAccept sid)"
definition udp_send_to where "udp_send_to sid data target = stack_request (UdpSend sid data target)"
definition udp_recv_from where "udp_recv_from sid max_len = stack_request (UdpRecv sid max_len)"
definition icmp_send_to where "icmp_send_to sid payload target = stack_request (IcmpSend sid payload target)"
definition icmp_recv where "icmp_recv sid max_len = stack_request (IcmpRecv sid max_len)"
definition raw_send where "raw_send sid packet = stack_request (RawSend sid packet)"
definition raw_recv where "raw_recv sid max_len = stack_request (RawRecv sid max_len)"

subsection \<open>Virtual device\<close>

record virtual_device =
  vd_rx :: "bytes list"
  vd_tx :: "bytes list"
  vd_mtu :: nat

definition virtual_device_new :: "nat \<Rightarrow> virtual_device" where
  "virtual_device_new mtu = \<lparr>vd_rx = [], vd_tx = [], vd_mtu = mtu\<rparr>"

definition push_rx :: "bytes \<Rightarrow> virtual_device \<Rightarrow> (stack_error + unit) \<times> virtual_device" where
  "push_rx packet d =
    (if length packet > vd_mtu d then (Inl StackPacketTooLarge, d)
     else if length (vd_rx d) \<ge> DEVICE_QUEUE_LIMIT then (Inl StackQueueFull, d)
     else (Inr (), d\<lparr>vd_rx := vd_rx d @ [packet]\<rparr>))"

text \<open>\<open>VirtualTxToken::consume\<close>: the packet smoltcp wrote is queued when it fits.\<close>

definition tx_consume :: "bytes \<Rightarrow> virtual_device \<Rightarrow> virtual_device" where
  "tx_consume packet d =
    (if length packet \<le> vd_mtu d \<and> length (vd_tx d) < DEVICE_QUEUE_LIMIT
     then d\<lparr>vd_tx := vd_tx d @ [packet]\<rparr> else d)"

definition device_receive :: "virtual_device \<Rightarrow> (bytes \<times> virtual_device) option" where
  "device_receive d = (case vd_rx d of [] \<Rightarrow> None | packet # rest \<Rightarrow> Some (packet, d\<lparr>vd_rx := rest\<rparr>))"

text \<open>What smoltcp does to the device in one poll: it takes packets and fills transmit tokens.\<close>

datatype device_use = UseReceive | UseTransmit bytes

fun device_uses :: "device_use list \<Rightarrow> virtual_device \<Rightarrow> virtual_device" where
  "device_uses [] d = d"
| "device_uses (UseReceive # us) d =
    device_uses us (case device_receive d of None \<Rightarrow> d | Some (_, d') \<Rightarrow> d')"
| "device_uses (UseTransmit packet # us) d = device_uses us (tx_consume packet d)"

subsection \<open>smoltcp\<close>

datatype tcp_state =
    TcpClosed | TcpListen | TcpSynSent | TcpSynReceived | TcpEstablished | TcpFinWait1 | TcpFinWait2
  | TcpCloseWait | TcpClosing | TcpLastAck | TcpTimeWait

datatype socket_kind = KTcp | KUdp | KRaw | KIcmp

text \<open>A socket of the set: its kind and its state. \<open>sm_poll\<close> gives the device operations of a poll,
  chosen from what has been received, and the new interface and sockets.\<close>

type_synonym 's stack_socket = "socket_kind \<times> 's"

record ('i, 's) smoltcp =
  sm_interface_new :: "nat \<Rightarrow> (ip_addr \<times> u8) list \<Rightarrow> 'i"
  sm_poll :: "nat \<Rightarrow> bytes list \<Rightarrow> 'i \<Rightarrow> 's stack_socket list \<Rightarrow> device_use list \<times> 'i \<times> 's stack_socket list"
  sm_poll_delay :: "nat \<Rightarrow> 'i \<Rightarrow> 's stack_socket list \<Rightarrow> nat option"
  sm_tcp_connect :: "nat \<Rightarrow> socket_addr \<Rightarrow> u16 \<Rightarrow> 'i \<Rightarrow> (string + 's) \<times> 'i"
  sm_tcp_listen :: "nat \<Rightarrow> socket_addr \<Rightarrow> string + 's"
  sm_tcp_state :: "'s \<Rightarrow> tcp_state"
  sm_tcp_local_port :: "'s \<Rightarrow> u16 option"
  sm_tcp_remote :: "'s \<Rightarrow> socket_addr option"
  sm_tcp_can_send :: "'s \<Rightarrow> bool"
  sm_tcp_can_recv :: "'s \<Rightarrow> bool"
  sm_tcp_may_recv :: "'s \<Rightarrow> bool"
  sm_tcp_send :: "bytes \<Rightarrow> 's \<Rightarrow> (string + nat) \<times> 's"
  sm_tcp_recv :: "nat \<Rightarrow> 's \<Rightarrow> (string + bytes) \<times> 's"
  sm_tcp_close :: "'s \<Rightarrow> 's"
  sm_udp_bind :: "nat \<Rightarrow> socket_addr \<Rightarrow> string + 's"
  sm_udp_can_recv :: "'s \<Rightarrow> bool"
  sm_udp_send :: "bytes \<Rightarrow> socket_addr \<Rightarrow> 's \<Rightarrow> (string + unit) \<times> 's"
  sm_udp_recv :: "nat \<Rightarrow> 's \<Rightarrow> (string + bytes \<times> socket_addr) \<times> 's"
  sm_raw_new :: "nat \<Rightarrow> stack_ip_version \<Rightarrow> u8 \<Rightarrow> 's"
  sm_raw_can_recv :: "'s \<Rightarrow> bool"
  sm_raw_send :: "bytes \<Rightarrow> 's \<Rightarrow> (string + unit) \<times> 's"
  sm_raw_recv :: "nat \<Rightarrow> 's \<Rightarrow> (string + bytes) \<times> 's"
  sm_icmp_bind :: "nat \<Rightarrow> u16 \<Rightarrow> string + 's"
  sm_icmp_recv_queue :: "'s \<Rightarrow> nat"
  sm_icmp_send :: "bytes \<Rightarrow> ip_addr \<Rightarrow> 's \<Rightarrow> (string + unit) \<times> 's"
  sm_icmp_recv :: "nat \<Rightarrow> 's \<Rightarrow> (string + bytes \<times> ip_addr) \<times> 's"

subsection \<open>Owner task\<close>

record tcp_socket_state =
  ts_handle :: nat
  ts_connect :: "nat option"
  ts_send :: "(bytes \<times> nat) option"
  ts_recv :: "(nat \<times> nat) option"

record listener_state =
  ls_handle :: nat
  ls_local :: socket_addr
  ls_accept :: "nat option"
  ls_accepted :: "(u64 \<times> socket_addr) list"

text \<open>\<open>UdpState\<close>, \<open>RawState\<close> and \<open>IcmpState\<close>.\<close>

record packet_state =
  pk_handle :: nat
  pk_recv :: "(nat \<times> nat) option"

record ('i, 's, 'hs) stack_runtime =
  sr_node :: "'hs node"
  sr_interface :: 'i
  sr_device :: virtual_device
  sr_sockets :: "'s stack_socket list"
  sr_next_id :: u64
  sr_tcp :: "(u64 \<times> tcp_socket_state) list"
  sr_listeners :: "(u64 \<times> listener_state) list"
  sr_udp :: "(u64 \<times> packet_state) list"
  sr_raw :: "(u64 \<times> packet_state) list"
  sr_icmp :: "(u64 \<times> packet_state) list"
  sr_next_port :: u16
  sr_socket_buffer :: nat
  sr_replies :: "(nat \<times> stack_reply) list"

definition stack_addresses :: "stack_config \<Rightarrow> (ip_addr \<times> u8) list" where
  "stack_addresses config =
    (case sk_ipv4 config of None \<Rightarrow> [] | Some (address, prefix_len) \<Rightarrow> [(IpV4 address, prefix_len)]) @
    (case sk_ipv6 config of None \<Rightarrow> [] | Some (address, prefix_len) \<Rightarrow> [(IpV6 address, prefix_len)])"

definition stack_runtime_new ::
  "('i, 's) smoltcp \<Rightarrow> 'hs node \<Rightarrow> stack_config \<Rightarrow> ('i, 's, 'hs) stack_runtime" where
  "stack_runtime_new sm node config =
    \<lparr>sr_node = node, sr_interface = sm_interface_new sm (sk_mtu config) (stack_addresses config),
     sr_device = virtual_device_new (sk_mtu config), sr_sockets = [], sr_next_id = 1, sr_tcp = [],
     sr_listeners = [], sr_udp = [], sr_raw = [], sr_icmp = [], sr_next_port = EPHEMERAL_PORT_START,
     sr_socket_buffer = sk_socket_buffer config, sr_replies = []\<rparr>"

definition vela_stack_attach ::
  "('i, 's) smoltcp \<Rightarrow> 'hs node \<Rightarrow> stack_config \<Rightarrow> stack_error + ('i, 's, 'hs) stack_runtime" where
  "vela_stack_attach sm node config =
    (case attach_check config of Inl e \<Rightarrow> Inl e | Inr _ \<Rightarrow> Inr (stack_runtime_new sm node config))"

definition stack_next_id :: "('i, 's, 'hs) stack_runtime \<Rightarrow> u64 \<times> ('i, 's, 'hs) stack_runtime" where
  "stack_next_id r = (sr_next_id r, r\<lparr>sr_next_id := max (sr_next_id r + 1) 1\<rparr>)"

definition send_reply :: "nat \<Rightarrow> stack_reply \<Rightarrow> ('i, 's, 'hs) stack_runtime \<Rightarrow> ('i, 's, 'hs) stack_runtime" where
  "send_reply token reply r = r\<lparr>sr_replies := sr_replies r @ [(token, reply)]\<rparr>"

text \<open>\<open>SocketSet::get\<close> panics on a handle that is not in the set and on one of another kind.\<close>

definition get_socket :: "socket_kind \<Rightarrow> nat \<Rightarrow> ('i, 's, 'hs) stack_runtime \<Rightarrow> 's option" where
  "get_socket kind h r =
    (if h < length (sr_sockets r) \<and> fst (sr_sockets r ! h) = kind then Some (snd (sr_sockets r ! h)) else None)"

definition put_socket :: "nat \<Rightarrow> 's \<Rightarrow> ('i, 's, 'hs) stack_runtime \<Rightarrow> ('i, 's, 'hs) stack_runtime" where
  "put_socket h s r = r\<lparr>sr_sockets := (sr_sockets r)[h := (fst (sr_sockets r ! h), s)]\<rparr>"

definition add_socket ::
  "socket_kind \<Rightarrow> 's \<Rightarrow> ('i, 's, 'hs) stack_runtime \<Rightarrow> nat \<times> ('i, 's, 'hs) stack_runtime" where
  "add_socket kind s r = (length (sr_sockets r), r\<lparr>sr_sockets := sr_sockets r @ [(kind, s)]\<rparr>)"

subsubsection \<open>Ephemeral ports\<close>

fun tcp_uses_port ::
  "('i, 's) smoltcp \<Rightarrow> ('i, 's, 'hs) stack_runtime \<Rightarrow> u16 \<Rightarrow> (u64 \<times> tcp_socket_state) list \<Rightarrow> bool option" where
  "tcp_uses_port sm r candidate [] = Some False"
| "tcp_uses_port sm r candidate ((sid, state) # states) =
    (case get_socket KTcp (ts_handle state) r of
       None \<Rightarrow> None
     | Some socket \<Rightarrow>
        if sm_tcp_state sm socket \<noteq> TcpClosed \<and> sm_tcp_local_port sm socket = Some candidate then Some True
        else tcp_uses_port sm r candidate states)"

definition next_port_after :: "u16 \<Rightarrow> u16" where
  "next_port_after candidate = (if candidate = EPHEMERAL_PORT_END then EPHEMERAL_PORT_START else candidate + 1)"

fun allocate_port_loop ::
  "('i, 's) smoltcp \<Rightarrow> nat \<Rightarrow> ('i, 's, 'hs) stack_runtime \<Rightarrow>
   ((stack_error + u16) \<times> ('i, 's, 'hs) stack_runtime) option" where
  "allocate_port_loop sm 0 r = Some (Inl StackNoEphemeralPort, r)"
| "allocate_port_loop sm (Suc n) r =
    (let candidate = sr_next_port r;
         r1 = r\<lparr>sr_next_port := next_port_after candidate\<rparr>;
         listener_uses_port = list_ex (\<lambda>(_, state). sock_port (ls_local state) = candidate) (sr_listeners r1)
     in case tcp_uses_port sm r1 candidate (sr_tcp r1) of
          None \<Rightarrow> None
        | Some used \<Rightarrow>
           if \<not> listener_uses_port \<and> \<not> used then Some (Inr candidate, r1) else allocate_port_loop sm n r1)"

definition allocate_tcp_port ::
  "('i, 's) smoltcp \<Rightarrow> ('i, 's, 'hs) stack_runtime \<Rightarrow>
   ((stack_error + u16) \<times> ('i, 's, 'hs) stack_runtime) option" where
  "allocate_tcp_port sm r = allocate_port_loop sm (unat (EPHEMERAL_PORT_END - EPHEMERAL_PORT_START) + 1) r"

subsubsection \<open>Receiving\<close>

text \<open>What a receive operation answers at once, with the socket after it; \<open>None\<close> when it has to
  wait.\<close>

definition tcp_receive :: "('i, 's) smoltcp \<Rightarrow> nat \<Rightarrow> 's \<Rightarrow> (stack_reply \<times> 's) option" where
  "tcp_receive sm max_len socket =
    (if sm_tcp_can_recv sm socket then
       let (result, socket') = sm_tcp_recv sm max_len socket in Some (ReplyBytes (map_sum StackSocket id result), socket')
     else if \<not> sm_tcp_may_recv sm socket then Some (ReplyBytes (Inr []), socket)
     else None)"

definition udp_receive :: "('i, 's) smoltcp \<Rightarrow> nat \<Rightarrow> 's \<Rightarrow> (stack_reply \<times> 's) option" where
  "udp_receive sm max_len socket =
    (if sm_udp_can_recv sm socket then
       let (result, socket') = sm_udp_recv sm max_len socket
       in Some (ReplyDatagram (map_sum StackSocket id result), socket')
     else None)"

definition raw_receive :: "('i, 's) smoltcp \<Rightarrow> nat \<Rightarrow> 's \<Rightarrow> (stack_reply \<times> 's) option" where
  "raw_receive sm max_len socket =
    (if sm_raw_can_recv sm socket then
       let (result, socket') = sm_raw_recv sm max_len socket in Some (ReplyBytes (map_sum StackSocket id result), socket')
     else None)"

definition icmp_receive :: "('i, 's) smoltcp \<Rightarrow> nat \<Rightarrow> 's \<Rightarrow> (stack_reply \<times> 's) option" where
  "icmp_receive sm max_len socket =
    (if sm_icmp_recv_queue sm socket \<noteq> 0 then
       let (result, socket') = sm_icmp_recv sm max_len socket in Some (ReplyIcmp (map_sum StackSocket id result), socket')
     else None)"

text \<open>The three kinds of packet sockets keep their states in tables of the same shape.\<close>

fun packet_states :: "socket_kind \<Rightarrow> ('i, 's, 'hs) stack_runtime \<Rightarrow> (u64 \<times> packet_state) list" where
  "packet_states KUdp r = sr_udp r"
| "packet_states KRaw r = sr_raw r"
| "packet_states KIcmp r = sr_icmp r"
| "packet_states KTcp r = []"

fun set_packet_state ::
  "socket_kind \<Rightarrow> u64 \<Rightarrow> packet_state \<Rightarrow> ('i, 's, 'hs) stack_runtime \<Rightarrow> ('i, 's, 'hs) stack_runtime" where
  "set_packet_state KUdp sid state r = r\<lparr>sr_udp := AList.update sid state (sr_udp r)\<rparr>"
| "set_packet_state KRaw sid state r = r\<lparr>sr_raw := AList.update sid state (sr_raw r)\<rparr>"
| "set_packet_state KIcmp sid state r = r\<lparr>sr_icmp := AList.update sid state (sr_icmp r)\<rparr>"
| "set_packet_state KTcp sid state r = r"

fun packet_receive :: "('i, 's) smoltcp \<Rightarrow> socket_kind \<Rightarrow> nat \<Rightarrow> 's \<Rightarrow> (stack_reply \<times> 's) option" where
  "packet_receive sm KUdp = udp_receive sm"
| "packet_receive sm KRaw = raw_receive sm"
| "packet_receive sm KIcmp = icmp_receive sm"
| "packet_receive sm KTcp = tcp_receive sm"

fun packet_reply_error :: "socket_kind \<Rightarrow> stack_error \<Rightarrow> stack_reply" where
  "packet_reply_error KUdp e = ReplyDatagram (Inl e)"
| "packet_reply_error KRaw e = ReplyBytes (Inl e)"
| "packet_reply_error KIcmp e = ReplyIcmp (Inl e)"
| "packet_reply_error KTcp e = ReplyBytes (Inl e)"

definition packet_recv_command ::
  "('i, 's) smoltcp \<Rightarrow> socket_kind \<Rightarrow> u64 \<Rightarrow> nat \<Rightarrow> nat \<Rightarrow> ('i, 's, 'hs) stack_runtime \<Rightarrow>
   ('i, 's, 'hs) stack_runtime option" where
  "packet_recv_command sm kind sid max_len response r =
    (case map_of (packet_states kind r) sid of
       None \<Rightarrow> Some (send_reply response (packet_reply_error kind StackUnknownSocket) r)
     | Some state \<Rightarrow>
        if pk_recv state \<noteq> None
        then Some (send_reply response (packet_reply_error kind StackOperationPending) r)
        else case get_socket kind (pk_handle state) r of
          None \<Rightarrow> None
        | Some socket \<Rightarrow>
           Some (case packet_receive sm kind max_len socket of
             Some (reply, socket') \<Rightarrow> send_reply response reply (put_socket (pk_handle state) socket' r)
           | None \<Rightarrow> set_packet_state kind sid (state\<lparr>pk_recv := Some (max_len, response)\<rparr>) r))"

definition udp_recv_command where "udp_recv_command sm = packet_recv_command sm KUdp"
definition raw_recv_command where "raw_recv_command sm = packet_recv_command sm KRaw"
definition icmp_recv_command where "icmp_recv_command sm = packet_recv_command sm KIcmp"

subsubsection \<open>Commands of the sockets\<close>

definition inject_command ::
  "bytes \<Rightarrow> nat \<Rightarrow> ('i, 's, 'hs) stack_runtime \<Rightarrow> ('i, 's, 'hs) stack_runtime" where
  "inject_command packet response r =
    (let (result, device) = push_rx packet (sr_device r)
     in send_reply response (ReplyUnit result) (r\<lparr>sr_device := device\<rparr>))"

definition dial_tcp_command ::
  "('i, 's) smoltcp \<Rightarrow> socket_addr \<Rightarrow> nat \<Rightarrow> ('i, 's, 'hs) stack_runtime \<Rightarrow>
   ('i, 's, 'hs) stack_runtime option" where
  "dial_tcp_command sm remote response r =
    (let (sid, r1) = stack_next_id r in
     case allocate_tcp_port sm r1 of
       None \<Rightarrow> None
     | Some (Inl e, r2) \<Rightarrow> Some (send_reply response (ReplyHandle (Inl e)) r2)
     | Some (Inr local_port, r2) \<Rightarrow>
        let (result, interface) = sm_tcp_connect sm (sr_socket_buffer r2) remote local_port (sr_interface r2);
            r3 = r2\<lparr>sr_interface := interface\<rparr>
        in Some (case result of
             Inl e \<Rightarrow> send_reply response (ReplyHandle (Inl (StackSocket e))) r3
           | Inr socket \<Rightarrow>
              let (h, r4) = add_socket KTcp socket r3
              in r4\<lparr>sr_tcp := AList.update sid
                   \<lparr>ts_handle = h, ts_connect = Some response, ts_send = None, ts_recv = None\<rparr> (sr_tcp r4)\<rparr>))"

definition listen_tcp_command ::
  "('i, 's) smoltcp \<Rightarrow> socket_addr \<Rightarrow> nat \<Rightarrow> ('i, 's, 'hs) stack_runtime \<Rightarrow> ('i, 's, 'hs) stack_runtime" where
  "listen_tcp_command sm local response r =
    (let (sid, r1) = stack_next_id r in
     case sm_tcp_listen sm (sr_socket_buffer r1) local of
       Inl e \<Rightarrow> send_reply response (ReplyHandle (Inl (StackSocket e))) r1
     | Inr socket \<Rightarrow>
        let (h, r2) = add_socket KTcp socket r1;
            r3 = r2\<lparr>sr_listeners := AList.update sid
              \<lparr>ls_handle = h, ls_local = local, ls_accept = None, ls_accepted = []\<rparr> (sr_listeners r2)\<rparr>
        in send_reply response (ReplyHandle (Inr sid)) r3)"

definition bind_packet_socket ::
  "socket_kind \<Rightarrow> string + 's \<Rightarrow> nat \<Rightarrow> ('i, 's, 'hs) stack_runtime \<Rightarrow> ('i, 's, 'hs) stack_runtime" where
  "bind_packet_socket kind result response r =
    (let (sid, r1) = stack_next_id r in
     case result of
       Inl e \<Rightarrow> send_reply response (ReplyHandle (Inl (StackSocket e))) r1
     | Inr socket \<Rightarrow>
        let (h, r2) = add_socket kind socket r1
        in send_reply response (ReplyHandle (Inr sid)) (set_packet_state kind sid \<lparr>pk_handle = h, pk_recv = None\<rparr> r2))"

definition bind_udp_command where
  "bind_udp_command sm local response r =
    bind_packet_socket KUdp (sm_udp_bind sm (sr_socket_buffer r) local) response r"

definition bind_raw_command where
  "bind_raw_command sm version protocol response r =
    bind_packet_socket KRaw (Inr (sm_raw_new sm (sr_socket_buffer r) version protocol)) response r"

definition bind_icmp_command where
  "bind_icmp_command sm identifier response r =
    bind_packet_socket KIcmp (sm_icmp_bind sm (sr_socket_buffer r) identifier) response r"

definition tcp_send_command ::
  "('i, 's) smoltcp \<Rightarrow> u64 \<Rightarrow> bytes \<Rightarrow> nat \<Rightarrow> ('i, 's, 'hs) stack_runtime \<Rightarrow>
   ('i, 's, 'hs) stack_runtime option" where
  "tcp_send_command sm sid data response r =
    (case map_of (sr_tcp r) sid of
       None \<Rightarrow> Some (send_reply response (ReplySize (Inl StackUnknownSocket)) r)
     | Some state \<Rightarrow>
        if ts_send state \<noteq> None then Some (send_reply response (ReplySize (Inl StackOperationPending)) r)
        else case get_socket KTcp (ts_handle state) r of
          None \<Rightarrow> None
        | Some socket \<Rightarrow>
           Some (if sm_tcp_can_send sm socket then
             let (result, socket') = sm_tcp_send sm data socket
             in send_reply response (ReplySize (map_sum StackSocket id result)) (put_socket (ts_handle state) socket' r)
           else r\<lparr>sr_tcp := AList.update sid (state\<lparr>ts_send := Some (data, response)\<rparr>) (sr_tcp r)\<rparr>))"

definition tcp_recv_command ::
  "('i, 's) smoltcp \<Rightarrow> u64 \<Rightarrow> nat \<Rightarrow> nat \<Rightarrow> ('i, 's, 'hs) stack_runtime \<Rightarrow>
   ('i, 's, 'hs) stack_runtime option" where
  "tcp_recv_command sm sid max_len response r =
    (case map_of (sr_tcp r) sid of
       None \<Rightarrow> Some (send_reply response (ReplyBytes (Inl StackUnknownSocket)) r)
     | Some state \<Rightarrow>
        if ts_recv state \<noteq> None then Some (send_reply response (ReplyBytes (Inl StackOperationPending)) r)
        else case get_socket KTcp (ts_handle state) r of
          None \<Rightarrow> None
        | Some socket \<Rightarrow>
           Some (case tcp_receive sm max_len socket of
             Some (reply, socket') \<Rightarrow> send_reply response reply (put_socket (ts_handle state) socket' r)
           | None \<Rightarrow> r\<lparr>sr_tcp := AList.update sid (state\<lparr>ts_recv := Some (max_len, response)\<rparr>) (sr_tcp r)\<rparr>))"

definition tcp_shutdown_command ::
  "('i, 's) smoltcp \<Rightarrow> u64 \<Rightarrow> nat \<Rightarrow> ('i, 's, 'hs) stack_runtime \<Rightarrow> ('i, 's, 'hs) stack_runtime option" where
  "tcp_shutdown_command sm sid response r =
    (case map_of (sr_tcp r) sid of
       None \<Rightarrow> Some (send_reply response (ReplyUnit (Inl StackUnknownSocket)) r)
     | Some state \<Rightarrow>
        (case get_socket KTcp (ts_handle state) r of
           None \<Rightarrow> None
         | Some socket \<Rightarrow>
            Some (send_reply response (ReplyUnit (Inr ())) (put_socket (ts_handle state) (sm_tcp_close sm socket) r))))"

definition tcp_accept_command ::
  "u64 \<Rightarrow> nat \<Rightarrow> ('i, 's, 'hs) stack_runtime \<Rightarrow> ('i, 's, 'hs) stack_runtime" where
  "tcp_accept_command sid response r =
    (case map_of (sr_listeners r) sid of
       None \<Rightarrow> send_reply response (ReplyAccept (Inl StackUnknownSocket)) r
     | Some state \<Rightarrow>
        if ls_accept state \<noteq> None then send_reply response (ReplyAccept (Inl StackOperationPending)) r
        else case ls_accepted state of
          stream # rest \<Rightarrow>
           send_reply response (ReplyAccept (Inr stream))
             (r\<lparr>sr_listeners := AList.update sid (state\<lparr>ls_accepted := rest\<rparr>) (sr_listeners r)\<rparr>)
        | [] \<Rightarrow> r\<lparr>sr_listeners := AList.update sid (state\<lparr>ls_accept := Some response\<rparr>) (sr_listeners r)\<rparr>)"

definition udp_send_command ::
  "('i, 's) smoltcp \<Rightarrow> u64 \<Rightarrow> bytes \<Rightarrow> socket_addr \<Rightarrow> nat \<Rightarrow> ('i, 's, 'hs) stack_runtime \<Rightarrow>
   ('i, 's, 'hs) stack_runtime option" where
  "udp_send_command sm sid data target response r =
    (case map_of (sr_udp r) sid of
       None \<Rightarrow> Some (send_reply response (ReplySize (Inl StackUnknownSocket)) r)
     | Some state \<Rightarrow>
        (case get_socket KUdp (pk_handle state) r of
           None \<Rightarrow> None
         | Some socket \<Rightarrow>
            let (result, socket') = sm_udp_send sm data target socket
            in Some (send_reply response (ReplySize (map_sum StackSocket (\<lambda>_. length data) result))
                 (put_socket (pk_handle state) socket' r))))"

definition raw_send_command ::
  "('i, 's) smoltcp \<Rightarrow> u64 \<Rightarrow> bytes \<Rightarrow> nat \<Rightarrow> ('i, 's, 'hs) stack_runtime \<Rightarrow>
   ('i, 's, 'hs) stack_runtime option" where
  "raw_send_command sm sid packet response r =
    (case map_of (sr_raw r) sid of
       None \<Rightarrow> Some (send_reply response (ReplyUnit (Inl StackUnknownSocket)) r)
     | Some state \<Rightarrow>
        (case get_socket KRaw (pk_handle state) r of
           None \<Rightarrow> None
         | Some socket \<Rightarrow>
            let (result, socket') = sm_raw_send sm packet socket
            in Some (send_reply response (ReplyUnit (map_sum StackSocket id result))
                 (put_socket (pk_handle state) socket' r))))"

definition icmp_send_command ::
  "('i, 's) smoltcp \<Rightarrow> u64 \<Rightarrow> bytes \<Rightarrow> ip_addr \<Rightarrow> nat \<Rightarrow> ('i, 's, 'hs) stack_runtime \<Rightarrow>
   ('i, 's, 'hs) stack_runtime option" where
  "icmp_send_command sm sid payload target response r =
    (case map_of (sr_icmp r) sid of
       None \<Rightarrow> Some (send_reply response (ReplyUnit (Inl StackUnknownSocket)) r)
     | Some state \<Rightarrow>
        (case get_socket KIcmp (pk_handle state) r of
           None \<Rightarrow> None
         | Some socket \<Rightarrow>
            let (result, socket') = sm_icmp_send sm payload target socket
            in Some (send_reply response (ReplyUnit (map_sum StackSocket id result))
                 (put_socket (pk_handle state) socket' r))))"

text \<open>\<open>handle_command\<close>, with whether the loop ends.\<close>

fun stack_handle_command ::
  "('i, 's) smoltcp \<Rightarrow> stack_command \<Rightarrow> ('i, 's, 'hs) stack_runtime \<Rightarrow>
   (bool \<times> ('i, 's, 'hs) stack_runtime) option" where
  "stack_handle_command sm (Shutdown t) r = Some (True, send_reply t (ReplyUnit (Inr ())) r)"
| "stack_handle_command sm (Inject packet t) r = Some (False, inject_command packet t r)"
| "stack_handle_command sm (DialTcp remote t) r = map_option (Pair False) (dial_tcp_command sm remote t r)"
| "stack_handle_command sm (ListenTcp local t) r = Some (False, listen_tcp_command sm local t r)"
| "stack_handle_command sm (BindUdp local t) r = Some (False, bind_udp_command sm local t r)"
| "stack_handle_command sm (BindRaw version protocol t) r = Some (False, bind_raw_command sm version protocol t r)"
| "stack_handle_command sm (BindIcmp identifier t) r = Some (False, bind_icmp_command sm identifier t r)"
| "stack_handle_command sm (TcpSend sid data t) r = map_option (Pair False) (tcp_send_command sm sid data t r)"
| "stack_handle_command sm (TcpRecv sid max_len t) r = map_option (Pair False) (tcp_recv_command sm sid max_len t r)"
| "stack_handle_command sm (TcpShutdown sid t) r = map_option (Pair False) (tcp_shutdown_command sm sid t r)"
| "stack_handle_command sm (TcpAccept sid t) r = Some (False, tcp_accept_command sid t r)"
| "stack_handle_command sm (UdpSend sid data target t) r = map_option (Pair False) (udp_send_command sm sid data target t r)"
| "stack_handle_command sm (UdpRecv sid max_len t) r = map_option (Pair False) (udp_recv_command sm sid max_len t r)"
| "stack_handle_command sm (RawSend sid packet t) r = map_option (Pair False) (raw_send_command sm sid packet t r)"
| "stack_handle_command sm (RawRecv sid max_len t) r = map_option (Pair False) (raw_recv_command sm sid max_len t r)"
| "stack_handle_command sm (IcmpSend sid payload target t) r =
    map_option (Pair False) (icmp_send_command sm sid payload target t r)"
| "stack_handle_command sm (IcmpRecv sid max_len t) r = map_option (Pair False) (icmp_recv_command sm sid max_len t r)"

subsubsection \<open>Completion of pending operations\<close>

definition put_tcp :: "u64 \<Rightarrow> tcp_socket_state \<Rightarrow> ('i, 's, 'hs) stack_runtime \<Rightarrow> ('i, 's, 'hs) stack_runtime" where
  "put_tcp sid state r = r\<lparr>sr_tcp := AList.update sid state (sr_tcp r)\<rparr>"

definition complete_connect ::
  "('i, 's) smoltcp \<Rightarrow> u64 \<Rightarrow> 's \<Rightarrow> tcp_socket_state \<times> ('i, 's, 'hs) stack_runtime \<Rightarrow>
   tcp_socket_state \<times> ('i, 's, 'hs) stack_runtime" where
  "complete_connect sm sid socket = (\<lambda>(state, r).
    case ts_connect state of
      Some response \<Rightarrow>
       if sm_tcp_state sm socket = TcpEstablished
       then (state\<lparr>ts_connect := None\<rparr>, send_reply response (ReplyHandle (Inr sid)) r)
       else (state, r)
    | None \<Rightarrow> (state, r))"

definition complete_send ::
  "('i, 's) smoltcp \<Rightarrow> 's \<Rightarrow> tcp_socket_state \<times> ('i, 's, 'hs) stack_runtime \<Rightarrow>
   's \<times> tcp_socket_state \<times> ('i, 's, 'hs) stack_runtime" where
  "complete_send sm socket = (\<lambda>(state, r).
    case ts_send state of
      Some (data, response) \<Rightarrow>
       if sm_tcp_can_send sm socket
       then let (result, socket') = sm_tcp_send sm data socket
            in (socket', state\<lparr>ts_send := None\<rparr>, send_reply response (ReplySize (map_sum StackSocket id result)) r)
       else (socket, state, r)
    | None \<Rightarrow> (socket, state, r))"

definition complete_recv ::
  "('i, 's) smoltcp \<Rightarrow> 's \<times> tcp_socket_state \<times> ('i, 's, 'hs) stack_runtime \<Rightarrow>
   's \<times> tcp_socket_state \<times> ('i, 's, 'hs) stack_runtime" where
  "complete_recv sm = (\<lambda>(socket, state, r).
    case ts_recv state of
      Some (max_len, response) \<Rightarrow>
       (case tcp_receive sm max_len socket of
          Some (reply, socket') \<Rightarrow> (socket', state\<lparr>ts_recv := None\<rparr>, send_reply response reply r)
        | None \<Rightarrow> (socket, state, r))
    | None \<Rightarrow> (socket, state, r))"

definition complete_tcp ::
  "('i, 's) smoltcp \<Rightarrow> u64 \<Rightarrow> ('i, 's, 'hs) stack_runtime \<Rightarrow> ('i, 's, 'hs) stack_runtime option" where
  "complete_tcp sm sid r =
    (case map_of (sr_tcp r) sid of
       None \<Rightarrow> Some r
     | Some state \<Rightarrow>
        (case get_socket KTcp (ts_handle state) r of
           None \<Rightarrow> None
         | Some socket \<Rightarrow>
            let (socket', state', r') =
                  complete_recv sm (complete_send sm socket (complete_connect sm sid socket (state, r)))
            in Some (put_tcp sid state' (put_socket (ts_handle state) socket' r'))))"

text \<open>An established listener hands its socket to a new stream and listens with a new one; an id is
  taken for every listener, whether it is established or not.\<close>

definition complete_listener ::
  "('i, 's) smoltcp \<Rightarrow> u64 \<Rightarrow> ('i, 's, 'hs) stack_runtime \<Rightarrow> ('i, 's, 'hs) stack_runtime option" where
  "complete_listener sm sid r0 =
    (let (stream_id, r) = stack_next_id r0 in
     case map_of (sr_listeners r) sid of
       None \<Rightarrow> Some r
     | Some state \<Rightarrow>
        (case get_socket KTcp (ls_handle state) r of
           None \<Rightarrow> None
         | Some socket \<Rightarrow>
            if sm_tcp_state sm socket \<noteq> TcpEstablished then Some r
            else case sm_tcp_remote sm socket of
              None \<Rightarrow> Some r
            | Some remote \<Rightarrow>
               (case sm_tcp_listen sm (sr_socket_buffer r) (ls_local state) of
                  Inl _ \<Rightarrow> Some r
                | Inr replacement \<Rightarrow>
                   let (h, r1) = add_socket KTcp replacement r;
                       r2 = put_tcp stream_id
                         \<lparr>ts_handle = ls_handle state, ts_connect = None, ts_send = None, ts_recv = None\<rparr> r1;
                       state1 = state\<lparr>ls_handle := h\<rparr>
                   in Some (case ls_accept state of
                        Some response \<Rightarrow>
                         send_reply response (ReplyAccept (Inr (stream_id, remote)))
                           (r2\<lparr>sr_listeners := AList.update sid (state1\<lparr>ls_accept := None\<rparr>) (sr_listeners r2)\<rparr>)
                      | None \<Rightarrow>
                         r2\<lparr>sr_listeners := AList.update sid
                           (state1\<lparr>ls_accepted := ls_accepted state @ [(stream_id, remote)]\<rparr>) (sr_listeners r2)\<rparr>))))"

definition complete_packet ::
  "('i, 's) smoltcp \<Rightarrow> socket_kind \<Rightarrow> u64 \<Rightarrow> ('i, 's, 'hs) stack_runtime \<Rightarrow>
   ('i, 's, 'hs) stack_runtime option" where
  "complete_packet sm kind sid r =
    (case map_of (packet_states kind r) sid of
       None \<Rightarrow> Some r
     | Some state \<Rightarrow>
        (case pk_recv state of
           None \<Rightarrow> Some r
         | Some (max_len, response) \<Rightarrow>
            (case get_socket kind (pk_handle state) r of
               None \<Rightarrow> None
             | Some socket \<Rightarrow>
                Some (case packet_receive sm kind max_len socket of
                  Some (reply, socket') \<Rightarrow>
                   send_reply response reply
                     (set_packet_state kind sid (state\<lparr>pk_recv := None\<rparr>) (put_socket (pk_handle state) socket' r))
                | None \<Rightarrow> r))))"

definition complete_udp where "complete_udp sm = complete_packet sm KUdp"
definition complete_raw where "complete_raw sm = complete_packet sm KRaw"
definition complete_icmp where "complete_icmp sm = complete_packet sm KIcmp"

text \<open>The loops over the tables.\<close>

fun each :: "('k \<Rightarrow> 'a \<Rightarrow> 'a option) \<Rightarrow> 'k list \<Rightarrow> 'a \<Rightarrow> 'a option" where
  "each f [] r = Some r"
| "each f (k # ks) r = Option.bind (f k r) (each f ks)"

definition complete_pending ::
  "('i, 's) smoltcp \<Rightarrow> ('i, 's, 'hs) stack_runtime \<Rightarrow> ('i, 's, 'hs) stack_runtime option" where
  "complete_pending sm r =
    Option.bind (each (complete_tcp sm) (map fst (sr_tcp r)) r) (\<lambda>r.
    Option.bind (each (complete_listener sm) (map fst (sr_listeners r)) r) (\<lambda>r.
    Option.bind (each (complete_udp sm) (map fst (sr_udp r)) r) (\<lambda>r.
    Option.bind (each (complete_raw sm) (map fst (sr_raw r)) r) (\<lambda>r.
    each (complete_icmp sm) (map fst (sr_icmp r)) r))))"

subsubsection \<open>Polling and the loop\<close>

definition stack_poll :: "('i, 's) smoltcp \<Rightarrow> nat \<Rightarrow> ('i, 's, 'hs) stack_runtime \<Rightarrow> ('i, 's, 'hs) stack_runtime" where
  "stack_poll sm now r =
    (let (us, interface, sockets) = sm_poll sm now (vd_rx (sr_device r)) (sr_interface r) (sr_sockets r)
     in r\<lparr>sr_device := device_uses us (sr_device r), sr_interface := interface, sr_sockets := sockets\<rparr>)"

definition stack_poll_delay :: "('i, 's) smoltcp \<Rightarrow> nat \<Rightarrow> ('i, 's, 'hs) stack_runtime \<Rightarrow> nat" where
  "stack_poll_delay sm now r =
    (if vd_rx (sr_device r) \<noteq> [] \<or> vd_tx (sr_device r) \<noteq> [] then STACK_POLL_MIN_INTERVAL
     else let delay = (case sm_poll_delay sm now (sr_interface r) (sr_sockets r) of
            None \<Rightarrow> STACK_POLL_IDLE_INTERVAL | Some delay \<Rightarrow> delay)
       in max STACK_POLL_MIN_INTERVAL (min delay STACK_POLL_IDLE_INTERVAL))"

fun flush_packets :: "'hs node_env \<Rightarrow> bytes list \<Rightarrow> 'hs node \<Rightarrow> 'hs node option" where
  "flush_packets env [] node = Some node"
| "flush_packets env (packet # packets) node =
    Option.bind (send_ip env packet node) (\<lambda>(_, node'). flush_packets env packets node')"

definition drained :: "virtual_device \<Rightarrow> virtual_device" where
  "drained d = d\<lparr>vd_tx := []\<rparr>"

definition flush_device ::
  "'hs node_env \<Rightarrow> ('i, 's, 'hs) stack_runtime \<Rightarrow> ('i, 's, 'hs) stack_runtime option" where
  "flush_device env r =
    map_option (\<lambda>node. r\<lparr>sr_node := node, sr_device := drained (sr_device r)\<rparr>)
      (flush_packets env (vd_tx (sr_device r)) (sr_node r))"

text \<open>The branches of the \<open>select!\<close>: a command (\<open>None\<close> when every handle is gone), an event of the
  node, and the poll timer.\<close>

datatype stack_input = InCommand "stack_command option" | InEvent | InPoll nat

definition stack_event :: "('i, 's, 'hs) stack_runtime \<Rightarrow> bool \<times> ('i, 's, 'hs) stack_runtime" where
  "stack_event r =
    (let (event, node) = next_event (sr_node r); r1 = r\<lparr>sr_node := node\<rparr>
     in case event of
          Some (IpPacketEvent _ packet) \<Rightarrow> (False, r1\<lparr>sr_device := snd (push_rx (ip_bytes packet) (sr_device r1))\<rparr>)
        | Some (TransportFailed _ _) \<Rightarrow> (True, r1)
        | Some _ \<Rightarrow> (False, r1)
        | None \<Rightarrow> (True, r1))"

fun stack_select ::
  "('i, 's) smoltcp \<Rightarrow> stack_input \<Rightarrow> ('i, 's, 'hs) stack_runtime \<Rightarrow>
   (bool \<times> ('i, 's, 'hs) stack_runtime) option" where
  "stack_select sm (InCommand None) r = Some (True, r)"
| "stack_select sm (InCommand (Some command)) r = stack_handle_command sm command r"
| "stack_select sm InEvent r = Some (stack_event r)"
| "stack_select sm (InPoll now) r = Some (False, stack_poll sm now r)"

definition stack_turn ::
  "'hs node_env \<Rightarrow> ('i, 's) smoltcp \<Rightarrow> stack_input \<Rightarrow> ('i, 's, 'hs) stack_runtime \<Rightarrow>
   (bool \<times> ('i, 's, 'hs) stack_runtime) option" where
  "stack_turn env sm input r =
    Option.bind (stack_select sm input r) (\<lambda>(stop, r1).
      if stop then Some (True, r1\<lparr>sr_node := node_shutdown (sr_node r1)\<rparr>)
      else map_option (Pair False) (Option.bind (complete_pending sm r1) (flush_device env)))"

fun stack_run ::
  "'hs node_env \<Rightarrow> ('i, 's) smoltcp \<Rightarrow> stack_input list \<Rightarrow> ('i, 's, 'hs) stack_runtime \<Rightarrow>
   (bool \<times> ('i, 's, 'hs) stack_runtime) option" where
  "stack_run env sm [] r = Some (False, r)"
| "stack_run env sm (input # inputs) r =
    Option.bind (stack_turn env sm input r) (\<lambda>(stop, r').
      if stop then Some (True, r') else stack_run env sm inputs r')"

subsection \<open>Requests, pending and answered\<close>

fun token :: "nat option \<Rightarrow> nat multiset" where
  "token None = {#}"
| "token (Some t) = {#t#}"

definition tcp_pending :: "tcp_socket_state \<Rightarrow> nat multiset" where
  "tcp_pending state = token (ts_connect state) + token (map_option snd (ts_send state)) + token (map_option snd (ts_recv state))"

definition listener_pending :: "listener_state \<Rightarrow> nat multiset" where
  "listener_pending state = token (ls_accept state)"

definition packet_pending :: "packet_state \<Rightarrow> nat multiset" where
  "packet_pending state = token (map_option snd (pk_recv state))"

definition pend :: "('v \<Rightarrow> nat multiset) \<Rightarrow> ('k \<times> 'v) list \<Rightarrow> nat multiset" where
  "pend f table = (\<Sum>(_, v) \<leftarrow> table. f v)"

definition pending :: "('i, 's, 'hs) stack_runtime \<Rightarrow> nat multiset" where
  "pending r = pend tcp_pending (sr_tcp r) + pend listener_pending (sr_listeners r)
    + pend packet_pending (sr_udp r) + pend packet_pending (sr_raw r) + pend packet_pending (sr_icmp r)"

definition answered :: "('i, 's, 'hs) stack_runtime \<Rightarrow> nat multiset" where
  "answered r = mset (map fst (sr_replies r))"

lemma pend_Nil [simp]: "pend f [] = {#}"
  by (simp add: pend_def)

lemma pend_update_new: "map_of table k = None \<Longrightarrow> pend f (AList.update k v table) = pend f table + f v"
  by (induction table) (auto simp: pend_def split: if_splits)

lemma pend_update_old:
  "map_of table k = Some w \<Longrightarrow> \<exists>rest. pend f table = rest + f w \<and> (\<forall>v. pend f (AList.update k v table) = rest + f v)"
proof (induction table)
  case (Cons e table)
  obtain k' v' where e: "e = (k', v')" by (rule prod.exhaust)
  show ?case
  proof (cases "k' = k")
    case True
    then show ?thesis using Cons.prems by (intro exI [of _ "pend f table"]) (simp add: e pend_def)
  next
    case False
    then obtain rest where "pend f table = rest + f w \<and> (\<forall>v. pend f (AList.update k v table) = rest + f v)"
      using Cons by (auto simp: e)
    then show ?thesis using False by (intro exI [of _ "f v' + rest"]) (simp add: e pend_def)
  qed
qed simp

subsection \<open>Invariant of the tables\<close>

text \<open>Every entry of a table has an id that was given out and a handle of a socket of its kind.\<close>

abbreviation kinds :: "('i, 's, 'hs) stack_runtime \<Rightarrow> socket_kind list" where
  "kinds r \<equiv> map fst (sr_sockets r)"

definition handle_ok :: "socket_kind list \<Rightarrow> socket_kind \<Rightarrow> nat \<Rightarrow> bool" where
  "handle_ok ks kind h \<longleftrightarrow> h < length ks \<and> ks ! h = kind"

definition table_ok :: "socket_kind list \<Rightarrow> u64 \<Rightarrow> socket_kind \<Rightarrow> ('v \<Rightarrow> nat) \<Rightarrow> (u64 \<times> 'v) list \<Rightarrow> bool" where
  "table_ok ks fresh_id kind handle table \<longleftrightarrow>
    (\<forall>(k, v) \<in> set table. k < fresh_id \<and> handle_ok ks kind (handle v))"

definition stack_inv :: "('i, 's, 'hs) stack_runtime \<Rightarrow> bool" where
  "stack_inv r \<longleftrightarrow> table_ok (kinds r) (sr_next_id r) KTcp ts_handle (sr_tcp r)
    \<and> table_ok (kinds r) (sr_next_id r) KTcp ls_handle (sr_listeners r)
    \<and> table_ok (kinds r) (sr_next_id r) KUdp pk_handle (sr_udp r)
    \<and> table_ok (kinds r) (sr_next_id r) KRaw pk_handle (sr_raw r)
    \<and> table_ok (kinds r) (sr_next_id r) KIcmp pk_handle (sr_icmp r)"

lemma table_lookup:
  "table_ok ks n kind handle table \<Longrightarrow> map_of table k = Some v \<Longrightarrow> k < n \<and> handle_ok ks kind (handle v)"
  by (auto simp: table_ok_def dest: map_of_SomeD)

lemma table_fresh: "table_ok ks n kind handle table \<Longrightarrow> map_of table n = None"
  by (force simp: table_ok_def map_of_eq_None_iff)

lemma table_update:
  "table_ok ks n kind handle table \<Longrightarrow> k < n \<Longrightarrow> handle_ok ks kind (handle v) \<Longrightarrow>
   table_ok ks n kind handle (AList.update k v table)"
  by (induction table) (auto simp: table_ok_def)

lemma table_mono:
  "table_ok ks n kind handle table \<Longrightarrow> n \<le> n' \<Longrightarrow> table_ok (ks @ extra) n' kind handle table"
  by (fastforce simp: table_ok_def handle_ok_def nth_append)

lemma get_socket_ok: "handle_ok (kinds r) kind h \<Longrightarrow> \<exists>socket. get_socket kind h r = Some socket"
  by (auto simp: handle_ok_def get_socket_def)

lemma get_socket_SomeD: "get_socket kind h r = Some socket \<Longrightarrow> handle_ok (kinds r) kind h"
  by (auto simp: handle_ok_def get_socket_def split: if_splits)

lemma kinds_put_socket [simp]: "kinds (put_socket h socket r) = kinds r"
  by (cases "h < length (sr_sockets r)") (auto simp: put_socket_def map_update intro!: nth_equalityI simp: nth_list_update)

lemma put_socket_frame [simp]:
  "sr_node (put_socket h socket r) = sr_node r" "sr_next_id (put_socket h socket r) = sr_next_id r"
  "sr_tcp (put_socket h socket r) = sr_tcp r" "sr_listeners (put_socket h socket r) = sr_listeners r"
  "sr_udp (put_socket h socket r) = sr_udp r" "sr_raw (put_socket h socket r) = sr_raw r"
  "sr_icmp (put_socket h socket r) = sr_icmp r" "sr_replies (put_socket h socket r) = sr_replies r"
  "sr_device (put_socket h socket r) = sr_device r" "sr_next_port (put_socket h socket r) = sr_next_port r"
  by (simp_all add: put_socket_def)

lemma send_reply_frame [simp]:
  "sr_node (send_reply t reply r) = sr_node r" "sr_next_id (send_reply t reply r) = sr_next_id r"
  "sr_tcp (send_reply t reply r) = sr_tcp r" "sr_listeners (send_reply t reply r) = sr_listeners r"
  "sr_udp (send_reply t reply r) = sr_udp r" "sr_raw (send_reply t reply r) = sr_raw r"
  "sr_icmp (send_reply t reply r) = sr_icmp r" "sr_sockets (send_reply t reply r) = sr_sockets r"
  "sr_device (send_reply t reply r) = sr_device r" "sr_next_port (send_reply t reply r) = sr_next_port r"
  "sr_replies (send_reply t reply r) = sr_replies r @ [(t, reply)]"
  by (simp_all add: send_reply_def)

text \<open>One operation: it keeps the invariant, takes up the requests \<open>new\<close>, takes at most \<open>n\<close> ids and
  leaves the node, the bounds of the device and the range of the port counter alone.\<close>

definition device_ok :: "virtual_device \<Rightarrow> bool" where
  "device_ok d \<longleftrightarrow> length (vd_rx d) \<le> DEVICE_QUEUE_LIMIT \<and> length (vd_tx d) \<le> DEVICE_QUEUE_LIMIT
    \<and> (\<forall>packet \<in> set (vd_rx d) \<union> set (vd_tx d). length packet \<le> vd_mtu d)"

definition serves :: "nat \<Rightarrow> nat multiset \<Rightarrow> ('i, 's, 'hs) stack_runtime \<Rightarrow> ('i, 's, 'hs) stack_runtime \<Rightarrow> bool" where
  "serves n new r r' \<longleftrightarrow> stack_inv r' \<and> answered r' + pending r' = answered r + pending r + new
    \<and> unat (sr_next_id r') \<le> unat (sr_next_id r) + n
    \<and> length (sr_listeners r') \<le> length (sr_listeners r) + n
    \<and> sr_node r' = sr_node r \<and> (device_ok (sr_device r) \<longrightarrow> device_ok (sr_device r'))
    \<and> (EPHEMERAL_PORT_START \<le> sr_next_port r \<longrightarrow> EPHEMERAL_PORT_START \<le> sr_next_port r')"

lemma serves_trans: "serves n a r s \<Longrightarrow> serves m b s t \<Longrightarrow> serves (n + m) (a + b) r t"
  by (auto simp: serves_def ac_simps)

lemma serves_refl: "stack_inv r \<Longrightarrow> serves 0 {#} r r"
  by (simp add: serves_def)

lemma serves_more: "serves n new r r' \<Longrightarrow> n \<le> m \<Longrightarrow> serves m new r r'"
  by (auto simp: serves_def)

lemma serves_reply: "stack_inv r \<Longrightarrow> serves 0 {#t#} r (send_reply t reply r)"
  by (simp add: serves_def stack_inv_def answered_def pending_def)

lemma serves_put_socket: "stack_inv r \<Longrightarrow> serves 0 {#} r (put_socket h socket r)"
  by (simp add: serves_def stack_inv_def answered_def pending_def)

lemma serves_put_reply: "stack_inv r \<Longrightarrow> serves 0 {#t#} r (send_reply t reply (put_socket h socket r))"
  by (simp add: serves_def stack_inv_def answered_def pending_def)

subsection \<open>Every command serves its request\<close>

definition room :: "nat \<Rightarrow> ('i, 's, 'hs) stack_runtime \<Rightarrow> bool" where
  "room n r \<longleftrightarrow> unat (sr_next_id r) + n < 2 ^ 64"

lemma next_id_step:
  assumes "room 1 r"
  shows "sr_next_id r < max (sr_next_id r + 1) 1" "sr_next_id r \<le> max (sr_next_id r + 1) 1"
    "unat (max (sr_next_id r + 1) 1) = unat (sr_next_id r) + 1"
proof -
  have u: "unat (sr_next_id r + 1) = unat (sr_next_id r) + 1"
    using assms by (simp add: room_def unat_word_ariths)
  then have m: "max (sr_next_id r + 1) 1 = sr_next_id r + 1"
    by (metis Suc_eq_plus1 le_add2 max_absorb1 unat_1 word_le_nat_alt plus_1_eq_Suc)
  show "sr_next_id r < max (sr_next_id r + 1) 1" "sr_next_id r \<le> max (sr_next_id r + 1) 1"
    "unat (max (sr_next_id r + 1) 1) = unat (sr_next_id r) + 1"
    using u by (simp_all add: m word_less_nat_alt word_le_nat_alt)
qed

lemma handle_ok_append:
  "handle_ok ks kind h \<Longrightarrow> handle_ok (ks @ extra) kind h" "handle_ok (ks @ [kind]) kind (length ks)"
  by (simp_all add: handle_ok_def nth_append)

lemma table_later: "table_ok ks n kind handle table \<Longrightarrow> n \<le> n' \<Longrightarrow> table_ok ks n' kind handle table"
  using table_mono [where extra = "[]"] by fastforce

lemma stack_inv_tables:
  assumes "stack_inv r"
  shows "table_ok (kinds r) (sr_next_id r) KTcp ts_handle (sr_tcp r)"
    "table_ok (kinds r) (sr_next_id r) KTcp ls_handle (sr_listeners r)"
    "table_ok (kinds r) (sr_next_id r) KUdp pk_handle (sr_udp r)"
    "table_ok (kinds r) (sr_next_id r) KRaw pk_handle (sr_raw r)"
    "table_ok (kinds r) (sr_next_id r) KIcmp pk_handle (sr_icmp r)"
  using assms by (simp_all add: stack_inv_def)

lemma grown_tables:
  assumes "stack_inv r" "room 1 r"
  shows "table_ok (kinds r @ extra) (max (sr_next_id r + 1) 1) KTcp ts_handle (sr_tcp r)"
    "table_ok (kinds r @ extra) (max (sr_next_id r + 1) 1) KTcp ls_handle (sr_listeners r)"
    "table_ok (kinds r @ extra) (max (sr_next_id r + 1) 1) KUdp pk_handle (sr_udp r)"
    "table_ok (kinds r @ extra) (max (sr_next_id r + 1) 1) KRaw pk_handle (sr_raw r)"
    "table_ok (kinds r @ extra) (max (sr_next_id r + 1) 1) KIcmp pk_handle (sr_icmp r)"
  using table_mono [OF stack_inv_tables(1) [OF assms(1)] next_id_step(2) [OF assms(2)]]
    table_mono [OF stack_inv_tables(2) [OF assms(1)] next_id_step(2) [OF assms(2)]]
    table_mono [OF stack_inv_tables(3) [OF assms(1)] next_id_step(2) [OF assms(2)]]
    table_mono [OF stack_inv_tables(4) [OF assms(1)] next_id_step(2) [OF assms(2)]]
    table_mono [OF stack_inv_tables(5) [OF assms(1)] next_id_step(2) [OF assms(2)]] by blast+

lemmas later_tables = grown_tables [where extra = "[]", unfolded append_Nil2]

lemmas serves_defs = serves_def stack_inv_def stack_next_id_def answered_def pending_def add_socket_def

lemma serves_next_id: "stack_inv r \<Longrightarrow> room 1 r \<Longrightarrow> serves 1 {#} r (snd (stack_next_id r))"
  by (simp add: serves_defs next_id_step later_tables)

lemma serves_inject: "stack_inv r \<Longrightarrow> serves 0 {#t#} r (inject_command packet t r)"
  by (auto simp: serves_def stack_inv_def answered_def pending_def inject_command_def push_rx_def device_ok_def Let_def)

lemma tcp_uses_port_ok:
  assumes "\<forall>(k, st) \<in> set states. handle_ok (kinds r) KTcp (ts_handle st)"
  obtains used where "tcp_uses_port sm r candidate states = Some used"
proof -
  have "\<exists>used. tcp_uses_port sm r candidate states = Some used"
    using assms
  proof (induction states)
    case (Cons entry states)
    obtain k st where entry: "entry = (k, st)" by (rule prod.exhaust)
    obtain socket where "get_socket KTcp (ts_handle st) r = Some socket"
      using get_socket_ok [of r KTcp "ts_handle st"] Cons.prems by (auto simp: entry)
    then show ?case using Cons by (auto simp: entry)
  qed auto
  then show thesis using that by blast
qed

lemma next_port_after_range: "EPHEMERAL_PORT_START \<le> p \<Longrightarrow> EPHEMERAL_PORT_START \<le> next_port_after p"
proof -
  assume p: "EPHEMERAL_PORT_START \<le> p"
  show ?thesis
  proof (cases "p = EPHEMERAL_PORT_END")
    case False
    have "unat p \<noteq> 65535" using False by (simp add: word_unat_eq_iff EPHEMERAL_PORT_END_def)
    moreover have "unat p < 65536" using unsigned_less [of p] by simp
    ultimately have "unat p < 65535" by simp
    then have "unat (p + 1) = unat p + 1" by (simp add: unat_word_ariths)
    then show ?thesis using p False by (simp add: next_port_after_def word_le_nat_alt)
  qed (simp add: next_port_after_def)
qed

lemma allocate_port_loop_ok:
  "stack_inv r \<Longrightarrow> \<exists>result port. allocate_port_loop sm n r = Some (result, r\<lparr>sr_next_port := port\<rparr>)
    \<and> (EPHEMERAL_PORT_START \<le> sr_next_port r \<longrightarrow> EPHEMERAL_PORT_START \<le> port)"
proof (induction n arbitrary: r)
  case 0
  then show ?case by (auto intro: exI [of _ "sr_next_port r"])
next
  case (Suc n)
  let ?r = "r\<lparr>sr_next_port := next_port_after (sr_next_port r)\<rparr>"
  have "stack_inv ?r" using Suc.prems by (simp add: stack_inv_def)
  then obtain result port where rest: "allocate_port_loop sm n ?r = Some (result, r\<lparr>sr_next_port := port\<rparr>)"
      "EPHEMERAL_PORT_START \<le> next_port_after (sr_next_port r) \<longrightarrow> EPHEMERAL_PORT_START \<le> port"
    using Suc.IH [of ?r] by auto
  obtain used where "tcp_uses_port sm ?r (sr_next_port r) (sr_tcp r) = Some used"
    by (rule tcp_uses_port_ok [of "sr_tcp r" ?r sm "sr_next_port r"])
      (use Suc.prems in \<open>auto simp: stack_inv_def table_ok_def\<close>)
  then show ?case using rest next_port_after_range [of "sr_next_port r"] by (auto simp: Let_def)
qed

lemma serves_dial_tcp:
  assumes "stack_inv r" "room 1 r"
  shows "\<exists>r'. dial_tcp_command sm remote t r = Some r' \<and> serves 1 {#t#} r r'"
proof -
  let ?r = "r\<lparr>sr_next_id := max (sr_next_id r + 1) 1\<rparr>"
  have "stack_inv ?r" using serves_next_id [OF assms] by (simp add: serves_def stack_next_id_def)
  then obtain result port where port: "allocate_tcp_port sm ?r = Some (result, ?r\<lparr>sr_next_port := port\<rparr>)"
      "EPHEMERAL_PORT_START \<le> sr_next_port ?r \<longrightarrow> EPHEMERAL_PORT_START \<le> port"
    using allocate_port_loop_ok unfolding allocate_tcp_port_def by blast
  note tables = next_id_step [OF assms(2)] later_tables [OF assms(1,2)] grown_tables [OF assms(1,2)]
  show ?thesis
  proof (cases result)
    case (Inl e)
    then show ?thesis using port by (simp add: dial_tcp_command_def serves_defs tables)
  next
    case (Inr p)
    obtain c interface where c: "sm_tcp_connect sm (sr_socket_buffer r) remote p (sr_interface r) = (c, interface)"
      by (rule prod.exhaust)
    show ?thesis using port Inr c table_fresh [OF stack_inv_tables(1) [OF assms(1)]]
      by (cases c) (simp_all add: dial_tcp_command_def serves_defs tables pend_update_new tcp_pending_def handle_ok_append(2)
          [where ks = "kinds r", simplified] table_update)
  qed
qed

lemma update_length_new: "map_of table k = None \<Longrightarrow> length (AList.update k v table) = length table + 1"
  by (induction table) (auto split: if_splits)

lemma update_length_old: "map_of table k = Some w \<Longrightarrow> length (AList.update k v table) = length table"
  by (induction table) (auto split: if_splits)

lemma serves_listen_tcp:
  assumes "stack_inv r" "room 1 r"
  shows "serves 1 {#t#} r (listen_tcp_command sm local t r)"
proof -
  note tables = next_id_step [OF assms(2)] later_tables [OF assms(1,2)] grown_tables [OF assms(1,2)]
  show ?thesis using table_fresh [OF stack_inv_tables(2) [OF assms(1)]]
    by (cases "sm_tcp_listen sm (sr_socket_buffer r) local")
      (simp_all add: listen_tcp_command_def serves_defs tables pend_update_new listener_pending_def update_length_new
        handle_ok_append(2) [where ks = "kinds r", simplified] table_update)
qed

lemma serves_bind_packet:
  assumes "stack_inv r" "room 1 r" "kind \<noteq> KTcp"
  shows "serves 1 {#t#} r (bind_packet_socket kind result t r)"
proof -
  note tables = next_id_step [OF assms(2)] later_tables [OF assms(1,2)] grown_tables [OF assms(1,2)]
  note new = stack_inv_tables [OF assms(1), THEN table_fresh]
  show ?thesis using assms(3) new
    by (cases result; cases kind)
      (simp_all add: bind_packet_socket_def serves_defs tables pend_update_new packet_pending_def
        handle_ok_append(2) [where ks = "kinds r", simplified] table_update)
qed

lemma serves_put_tcp:
  assumes "stack_inv r" "map_of (sr_tcp r) sid = Some state" "ts_handle state' = ts_handle state"
    "tcp_pending state' + answers = tcp_pending state + new" "sr_replies r' = sr_replies r @ replies"
    "mset (map fst replies) = answers" "kinds r' = kinds r" "sr_next_id r' = sr_next_id r" "sr_tcp r' = sr_tcp r"
    "sr_listeners r' = sr_listeners r" "sr_udp r' = sr_udp r" "sr_raw r' = sr_raw r" "sr_icmp r' = sr_icmp r"
    "sr_node r' = sr_node r" "sr_device r' = sr_device r" "sr_next_port r' = sr_next_port r"
  shows "serves 0 new r (put_tcp sid state' r')"
proof -
  obtain rest where rest: "pend tcp_pending (sr_tcp r) = rest + tcp_pending state"
    "\<And>v. pend tcp_pending (AList.update sid v (sr_tcp r)) = rest + tcp_pending v"
    using pend_update_old [OF assms(2), of tcp_pending] by blast
  have "table_ok (kinds r) (sr_next_id r) KTcp ts_handle (AList.update sid state' (sr_tcp r))"
    using table_lookup [OF stack_inv_tables(1) [OF assms(1)] assms(2)] assms(3)
    by (intro table_update stack_inv_tables(1) [OF assms(1)]) simp_all
  moreover have "rest + tcp_pending state' + answers = rest + tcp_pending state + new"
    using assms(4) by (simp add: add.assoc)
  ultimately show ?thesis using assms(1,6-)
    by (simp add: serves_def stack_inv_def answered_def pending_def put_tcp_def assms(5) rest ac_simps)
qed

lemma serves_tcp_send:
  assumes "stack_inv r"
  shows "\<exists>r'. tcp_send_command sm sid data t r = Some r' \<and> serves 0 {#t#} r r'"
proof (cases "map_of (sr_tcp r) sid")
  case None
  then show ?thesis using serves_reply [OF assms] by (simp add: tcp_send_command_def)
next
  case (Some state)
  obtain socket where "get_socket KTcp (ts_handle state) r = Some socket"
    using get_socket_ok table_lookup [OF stack_inv_tables(1) [OF assms] Some] by blast
  moreover have "serves 0 {#t#} r (put_tcp sid (state\<lparr>ts_send := Some (data, t)\<rparr>) r)" if "ts_send state = None"
    by (rule serves_put_tcp [OF assms Some, of _ "{#}" _ _ "[]"]) (simp_all add: tcp_pending_def that)
  ultimately show ?thesis using serves_reply [OF assms] serves_put_reply [OF assms]
    by (cases "ts_send state") (simp_all add: tcp_send_command_def Some put_tcp_def case_prod_beta)
qed

lemma serves_tcp_recv:
  assumes "stack_inv r"
  shows "\<exists>r'. tcp_recv_command sm sid max_len t r = Some r' \<and> serves 0 {#t#} r r'"
proof (cases "map_of (sr_tcp r) sid")
  case None
  then show ?thesis using serves_reply [OF assms] by (simp add: tcp_recv_command_def)
next
  case (Some state)
  obtain socket where "get_socket KTcp (ts_handle state) r = Some socket"
    using get_socket_ok table_lookup [OF stack_inv_tables(1) [OF assms] Some] by blast
  moreover have "serves 0 {#t#} r (put_tcp sid (state\<lparr>ts_recv := Some (max_len, t)\<rparr>) r)" if "ts_recv state = None"
    by (rule serves_put_tcp [OF assms Some, of _ "{#}" _ _ "[]"]) (simp_all add: tcp_pending_def that)
  ultimately show ?thesis using serves_reply [OF assms] serves_put_reply [OF assms]
    by (cases "tcp_receive sm max_len socket"; cases "ts_recv state")
      (simp_all add: tcp_recv_command_def Some put_tcp_def case_prod_beta)
qed

lemma serves_tcp_shutdown:
  assumes "stack_inv r"
  shows "\<exists>r'. tcp_shutdown_command sm sid t r = Some r' \<and> serves 0 {#t#} r r'"
proof (cases "map_of (sr_tcp r) sid")
  case None
  then show ?thesis using serves_reply [OF assms] by (simp add: tcp_shutdown_command_def)
next
  case (Some state)
  obtain socket where "get_socket KTcp (ts_handle state) r = Some socket"
    using get_socket_ok table_lookup [OF stack_inv_tables(1) [OF assms] Some] by blast
  then show ?thesis using serves_put_reply [OF assms] by (simp add: tcp_shutdown_command_def Some)
qed

lemma serves_tcp_accept:
  assumes "stack_inv r"
  shows "serves 0 {#t#} r (tcp_accept_command sid t r)"
proof (cases "map_of (sr_listeners r) sid")
  case None
  then show ?thesis using serves_reply [OF assms] by (simp add: tcp_accept_command_def)
next
  case (Some state)
  obtain rest where rest: "pend listener_pending (sr_listeners r) = rest + listener_pending state"
    "\<And>v. pend listener_pending (AList.update sid v (sr_listeners r)) = rest + listener_pending v"
    using pend_update_old [OF Some, of listener_pending] by blast
  have table: "table_ok (kinds r) (sr_next_id r) KTcp ls_handle (AList.update sid v (sr_listeners r))"
    if "ls_handle v = ls_handle state" for v
    using table_lookup [OF stack_inv_tables(2) [OF assms] Some] that
    by (intro table_update stack_inv_tables(2) [OF assms]) simp_all
  show ?thesis using serves_reply [OF assms] stack_inv_tables [OF assms]
    by (simp add: tcp_accept_command_def Some serves_def stack_inv_def answered_def pending_def rest table
        listener_pending_def update_length_old [OF Some] split: list.split)
qed

lemma packet_states_table:
  "stack_inv r \<Longrightarrow> table_ok (kinds r) (sr_next_id r) kind pk_handle (packet_states kind r)"
  by (cases kind) (simp_all add: stack_inv_tables, simp add: table_ok_def)

lemma serves_packet_recv:
  assumes "stack_inv r"
  shows "\<exists>r'. packet_recv_command sm kind sid max_len t r = Some r' \<and> serves 0 {#t#} r r'"
proof (cases "map_of (packet_states kind r) sid")
  case None
  then show ?thesis using serves_reply [OF assms] by (simp add: packet_recv_command_def)
next
  case (Some state)
  note ok = table_lookup [OF packet_states_table [OF assms] Some]
  obtain socket where socket: "get_socket kind (pk_handle state) r = Some socket" using get_socket_ok ok by blast
  let ?new = "state\<lparr>pk_recv := Some (max_len, t)\<rparr>"
  obtain rest where rest: "pend packet_pending (packet_states kind r) = rest + packet_pending state"
    "\<And>v. pend packet_pending (AList.update sid v (packet_states kind r)) = rest + packet_pending v"
    using pend_update_old [OF Some, of packet_pending] by blast
  have table: "table_ok (kinds r) (sr_next_id r) kind pk_handle (AList.update sid ?new (packet_states kind r))"
    using ok by (intro table_update packet_states_table [OF assms]) simp_all
  have "serves 0 {#t#} r (set_packet_state kind sid ?new r)" if "pk_recv state = None"
    using stack_inv_tables [OF assms] table rest that Some
    by (cases kind) (simp_all add: serves_def stack_inv_def answered_def pending_def packet_pending_def)
  then show ?thesis using serves_reply [OF assms] serves_put_reply [OF assms] socket
    by (cases "packet_receive sm kind max_len socket"; cases "pk_recv state")
      (simp_all add: packet_recv_command_def Some case_prod_beta)
qed

lemma serves_packet_send:
  assumes "stack_inv r"
  shows "\<exists>r'. udp_send_command sm sid data target t r = Some r' \<and> serves 0 {#t#} r r'"
    "\<exists>r'. raw_send_command sm sid data t r = Some r' \<and> serves 0 {#t#} r r'"
    "\<exists>r'. icmp_send_command sm sid data address t r = Some r' \<and> serves 0 {#t#} r r'"
proof -
  have socket: "\<exists>socket. get_socket kind (pk_handle state) r = Some socket"
    if "map_of (packet_states kind r) sid = Some state" for kind state
    using get_socket_ok table_lookup [OF packet_states_table [OF assms] that] by blast
  note answer = serves_reply [OF assms] serves_put_reply [OF assms]
  show "\<exists>r'. udp_send_command sm sid data target t r = Some r' \<and> serves 0 {#t#} r r'"
    using socket [of KUdp] by (cases "map_of (sr_udp r) sid") (auto simp: udp_send_command_def answer case_prod_beta)
  show "\<exists>r'. raw_send_command sm sid data t r = Some r' \<and> serves 0 {#t#} r r'"
    using socket [of KRaw] by (cases "map_of (sr_raw r) sid") (auto simp: raw_send_command_def answer case_prod_beta)
  show "\<exists>r'. icmp_send_command sm sid data address t r = Some r' \<and> serves 0 {#t#} r r'"
    using socket [of KIcmp] by (cases "map_of (sr_icmp r) sid") (auto simp: icmp_send_command_def answer case_prod_beta)
qed

lemma serves_ex_more: "\<exists>r'. x = Some r' \<and> serves 0 new r r' \<Longrightarrow>
    \<exists>stop r'. map_option (Pair False) x = Some (stop, r') \<and> serves 1 new r r'"
  "\<exists>r'. x = Some r' \<and> serves 1 new r r' \<Longrightarrow>
    \<exists>stop r'. map_option (Pair False) x = Some (stop, r') \<and> serves 1 new r r'"
  by (auto intro: serves_more)

lemma serves_command:
  assumes "stack_inv r" "room 1 r"
  shows "\<exists>stop r'. stack_handle_command sm command r = Some (stop, r') \<and> serves 1 {#command_reply command#} r r'"
proof -
  note now = serves_listen_tcp [OF assms] serves_bind_packet [OF assms] serves_more [OF serves_reply [OF assms(1)], of 1]
    serves_more [OF serves_inject [OF assms(1)], of 1] serves_more [OF serves_tcp_accept [OF assms(1)], of 1]
  note later = serves_ex_more(2) [OF serves_dial_tcp [OF assms]]
    serves_ex_more(1) [OF serves_tcp_send [OF assms(1)]] serves_ex_more(1) [OF serves_tcp_recv [OF assms(1)]]
    serves_ex_more(1) [OF serves_tcp_shutdown [OF assms(1)]] serves_ex_more(1) [OF serves_packet_recv [OF assms(1)]]
    serves_ex_more(1) [OF serves_packet_send(1) [OF assms(1)]] serves_ex_more(1) [OF serves_packet_send(2) [OF assms(1)]]
    serves_ex_more(1) [OF serves_packet_send(3) [OF assms(1)]]
  show ?thesis
    by (cases command; simp only: stack_handle_command.simps command_reply.simps bind_udp_command_def bind_raw_command_def
        bind_icmp_command_def udp_recv_command_def raw_recv_command_def icmp_recv_command_def; (rule later | (insert now, auto)))
qed

subsection \<open>Completion serves no new request\<close>

lemma complete_tcp_serves:
  assumes "stack_inv r"
  shows "\<exists>r'. complete_tcp sm sid r = Some r' \<and> serves 0 {#} r r' \<and> length (sr_listeners r') = length (sr_listeners r)"
proof (cases "map_of (sr_tcp r) sid")
  case None
  then show ?thesis using serves_refl [OF assms] by (simp add: complete_tcp_def)
next
  case (Some state)
  obtain socket where socket: "get_socket KTcp (ts_handle state) r = Some socket"
    using get_socket_ok table_lookup [OF stack_inv_tables(1) [OF assms] Some] by blast
  obtain state1 r1 where 1: "complete_connect sm sid socket (state, r) = (state1, r1)" by (rule prod.exhaust)
  obtain socket2 state2 r2 where 2: "complete_send sm socket (state1, r1) = (socket2, state2, r2)" by (rule prod_cases3)
  obtain socket3 state3 r3 where 3: "complete_recv sm (socket2, state2, r2) = (socket3, state3, r3)" by (rule prod_cases3)
  have a: "r1 = r\<lparr>sr_replies := sr_replies r1\<rparr> \<and> ts_handle state1 = ts_handle state
      \<and> (\<exists>replies. sr_replies r1 = sr_replies r @ replies \<and> tcp_pending state1 + mset (map fst replies) = tcp_pending state)"
    using 1 by (auto simp: complete_connect_def tcp_pending_def send_reply_def split: option.splits if_splits)
  have b: "r2 = r1\<lparr>sr_replies := sr_replies r2\<rparr> \<and> ts_handle state2 = ts_handle state1
      \<and> (\<exists>replies. sr_replies r2 = sr_replies r1 @ replies \<and> tcp_pending state2 + mset (map fst replies) = tcp_pending state1)"
    using 2 by (auto simp: complete_send_def tcp_pending_def send_reply_def split: option.splits if_splits prod.splits)
  have c: "r3 = r2\<lparr>sr_replies := sr_replies r3\<rparr> \<and> ts_handle state3 = ts_handle state2
      \<and> (\<exists>replies. sr_replies r3 = sr_replies r2 @ replies \<and> tcp_pending state3 + mset (map fst replies) = tcp_pending state2)"
    using 3 by (auto simp: complete_recv_def tcp_pending_def send_reply_def split: option.splits if_splits prod.splits)
  obtain ra rb rc where replies: "sr_replies r1 = sr_replies r @ ra" "tcp_pending state1 + mset (map fst ra) = tcp_pending state"
      "sr_replies r2 = sr_replies r1 @ rb" "tcp_pending state2 + mset (map fst rb) = tcp_pending state1"
      "sr_replies r3 = sr_replies r2 @ rc" "tcp_pending state3 + mset (map fst rc) = tcp_pending state2"
    using a b c by blast
  have total: "tcp_pending state3 + mset (map fst (ra @ rb @ rc)) = tcp_pending state"
    by (simp add: replies(2,4,6) [symmetric] ac_simps)
  define rs where "rs = sr_replies r3"
  have "r3 = r\<lparr>sr_replies := rs\<rparr>"
    using a b c unfolding rs_def by (metis (no_types, lifting) stack_runtime.update_convs(13) stack_runtime.surjective)
  then have "serves 0 {#} r (put_tcp sid state3 (put_socket (ts_handle state) socket3 r3))"
    using replies(1,3,5) a b c total
    by (intro serves_put_tcp [OF assms Some, of _ "mset (map fst (ra @ rb @ rc))" _ _ "ra @ rb @ rc"])
      (simp_all add: rs_def)
  moreover have "length (sr_listeners (put_tcp sid state3 (put_socket (ts_handle state) socket3 r3))) = length (sr_listeners r)"
    using \<open>r3 = r\<lparr>sr_replies := rs\<rparr>\<close> by (simp add: put_tcp_def)
  ultimately show ?thesis by (simp add: complete_tcp_def Some socket 1 2 3)
qed

lemma complete_listener_serves:
  assumes "stack_inv r" "room 1 r"
  shows "\<exists>r'. complete_listener sm sid r = Some r' \<and> serves 1 {#} r r' \<and> length (sr_listeners r') = length (sr_listeners r)"
proof (cases "map_of (sr_listeners r) sid")
  case None
  then show ?thesis using serves_next_id [OF assms] by (simp add: complete_listener_def stack_next_id_def)
next
  case (Some state)
  note tables = next_id_step [OF assms(2)] later_tables [OF assms] grown_tables [OF assms]
  note found = table_lookup [OF stack_inv_tables(2) [OF assms(1)] Some]
  obtain socket where socket: "get_socket KTcp (ls_handle state) (r\<lparr>sr_next_id := max (sr_next_id r + 1) 1\<rparr>) = Some socket"
    using found get_socket_ok [of "r\<lparr>sr_next_id := max (sr_next_id r + 1) 1\<rparr>"] by auto
  obtain rest where rest: "pend listener_pending (sr_listeners r) = rest + listener_pending state"
    "\<And>v. pend listener_pending (AList.update sid v (sr_listeners r)) = rest + listener_pending v"
    using pend_update_old [OF Some, of listener_pending] by blast
  have less: "sid < max (sr_next_id r + 1) 1" using found tables(1) by (meson less_trans)
  have h: "handle_ok (kinds r @ [KTcp]) KTcp (ls_handle state)" using found by (simp add: handle_ok_append)
  have table: "table_ok (kinds r @ [KTcp]) (max (sr_next_id r + 1) 1) KTcp ls_handle (AList.update sid v (sr_listeners r))"
    if "ls_handle v = length (sr_sockets r)" for v
    using less handle_ok_append(2) [of "kinds r"] that by (intro table_update tables) simp_all
  have new: "map_of (sr_tcp r) (sr_next_id r) = None" by (rule table_fresh [OF stack_inv_tables(1) [OF assms(1)]])
  show ?thesis using serves_next_id [OF assms] socket
    by (cases "sm_tcp_remote sm socket"; cases "sm_tcp_listen sm (sr_socket_buffer r) (ls_local state)"; cases "ls_accept state")
      (auto simp: complete_listener_def Some serves_defs tables rest put_tcp_def pend_update_new [OF new] tcp_pending_def
        listener_pending_def table h table_update update_length_old [OF Some])
qed

lemma complete_packet_serves:
  assumes "stack_inv r"
  shows "\<exists>r'. complete_packet sm kind sid r = Some r' \<and> serves 0 {#} r r' \<and> length (sr_listeners r') = length (sr_listeners r)"
proof (cases "map_of (packet_states kind r) sid")
  case None
  then show ?thesis using serves_refl [OF assms] by (simp add: complete_packet_def)
next
  case (Some state)
  note ok = table_lookup [OF packet_states_table [OF assms] Some]
  obtain socket where socket: "get_socket kind (pk_handle state) r = Some socket" using get_socket_ok ok by blast
  let ?new = "state\<lparr>pk_recv := None\<rparr>"
  obtain rest where rest: "pend packet_pending (packet_states kind r) = rest + packet_pending state"
    "\<And>v. pend packet_pending (AList.update sid v (packet_states kind r)) = rest + packet_pending v"
    using pend_update_old [OF Some, of packet_pending] by blast
  have table: "table_ok (kinds r) (sr_next_id r) kind pk_handle (AList.update sid ?new (packet_states kind r))"
    using ok by (intro table_update packet_states_table [OF assms]) simp_all
  have "serves 0 {#} r (send_reply t reply (set_packet_state kind sid ?new (put_socket (pk_handle state) socket' r)))"
      "length (sr_listeners (send_reply t reply (set_packet_state kind sid ?new (put_socket (pk_handle state) socket' r))))
        = length (sr_listeners r)"
    if "pk_recv state = Some (max_len, t)" for max_len t reply socket'
    using stack_inv_tables [OF assms] table rest that Some
    by (cases kind; simp add: serves_def stack_inv_def answered_def pending_def packet_pending_def)+
  then show ?thesis using serves_refl [OF assms] socket
    by (cases "pk_recv state") (auto simp: complete_packet_def Some split: option.split)
qed

lemma each_serves:
  assumes step: "\<And>k r. stack_inv r \<Longrightarrow> room n r \<Longrightarrow>
      \<exists>r'. f k r = Some r' \<and> serves n {#} r r' \<and> length (sr_listeners r') = length (sr_listeners r)"
  shows "stack_inv r \<Longrightarrow> room (length ks * n) r \<Longrightarrow>
    \<exists>r'. each f ks r = Some r' \<and> serves (length ks * n) {#} r r' \<and> length (sr_listeners r') = length (sr_listeners r)"
proof (induction ks arbitrary: r)
  case Nil
  then show ?case by (simp add: serves_refl)
next
  case (Cons k ks)
  have "room n r" using Cons.prems(2) by (simp add: room_def)
  then obtain r1 where r1: "f k r = Some r1" "serves n {#} r r1" "length (sr_listeners r1) = length (sr_listeners r)"
    using step [OF Cons.prems(1)] by blast
  then have "stack_inv r1" "room (length ks * n) r1" using Cons.prems(2) by (auto simp: serves_def room_def)
  then obtain r2 where "each f ks r1 = Some r2" "serves (length ks * n) {#} r1 r2"
      "length (sr_listeners r2) = length (sr_listeners r1)" using Cons.IH by blast
  then show ?case using r1 serves_trans [OF r1(2)] by fastforce
qed

lemma room_0: "room 0 r"
  using unsigned_less [of "sr_next_id r"] by (simp add: room_def)

lemma each_complete_tcp:
  "stack_inv r \<Longrightarrow> \<exists>r'. each (complete_tcp sm) ks r = Some r' \<and> serves 0 {#} r r' \<and> length (sr_listeners r') = length (sr_listeners r)"
  by (rule each_serves [where n = 0, unfolded mult_0_right, OF complete_tcp_serves _ room_0])

lemma each_complete_packet:
  "stack_inv r \<Longrightarrow> \<exists>r'. each (complete_packet sm kind) ks r = Some r' \<and> serves 0 {#} r r'
    \<and> length (sr_listeners r') = length (sr_listeners r)"
  by (rule each_serves [where n = 0, unfolded mult_0_right, OF complete_packet_serves _ room_0])

lemma each_complete_listener:
  "stack_inv r \<Longrightarrow> room (length ks) r \<Longrightarrow> \<exists>r'. each (complete_listener sm) ks r = Some r' \<and> serves (length ks) {#} r r'
    \<and> length (sr_listeners r') = length (sr_listeners r)"
  by (rule each_serves [where n = 1, unfolded mult_1_right, OF complete_listener_serves])

lemma serves_inv: "serves n new r r' \<Longrightarrow> stack_inv r'"
  by (simp add: serves_def)

lemma complete_pending_serves:
  assumes "stack_inv r" "room (length (sr_listeners r)) r"
  shows "\<exists>r'. complete_pending sm r = Some r' \<and> serves (length (sr_listeners r)) {#} r r'"
proof -
  obtain a where a: "each (complete_tcp sm) (map fst (sr_tcp r)) r = Some a" "serves 0 {#} r a"
      "length (sr_listeners a) = length (sr_listeners r)"
    using each_complete_tcp [OF assms(1)] by blast
  have "room (length (map fst (sr_listeners a))) a" using a(2,3) assms(2) by (simp add: room_def serves_def)
  then obtain b where b: "each (complete_listener sm) (map fst (sr_listeners a)) a = Some b"
      "serves (length (map fst (sr_listeners a))) {#} a b"
    using each_complete_listener [OF serves_inv [OF a(2)]] by blast
  obtain c where c: "each (complete_packet sm KUdp) (map fst (sr_udp b)) b = Some c" "serves 0 {#} b c"
    using each_complete_packet [OF serves_inv [OF b(2)]] by blast
  obtain d where d: "each (complete_packet sm KRaw) (map fst (sr_raw c)) c = Some d" "serves 0 {#} c d"
    using each_complete_packet [OF serves_inv [OF c(2)]] by blast
  obtain e where e: "each (complete_packet sm KIcmp) (map fst (sr_icmp d)) d = Some e" "serves 0 {#} d e"
    using each_complete_packet [OF serves_inv [OF d(2)]] by blast
  have "serves (length (sr_listeners r)) {#} r e"
    using serves_trans [OF serves_trans [OF serves_trans [OF serves_trans [OF a(2) b(2)] c(2)] d(2)] e(2)] a(3) by simp
  then show ?thesis by (simp add: complete_pending_def complete_udp_def complete_raw_def complete_icmp_def a(1) b(1) c(1) d(1) e(1))
qed

subsection \<open>Turns of the loop\<close>

text \<open>What is relied on of smoltcp: a poll changes neither the number nor the kinds of the sockets.\<close>

definition poll_law :: "('i, 's) smoltcp \<Rightarrow> bool" where
  "poll_law sm \<longleftrightarrow> (\<forall>now rx interface sockets.
     map fst (snd (snd (sm_poll sm now rx interface sockets))) = map fst sockets)"

lemma device_uses_ok: "device_ok d \<Longrightarrow> device_ok (device_uses us d)"
proof (induction us d rule: device_uses.induct)
  case (2 us d)
  then show ?case by (auto simp: device_receive_def device_ok_def split: option.splits list.splits)
next
  case (3 packet us d)
  then show ?case by (auto simp: tx_consume_def device_ok_def)
qed simp

lemma poll_serves: "poll_law sm \<Longrightarrow> stack_inv r \<Longrightarrow> serves 0 {#} r (stack_poll sm now r)"
  by (auto simp: serves_def stack_inv_def answered_def pending_def stack_poll_def poll_law_def device_uses_ok
      split: prod.split) (metis snd_conv)+

lemma push_rx_ok: "device_ok d \<Longrightarrow> device_ok (snd (push_rx packet d))"
  by (auto simp: push_rx_def device_ok_def)

text \<open>A turn may also change the node, keeping its invariant.\<close>

definition turned :: "nat \<Rightarrow> nat multiset \<Rightarrow> ('i, 's, 'hs) stack_runtime \<Rightarrow> ('i, 's, 'hs) stack_runtime \<Rightarrow> bool" where
  "turned n new r r' \<longleftrightarrow> serves n new r (r'\<lparr>sr_node := sr_node r\<rparr>) \<and> (node_inv (sr_node r) \<longrightarrow> node_inv (sr_node r'))"

lemma serves_turned: "serves n new r r' \<Longrightarrow> turned n new r r'"
  by (simp add: turned_def serves_def stack_inv_def answered_def pending_def)

lemma turned_trans: "turned n a r s \<Longrightarrow> turned m b s t \<Longrightarrow> turned (n + m) (a + b) r t"
  by (auto simp: turned_def serves_def stack_inv_def answered_def pending_def ac_simps)

lemma event_turned: "stack_inv r \<Longrightarrow> turned 0 {#} r (snd (stack_event r))"
  using keeps_next_event [OF keeps_refl, of "sr_node r"]
  by (auto simp: turned_def serves_def stack_inv_def answered_def pending_def stack_event_def keeps_def push_rx_ok Let_def
      split: prod.splits option.splits vela_event.splits)

lemma flush_packets_keeps: "node_inv node \<Longrightarrow> \<exists>node'. flush_packets env packets node = Some node' \<and> node_inv node'"
proof (induction packets arbitrary: node)
  case (Cons packet packets)
  obtain result u where "send_ip env packet node = Some (result, u)" "keeps node u" by (rule send_ip_keeps [OF Cons.prems])
  then show ?case using Cons by (simp add: keeps_def)
qed simp

lemma turned_update:
  assumes "stack_inv r" "node_inv node" "device_ok (sr_device r) \<Longrightarrow> device_ok d"
  shows "turned 0 {#} r (r\<lparr>sr_node := node, sr_device := d\<rparr>)"
proof -
  have "serves 0 {#} r (r\<lparr>sr_device := d\<rparr>)"
    using assms(1,3) by (auto simp: serves_def stack_inv_def answered_def pending_def)
  then show ?thesis using assms(2) by (simp add: turned_def)
qed

lemma flush_turned:
  assumes "stack_inv r" "node_inv (sr_node r)"
  shows "\<exists>r'. flush_device env r = Some r' \<and> turned 0 {#} r r' \<and> vd_tx (sr_device r') = []"
proof -
  obtain node' where flush: "flush_packets env (vd_tx (sr_device r)) (sr_node r) = Some node'" "node_inv node'"
    using flush_packets_keeps [OF assms(2)] by blast
  have "device_ok (drained (sr_device r))" if "device_ok (sr_device r)"
    using that by (simp add: device_ok_def drained_def)
  then have "turned 0 {#} r (r\<lparr>sr_node := node', sr_device := drained (sr_device r)\<rparr>)"
    by (intro turned_update assms(1) flush(2))
  then show ?thesis by (simp add: flush_device_def flush(1)) (simp add: drained_def)
qed

fun input_requests :: "stack_input \<Rightarrow> nat multiset" where
  "input_requests (InCommand (Some command)) = {#command_reply command#}"
| "input_requests _ = {#}"

lemma select_turned:
  assumes "poll_law sm" "stack_inv r" "room 1 r"
  shows "\<exists>stop r'. stack_select sm input r = Some (stop, r') \<and> turned 1 (input_requests input) r r'"
proof (cases "(sm, input, r)" rule: stack_select.cases)
  case (2 sm' command r')
  then show ?thesis using serves_command [OF assms(2,3), of sm command] serves_turned by fastforce
next
  case (3 sm' r')
  then show ?thesis using event_turned [OF assms(2)]
    by (auto simp: turned_def intro!: exI [of _ "fst (stack_event r)"] exI [of _ "snd (stack_event r)"] intro: serves_more)
next
  case (4 sm' now r')
  then show ?thesis using serves_turned [OF serves_more [OF poll_serves [OF assms(1,2)], of 1]] by auto
qed (use serves_turned [OF serves_more [OF serves_refl [OF assms(2)], of 1]] in auto)

text \<open>The ids a turn may take: one for its command and one per listener.\<close>

abbreviation ids_left :: "('i, 's, 'hs) stack_runtime \<Rightarrow> bool" where
  "ids_left r \<equiv> room (length (sr_listeners r) + 2) r"

lemma turn_turned:
  assumes "poll_law sm" "stack_inv r" "node_inv (sr_node r)" "ids_left r"
  shows "\<exists>stop r'. stack_turn env sm input r = Some (stop, r')
    \<and> turned (length (sr_listeners r) + 2) (input_requests input) r r' \<and> (\<not> stop \<longrightarrow> vd_tx (sr_device r') = [])"
proof -
  have "room 1 r" using assms(4) by (simp add: room_def)
  then obtain stop r1 where r1: "stack_select sm input r = Some (stop, r1)" "turned 1 (input_requests input) r r1"
    using select_turned [OF assms(1,2)] by blast
  have inv: "stack_inv r1" "node_inv (sr_node r1)" and more: "length (sr_listeners r1) \<le> length (sr_listeners r) + 1"
      "unat (sr_next_id r1) \<le> unat (sr_next_id r) + 1"
    using r1(2) assms(3) by (auto simp: turned_def serves_def stack_inv_def)
  show ?thesis
  proof (cases stop)
    case True
    have "turned (length (sr_listeners r) + 2) (input_requests input) r (r1\<lparr>sr_node := node_shutdown (sr_node r1)\<rparr>)"
      using r1(2) keeps_lifecycle [of "sr_node r1"]
      by (auto simp: turned_def keeps_def serves_def stack_inv_def answered_def pending_def)
    then show ?thesis using True r1(1) by (auto simp: stack_turn_def)
  next
    case False
    have "room (length (sr_listeners r1)) r1" using more assms(4) by (simp add: room_def)
    then obtain r2 where r2: "complete_pending sm r1 = Some r2" "serves (length (sr_listeners r1)) {#} r1 r2"
      using complete_pending_serves [OF inv(1)] by blast
    have "stack_inv r2" "node_inv (sr_node r2)" using r2(2) inv by (auto simp: serves_def)
    then obtain r3 where r3: "flush_device env r2 = Some r3" "turned 0 {#} r2 r3" "vd_tx (sr_device r3) = []"
      using flush_turned by blast
    have "turned (1 + length (sr_listeners r1) + 0) (input_requests input + {#} + {#}) r r3"
      by (rule turned_trans [OF turned_trans [OF r1(2) serves_turned [OF r2(2)]] r3(2)])
    then have "turned (length (sr_listeners r) + 2) (input_requests input) r r3"
      using more(1) by (auto simp: turned_def intro: serves_more)
    then show ?thesis using False r1 r2 r3 by (auto simp: stack_turn_def)
  qed
qed

subsection \<open>Choice of a port\<close>

definition port_used :: "('i, 's) smoltcp \<Rightarrow> ('i, 's, 'hs) stack_runtime \<Rightarrow> u16 \<Rightarrow> bool" where
  "port_used sm r p \<longleftrightarrow> (\<exists>(_, state) \<in> set (sr_listeners r). sock_port (ls_local state) = p)
    \<or> (\<exists>(_, state) \<in> set (sr_tcp r). \<exists>socket. get_socket KTcp (ts_handle state) r = Some socket
        \<and> sm_tcp_state sm socket \<noteq> TcpClosed \<and> sm_tcp_local_port sm socket = Some p)"

text \<open>The ports of the ephemeral range by their offset.\<close>

definition port_at :: "nat \<Rightarrow> u16" where
  "port_at k = word_of_nat (49152 + k mod 16384)"

lemma unat_port_at: "unat (port_at k) = 49152 + k mod 16384"
proof -
  have "49152 + k mod 16384 < 65536" using mod_less_divisor [of 16384 k] by linarith
  then show ?thesis unfolding port_at_def by (simp only: unat_of_nat) simp
qed

lemma next_port_at: "next_port_after (port_at k) = port_at (Suc k)"
proof -
  have small: "k mod 16384 < 16384" by simp
  have e: "port_at k = EPHEMERAL_PORT_END \<longleftrightarrow> k mod 16384 = 16383"
    by (simp add: word_unat_eq_iff unat_port_at EPHEMERAL_PORT_END_def)
  show ?thesis
  proof (cases "k mod 16384 = 16383")
    case True
    then have "Suc k mod 16384 = 0" by (simp add: mod_Suc)
    then show ?thesis using True e
      by (simp add: next_port_after_def word_unat_eq_iff unat_port_at EPHEMERAL_PORT_START_def)
  next
    case False
    then have "Suc k mod 16384 = Suc (k mod 16384)" "Suc (49152 + k mod 16384) < 65536"
      using small by (simp add: mod_Suc, linarith)
    then show ?thesis using False e
      by (simp add: next_port_after_def word_unat_eq_iff unat_port_at unat_word_ariths)
  qed
qed

lemma port_at_offset: "EPHEMERAL_PORT_START \<le> p \<Longrightarrow> port_at (unat p - 49152) = p"
proof -
  assume "EPHEMERAL_PORT_START \<le> p"
  then have "49152 \<le> unat p" by (simp add: word_le_nat_alt EPHEMERAL_PORT_START_def)
  moreover have "unat p < 65536" using unsigned_less [of p] by simp
  ultimately show ?thesis by (simp add: word_unat_eq_iff unat_port_at)
qed

lemma tcp_uses_port_iff:
  "tcp_uses_port sm r p states = Some used \<Longrightarrow>
   used \<longleftrightarrow> (\<exists>(_, state) \<in> set states. \<exists>socket. get_socket KTcp (ts_handle state) r = Some socket
      \<and> sm_tcp_state sm socket \<noteq> TcpClosed \<and> sm_tcp_local_port sm socket = Some p)"
  by (induction states) (fastforce split: option.splits if_splits)+

lemma port_used_port [simp]: "port_used sm (r\<lparr>sr_next_port := q\<rparr>) p = port_used sm r p"
  by (simp add: port_used_def get_socket_def)

lemma allocate_port_loop_correct:
  "allocate_port_loop sm n r = Some (result, r') \<Longrightarrow> sr_next_port r = port_at k \<Longrightarrow>
   case result of
     Inl e \<Rightarrow> e = StackNoEphemeralPort \<and> (\<forall>i < n. port_used sm r (port_at (k + i)))
   | Inr p \<Rightarrow> (\<exists>i < n. p = port_at (k + i)) \<and> \<not> port_used sm r p"
proof (induction n arbitrary: r k)
  case (Suc n)
  let ?r = "r\<lparr>sr_next_port := next_port_after (port_at k)\<rparr>"
  have "tcp_uses_port sm ?r (port_at k) (sr_tcp r) \<noteq> None"
    using Suc.prems by (auto simp: Let_def split: option.splits)
  then obtain used where used: "tcp_uses_port sm ?r (port_at k) (sr_tcp r) = Some used" by blast
  have iff: "port_used sm r (port_at k) \<longleftrightarrow> list_ex (\<lambda>(_, state). sock_port (ls_local state) = port_at k) (sr_listeners r) \<or> used"
    using tcp_uses_port_iff [OF used] by (auto simp: port_used_def list_ex_iff get_socket_def)
  show ?case
  proof (cases "port_used sm r (port_at k)")
    case True
    then have "allocate_port_loop sm n ?r = Some (result, r')" using Suc.prems used iff by (auto simp: Let_def)
    then have "case result of
       Inl e \<Rightarrow> e = StackNoEphemeralPort \<and> (\<forall>i < n. port_used sm r (port_at (Suc k + i)))
     | Inr p \<Rightarrow> (\<exists>i < n. p = port_at (Suc k + i)) \<and> \<not> port_used sm r p"
      using Suc.IH [of ?r "Suc k"] by (cases result) (simp_all add: next_port_at)
    then show ?thesis using True by (auto simp: less_Suc_eq_0_disj split: sum.splits)
  next
    case False
    then have "result = Inr (port_at k)" using Suc.prems used iff by (auto simp: Let_def)
    then show ?thesis using False by auto
  qed
qed auto

lemma cyclic_offset: "\<exists>i < 16384. (k + i) mod 16384 = j mod (16384 :: nat)"
proof -
  define m where "m = k mod 16384"
  have "m < 16384" by (simp add: m_def)
  then have "m + (j + (16384 - m)) = j + 16384" by simp
  then have "(k + (j + (16384 - m)) mod 16384) mod 16384 = j mod 16384"
    by (metis m_def mod_add_left_eq mod_add_right_eq mod_add_self2)
  then show ?thesis by (intro exI [of _ "(j + (16384 - m)) mod 16384"]) simp
qed

lemma allocate_tcp_port_correct:
  assumes "stack_inv r" "EPHEMERAL_PORT_START \<le> sr_next_port r"
  shows "\<exists>result r'. allocate_tcp_port sm r = Some (result, r') \<and> (case result of
       Inl e \<Rightarrow> e = StackNoEphemeralPort \<and> (\<forall>p \<ge> EPHEMERAL_PORT_START. port_used sm r p)
     | Inr p \<Rightarrow> EPHEMERAL_PORT_START \<le> p \<and> \<not> port_used sm r p)"
proof -
  obtain result r' where loop: "allocate_tcp_port sm r = Some (result, r')"
    using allocate_port_loop_ok [OF assms(1)] unfolding allocate_tcp_port_def by blast
  let ?k = "unat (sr_next_port r) - 49152"
  have "allocate_port_loop sm 16384 r = Some (result, r')"
    using loop by (simp add: allocate_tcp_port_def EPHEMERAL_PORT_END_def EPHEMERAL_PORT_START_def)
  then have found: "case result of
     Inl e \<Rightarrow> e = StackNoEphemeralPort \<and> (\<forall>i < 16384. port_used sm r (port_at (?k + i)))
   | Inr p \<Rightarrow> (\<exists>i < 16384. p = port_at (?k + i)) \<and> \<not> port_used sm r p"
    by (rule allocate_port_loop_correct) (simp add: port_at_offset [OF assms(2)])
  have low: "EPHEMERAL_PORT_START \<le> port_at i" for i
    by (simp add: word_le_nat_alt unat_port_at EPHEMERAL_PORT_START_def)
  have reach: "\<exists>i < 16384. p = port_at (?k + i)" if "EPHEMERAL_PORT_START \<le> p" for p
  proof -
    obtain i where "i < 16384" "(?k + i) mod 16384 = (unat p - 49152) mod 16384" using cyclic_offset by blast
    then have "port_at (?k + i) = port_at (unat p - 49152)" by (simp add: word_unat_eq_iff unat_port_at)
    then show ?thesis using \<open>i < 16384\<close> port_at_offset [OF that] by auto
  qed
  have "case result of
       Inl e \<Rightarrow> e = StackNoEphemeralPort \<and> (\<forall>p \<ge> EPHEMERAL_PORT_START. port_used sm r p)
     | Inr p \<Rightarrow> EPHEMERAL_PORT_START \<le> p \<and> \<not> port_used sm r p"
  proof (cases result)
    case (Inl e)
    then show ?thesis using found reach by fastforce
  next
    case (Inr p)
    then show ?thesis using found low by auto
  qed
  then show ?thesis using loop by blast
qed

subsection \<open>Reachable stacks\<close>

text \<open>A stack attached to a node: its own turns interleave with the steps the node takes by itself.
  \<open>issued\<close> are the requests its handles have sent.\<close>

inductive stack_reachable :: "('i, 's) smoltcp \<Rightarrow> nat multiset \<Rightarrow> ('i, 's, 'hs) stack_runtime \<Rightarrow> bool" for sm where
  attach: "node_reachable node_config node \<Longrightarrow> vela_stack_attach sm node config = Inr r \<Longrightarrow> stack_reachable sm {#} r"
| turn: "stack_reachable sm issued r \<Longrightarrow> ids_left r \<Longrightarrow> stack_turn env sm input r = Some (False, r') \<Longrightarrow>
    stack_reachable sm (issued + input_requests input) r'"
| node: "stack_reachable sm issued r \<Longrightarrow> node_step env op (sr_node r) = Some node' \<Longrightarrow>
    stack_reachable sm issued (r\<lparr>sr_node := node'\<rparr>)"

definition stack_good :: "nat multiset \<Rightarrow> ('i, 's, 'hs) stack_runtime \<Rightarrow> bool" where
  "stack_good issued r \<longleftrightarrow> stack_inv r \<and> node_inv (sr_node r) \<and> answered r + pending r = issued
    \<and> device_ok (sr_device r) \<and> EPHEMERAL_PORT_START \<le> sr_next_port r"

lemma turned_good: "stack_good issued r \<Longrightarrow> turned n new r r' \<Longrightarrow> stack_good (issued + new) r'"
  by (auto simp: stack_good_def turned_def serves_def stack_inv_def answered_def pending_def)

lemma stack_reachable_good:
  assumes "poll_law sm"
  shows "stack_reachable sm issued r \<Longrightarrow> stack_good issued r \<and> vd_tx (sr_device r) = []"
proof (induction rule: stack_reachable.induct)
  case (attach node_config node config r)
  have "node_inv node" using reachable_inv [OF attach(1)] by simp
  then show ?case using attach(2)
    by (auto simp: vela_stack_attach_def stack_runtime_new_def stack_good_def stack_inv_def table_ok_def answered_def
        pending_def device_ok_def virtual_device_new_def DEVICE_QUEUE_LIMIT_def split: sum.splits)
next
  case (turn issued r env input r')
  then have "stack_good issued r" by simp
  then obtain "stack_inv r" "node_inv (sr_node r)" by (simp add: stack_good_def)
  from turn_turned [OF assms this turn.hyps(2), of env input] turn.hyps(3)
  have "turned (length (sr_listeners r) + 2) (input_requests input) r r'" "vd_tx (sr_device r') = []" by auto
  then show ?case using turned_good [OF \<open>stack_good issued r\<close>] by blast
next
  case (node issued r env op node')
  have "node_inv node'" using node node_step_returns [of "sr_node r" env op] by (auto simp: stack_good_def steps_to_def)
  then show ?case using node.IH by (simp add: stack_good_def stack_inv_def answered_def pending_def)
qed

text \<open>Only an established connection completes a dial, and only a socket that can send completes a
  send: when the peer refuses or resets the connection, both stay pending.\<close>

lemma closed_socket_keeps_requests:
  assumes "map_of (sr_tcp r) sid = Some state" "get_socket KTcp (ts_handle state) r = Some socket"
    "sm_tcp_state sm socket = TcpClosed" "\<not> sm_tcp_can_send sm socket" "complete_tcp sm sid r = Some r'"
  shows "\<exists>state'. map_of (sr_tcp r') sid = Some state' \<and> ts_connect state' = ts_connect state \<and> ts_send state' = ts_send state"
proof -
  have connect: "complete_connect sm sid socket (state, r) = (state, r)"
    using assms(3) by (simp add: complete_connect_def split: option.split)
  have send: "complete_send sm socket (state, r) = (socket, state, r)"
    using assms(4) by (auto simp: complete_send_def split: option.split)
  show ?thesis using assms(5)
    by (auto simp: complete_tcp_def assms(1,2) connect send complete_recv_def put_tcp_def update_conv' split: option.splits)
qed

text \<open>A small stand-in for smoltcp: every call succeeds, no connection is ever established and a
  poll takes no packet.\<close>

definition sample_smoltcp :: "(unit, nat) smoltcp" where
  "sample_smoltcp = \<lparr>sm_interface_new = (\<lambda>_ _. ()), sm_poll = (\<lambda>_ _ i s. ([], i, s)), sm_poll_delay = (\<lambda>_ _ _. None),
     sm_tcp_connect = (\<lambda>_ _ port i. (Inr (unat port), i)), sm_tcp_listen = (\<lambda>_ _. Inr 0), sm_tcp_state = (\<lambda>_. TcpSynSent),
     sm_tcp_local_port = (\<lambda>s. Some (word_of_nat s)), sm_tcp_remote = (\<lambda>_. None), sm_tcp_can_send = (\<lambda>_. False),
     sm_tcp_can_recv = (\<lambda>_. False), sm_tcp_may_recv = (\<lambda>_. True), sm_tcp_send = (\<lambda>_ s. (Inr 0, s)),
     sm_tcp_recv = (\<lambda>_ s. (Inr [], s)), sm_tcp_close = (\<lambda>s. s), sm_udp_bind = (\<lambda>_ _. Inr 0),
     sm_udp_can_recv = (\<lambda>_. False), sm_udp_send = (\<lambda>_ _ s. (Inr (), s)), sm_udp_recv = (\<lambda>_ s. (Inl [], s)),
     sm_raw_new = (\<lambda>_ _ _. 0), sm_raw_can_recv = (\<lambda>_. False), sm_raw_send = (\<lambda>_ s. (Inr (), s)),
     sm_raw_recv = (\<lambda>_ s. (Inr [], s)), sm_icmp_bind = (\<lambda>_ _. Inr 0), sm_icmp_recv_queue = (\<lambda>_. 0),
     sm_icmp_send = (\<lambda>_ _ s. (Inr (), s)), sm_icmp_recv = (\<lambda>_ s. (Inl [], s))\<rparr>"

definition sample_stack :: "(unit, nat, bytes list) stack_runtime" where
  "sample_stack = stack_runtime_new sample_smoltcp (fresh_node node_config_default 10) (stack_config_ipv4 0x0A58000A)"

lemma sample_poll_law: "poll_law sample_smoltcp"
  by (simp add: poll_law_def sample_smoltcp_def)

lemma sample_stack_reachable: "stack_reachable sample_smoltcp {#} sample_stack"
proof -
  have node: "node_reachable node_config_default (fresh_node node_config_default 10)"
    unfolding fresh_node_def
    by (rule node_reachable.built [of "Some \<lparr>id_signing = 10, id_noise_static = 10\<rparr>" "Some 1" True node_config_default False
      "\<lparr>id_signing = 0, id_noise_static = 0\<rparr>" 0 None "Some 4"])
      (simp add: node_build_def node_config_default_def)
  show ?thesis
    by (rule stack_reachable.attach [OF node, of _ "stack_config_ipv4 0x0A58000A"])
      (simp add: vela_stack_attach_def attach_check_def stack_config_ipv4_def stack_config_default_def sample_stack_def
        DEFAULT_VIRTUAL_MTU_def)
qed

definition dialled_stack :: "(unit, nat, bytes list) stack_runtime" where
  "dialled_stack = sample_stack\<lparr>sr_sockets := [(KTcp, 49152)], sr_next_id := 2, sr_next_port := 49153,
     sr_tcp := [(1, \<lparr>ts_handle = 0, ts_connect = Some 7, ts_send = None, ts_recv = None\<rparr>)]\<rparr>"

lemma allocate_first:
  "sr_tcp r = [] \<Longrightarrow> sr_listeners r = [] \<Longrightarrow>
   allocate_tcp_port sm r = Some (Inr (sr_next_port r), r\<lparr>sr_next_port := next_port_after (sr_next_port r)\<rparr>)"
  unfolding allocate_tcp_port_def Suc_eq_plus1 [symmetric] by (simp add: Let_def)

lemma dialled_stack_reachable: "stack_reachable sample_smoltcp {#7#} dialled_stack"
proof -
  have "stack_turn sample_node_env sample_smoltcp (InCommand (Some (DialTcp (SockV4 0x0A580014 80) 7))) sample_stack
      = Some (False, dialled_stack)"
    by (simp add: stack_turn_def dial_tcp_command_def stack_next_id_def allocate_first add_socket_def
        complete_pending_def complete_tcp_def complete_connect_def complete_send_def complete_recv_def get_socket_def
        put_socket_def put_tcp_def tcp_receive_def flush_device_def drained_def virtual_device_new_def dialled_stack_def sample_stack_def
        stack_runtime_new_def sample_smoltcp_def next_port_after_def EPHEMERAL_PORT_START_def EPHEMERAL_PORT_END_def
        stack_config_ipv4_def stack_config_default_def Let_def)
  then show ?thesis
    using stack_reachable.turn [OF sample_stack_reachable, of sample_node_env "InCommand (Some (DialTcp (SockV4 0x0A580014 80) 7))"]
    by (simp add: room_def sample_stack_def stack_runtime_new_def)
qed

subsection \<open>Properties\<close>

text \<open>C23: the owner task of the stack loses no request and answers none twice. Whatever commands its
  handles have sent, in whatever order with the events of the node, the polls and the steps the
  node takes by itself, the requests answered and the requests still pending on a socket are
  together exactly the requests sent, each as often as it was sent; and the next turn returns: no
  handle of a table points outside the socket set or to a socket of another kind, which would
  panic. The queues of the virtual device hold at most 256 packets within the MTU, and the packets
  smoltcp wrote have all been given to the node.\<close>

theorem stack_requests_answered_once:
  assumes "poll_law sm" "stack_reachable sm issued r" "ids_left r"
  shows "answered r + pending r = issued
    \<and> (\<exists>stop r'. stack_turn env sm input r = Some (stop, r') \<and> answered r' + pending r' = issued + input_requests input)
    \<and> length (vd_rx (sr_device r)) \<le> 256 \<and> (\<forall>packet \<in> set (vd_rx (sr_device r)). length packet \<le> vd_mtu (sr_device r))
    \<and> vd_tx (sr_device r) = []"
proof -
  have good: "stack_good issued r" and tx: "vd_tx (sr_device r) = []"
    using stack_reachable_good [OF assms(1,2)] by auto
  obtain stop r' where "stack_turn env sm input r = Some (stop, r')"
      "turned (length (sr_listeners r) + 2) (input_requests input) r r'"
    using turn_turned [OF assms(1) _ _ assms(3), of env input] good by (auto simp: stack_good_def)
  then show ?thesis using good tx turned_good [OF good]
    by (auto simp: stack_good_def device_ok_def DEVICE_QUEUE_LIMIT_def)
qed

theorem stack_requests_answered_once_witness:
  "answered dialled_stack + pending dialled_stack = {#7#}
   \<and> (\<exists>stop r'. stack_turn sample_node_env sample_smoltcp (InCommand (Some (TcpRecv 1 100 8))) dialled_stack = Some (stop, r')
      \<and> answered r' + pending r' = {#7, 8#})"
proof -
  have "ids_left dialled_stack" by (simp add: room_def dialled_stack_def sample_stack_def stack_runtime_new_def)
  from stack_requests_answered_once [OF sample_poll_law dialled_stack_reachable this, of sample_node_env
      "InCommand (Some (TcpRecv 1 100 8))"]
  show ?thesis by (simp add: add_mset_commute)
qed

text \<open>C24: an outgoing connection gets a free port. The search returns a port of the ephemeral range
  that no listener and no open TCP socket uses, and it fails exactly when every port of the range
  is in use.\<close>

theorem tcp_port_allocation_correct:
  assumes "poll_law sm" "stack_reachable sm issued r"
  shows "\<exists>result r'. allocate_tcp_port sm r = Some (result, r') \<and> (case result of
       Inl e \<Rightarrow> e = StackNoEphemeralPort \<and> (\<forall>p \<ge> 49152. port_used sm r p)
     | Inr p \<Rightarrow> 49152 \<le> p \<and> \<not> port_used sm r p)"
  using stack_reachable_good [OF assms] allocate_tcp_port_correct [of r sm]
  unfolding stack_good_def EPHEMERAL_PORT_START_def by blast

theorem tcp_port_allocation_correct_witness:
  "port_used sample_smoltcp dialled_stack 49152
   \<and> (\<exists>p r'. allocate_tcp_port sample_smoltcp dialled_stack = Some (Inr p, r') \<and> 49152 \<le> p
      \<and> \<not> port_used sample_smoltcp dialled_stack p)"
proof -
  have used: "port_used sample_smoltcp dialled_stack p \<longleftrightarrow> p = 49152" for p
    by (auto simp: port_used_def dialled_stack_def sample_stack_def stack_runtime_new_def get_socket_def sample_smoltcp_def)
  obtain result r' where found: "allocate_tcp_port sample_smoltcp dialled_stack = Some (result, r')" "case result of
       Inl e \<Rightarrow> e = StackNoEphemeralPort \<and> (\<forall>p \<ge> 49152. port_used sample_smoltcp dialled_stack p)
     | Inr p \<Rightarrow> 49152 \<le> p \<and> \<not> port_used sample_smoltcp dialled_stack p"
    using tcp_port_allocation_correct [OF sample_poll_law dialled_stack_reachable] by blast
  have "\<not> (\<forall>p \<ge> 49152. port_used sample_smoltcp dialled_stack p)" using used [of 49153] by (auto intro!: exI [of _ 49153])
  then show ?thesis using found used by (cases result) auto
qed

end
