(* ===== verification/Spec2Isabelle.thy ===== *)
theory Spec2Isabelle
  imports Vela_Join Vela_Tun Vela_Stack
begin

text \<open>
  Verification of Vela, a peer-to-peer virtual network (the Rust crates under \<open>src/\<close>).

  \<^bold>\<open>The program.\<close> A coordinator (\<open>vela-coord\<close>) admits nodes to a network, gives each a virtual
  address and a signed credential, and publishes signed snapshots of the membership. A node
  (\<open>vela-core\<close>) learns the membership from the coordinator (\<open>vela-coord-client\<close>), opens encrypted
  sessions with the other members over UDP, and carries IP packets through them. The packets enter
  and leave at a kernel interface (\<open>vela-tun\<close>) or at a TCP/IP stack inside the process
  (\<open>vela-stack\<close>). \<open>vela-proto\<close>, \<open>vela-ip\<close> and \<open>vela-crypto\<close> hold the formats and the
  cryptography they share, \<open>vela-stun\<close> and \<open>vela-dns\<close> find the public address of a node and the
  address of the coordinator.

  \<^bold>\<open>Conventions.\<close> Machine integers are words, \<open>usize\<close> is \<open>nat\<close>, a byte array of \<open>n\<close> bytes that
  the code only compares and copies is a word of \<open>8 * n\<close> bits. \<open>Result\<close> is a sum with the error on
  the left; a panic, an index out of range and a loop that does not end are \<open>None\<close>. Shared objects
  (the \<open>Arc\<close>s of the peers, the sockets of the stack) live in an explicit store. Hash maps are
  association lists. What the code calls outside the repository is a parameter: the cryptographic
  primitives (\<open>crypto_prims\<close>, \<open>noise_prims\<close>), JSON and Base64 (\<open>coord_env\<close>, \<open>client_env\<close>), clocks,
  random numbers and the outcome of every datagram (\<open>node_env\<close>), of every system call and netlink
  request (lists and functions of outcomes), the TCP/IP library (\<open>smoltcp\<close>). The laws used of them
  are named definitions: \<open>aead_law\<close>, \<open>signature_law\<close>, \<open>credential_json_law\<close>, \<open>base64_law\<close>,
  \<open>poll_law\<close>; the witnesses instantiate them with concrete functions.

  \<^bold>\<open>Theories.\<close>

  \<^item> \<open>Vela_Prelude\<close>: bytes, big-endian fields, panics as options, the locale \<open>prefix_code\<close> of
    self-delimiting encoders.
  \<^item> \<open>Vela_Proto\<close>, \<open>Vela_Snapshot\<close> (\<open>vela-proto\<close>): node ids and their text, addresses, header and
    wire packet; membership snapshots, their validation and signing bytes. The codecs round trip
    and reject everything else; validation accepts exactly the snapshots the specification
    describes; the signing bytes determine the contents except for one confusion of server lists,
    which is proved as such.
  \<^item> \<open>Vela_Ip\<close> (\<open>vela-ip\<close>): packet parsing, checksum, routes. Parsing is total and accepts exactly
    the well-formed packets; the route table satisfies the laws of a map (locale \<open>route_map\<close>).
  \<^item> \<open>Vela_Crypto\<close> (\<open>vela-crypto\<close>): identities, credentials, snapshot signatures, the handshake
    state and the session cipher.
  \<^item> \<open>Vela_Replay\<close>, \<open>Vela_Mtu\<close>, \<open>Vela_Probe\<close> (\<open>vela-core\<close>): the replay window against its
    specification as a set of sequence numbers, the search for the path MTU, probes, the handshake
    context, the order of candidates and the framing of data packets.
  \<^item> \<open>Vela_Dns\<close>, \<open>Vela_Stun\<close>: the resolver over HTTPS and the binding client. Parsing is total and
    ends; an address is believed only from the queried server in answer to the transaction.
  \<^item> \<open>Vela_Coord\<close>, \<open>Vela_Admin\<close> (\<open>vela-coord\<close>): every message handler, the database operations,
    migration, address allocation, the broadcast task, the administration requests.
    \<open>Vela_Coord_Inv\<close> and \<open>Vela_Coord_Run\<close>: the invariant of the tables through every operation, the
    step relation of the server with its broadcast task, and what follows for published snapshots,
    generations, invites, revocation and broadcasts.
  \<^item> \<open>Vela_Node\<close>, \<open>Vela_Send\<close>, \<open>Vela_Session\<close>, \<open>Vela_Tasks\<close> (\<open>vela-core\<close>): the state of a node with
    its peers as objects of a store; membership and snapshots; the outbound path with its queues
    and batches; handshakes, probes and the inbound path with its worker queues; the background
    tasks and the status. \<open>Vela_Node_Inv\<close>, \<open>Vela_Membership\<close>, \<open>Vela_Node_Send\<close>,
    \<open>Vela_Node_Receive\<close> and \<open>Vela_Node_Run\<close>: the invariant of the tables and queues through every
    operation (locale \<open>peer_store\<close>), the exact effect of a snapshot, and that every operation of
    every reachable node returns.
  \<^item> \<open>Vela_Client\<close> (\<open>vela-coord-client\<close>): the connection, the requests and the queue of messages
    that arrive in between.
  \<^item> \<open>Vela_Network\<close>, \<open>Vela_Join\<close>: the coordinator, the client and the node together. What a node
    makes of the snapshot of any reachable coordinator, and a registration from request to
    verified answer.
  \<^item> \<open>Vela_Tun\<close> (\<open>vela-tun\<close> and the snapshot handling of \<open>vela-cli\<close>): the device, reference-counted
    host routes and their leases, the bridge. After a snapshot the kernel has exactly the routes
    of its remote members.
  \<^item> \<open>Vela_Stack\<close> (\<open>vela-stack\<close>): the handles, the virtual device and the owner task around smoltcp.
    No request is lost or answered twice, no turn panics, a dial gets a free port.

  \<^bold>\<open>Bounds and fuel.\<close> Loops are structural recursions on the data they consume, or functions with a
  termination proof; \<open>flush_queue\<close> of \<open>Vela_Send\<close>, which does not always end, is a partial function
  in the option type, and when it ends and when it does not is proved. The loop of the port search
  has the fuel of the source, one round per ephemeral port, and that it reaches every port is
  proved. Ids of the stack's sockets are 64-bit words; the theorems about the stack assume that
  they have not run out.

  \<^bold>\<open>Not modelled.\<close>

  \<^item> Binding of UDP sockets, the choice of interfaces and the batched system calls of \<open>vela-core\<close>:
    the outcome of a send is a parameter of the node, a received datagram is an input.
  \<^item> HTTP, TLS and WebSocket framing of the coordinator and its client, static assets of the
    administration interface and the SQL text: library code, with the handlers as its callees.
  \<^item> \<open>vela-diagnostic\<close> (configuration files, the control socket and the dashboard around a node) and
    the argument parsing, printing and process supervision of \<open>vela-cli\<close>.
  \<^item> Concurrency below one handler or turn: the locks of the code make each of them atomic, and
    their interleaving is the order of the steps.
\<close>

end
